(* ===== verification/Prelude.thy ===== *)
theory Prelude
  imports Main "HOL-Library.AList" "HOL-Library.Word"
begin

text \<open>
  What every component of the development shares: the collections the proofs draw on, small
  operations of Rust's \<open>Option\<close> and \<open>Result\<close> (errors are \<open>Inl\<close>, values are \<open>Inr\<close>), facts on
  association lists (the model of \<open>HashMap\<close>) and two interfaces that several components
  implement: a loop of at most \<open>N\<close> attempts and a transition system with an invariant.
\<close>

named_theorems io_simps \<comment> \<open>unfolds the primitive interactions of World.thy\<close>
named_theorems client_simps \<comment> \<open>unfolds the trait implementations of the broker clients\<close>
named_theorems store_simps \<comment> \<open>behaviour of the adapter store\<close>

section \<open>Option and Result\<close>

definition unwrap_or :: "'a \<Rightarrow> 'a option \<Rightarrow> 'a" where
  "unwrap_or d x = (case x of None \<Rightarrow> d | Some v \<Rightarrow> v)"

definition result_unwrap_or :: "'a \<Rightarrow> 'e + 'a \<Rightarrow> 'a" where
  "result_unwrap_or d x = (case x of Inl _ \<Rightarrow> d | Inr v \<Rightarrow> v)"

definition map_err :: "('e \<Rightarrow> 'f) \<Rightarrow> 'e + 'a \<Rightarrow> 'f + 'a" where
  "map_err f x = (case x of Inl e \<Rightarrow> Inl (f e) | Inr v \<Rightarrow> Inr v)"

definition is_ok :: "'e + 'a \<Rightarrow> bool" where
  "is_ok x = (case x of Inl _ \<Rightarrow> False | Inr _ \<Rightarrow> True)"

lemma unwrap_or_simps [simp]:
  "unwrap_or d None = d" "unwrap_or d (Some v) = v"
  by (simp_all add: unwrap_or_def)

lemma result_unwrap_or_simps [simp]:
  "result_unwrap_or d (Inl e) = d" "result_unwrap_or d (Inr v) = v"
  by (simp_all add: result_unwrap_or_def)

lemma map_err_simps [simp]:
  "map_err f (Inl e) = Inl (f e)" "map_err f (Inr v) = Inr v"
  by (simp_all add: map_err_def)

lemma is_ok_simps [simp]: "is_ok (Inl e) = False" "is_ok (Inr v) = True"
  by (simp_all add: is_ok_def)

lemma result_unwrap_or_err [simp]: "\<not> is_ok x \<Longrightarrow> result_unwrap_or d x = d"
  by (cases x) simp_all

lemma is_ok_map_err [simp]: "is_ok (map_err f x) = is_ok x"
  by (cases x) simp_all

lemma map_err_eq_Inr [simp]: "map_err f x = Inr v \<longleftrightarrow> x = Inr v"
  by (cases x) simp_all

lemma is_ok_iff: "is_ok x \<longleftrightarrow> (\<exists>v. x = Inr v)"
  by (cases x) simp_all

section \<open>Association lists with distinct keys\<close>

text \<open>
  A \<open>HashMap\<close> is an association list without duplicate keys; the order of the list is the
  order in which the map happens to be iterated.
\<close>

abbreviation keys :: "('k \<times> 'v) list \<Rightarrow> 'k set" where
  "keys al \<equiv> fst ` set al"

abbreviation wf_map :: "('k \<times> 'v) list \<Rightarrow> bool" where
  "wf_map al \<equiv> distinct (map fst al)"

lemma map_of_update [simp]: "map_of (AList.update k v al) x = (if x = k then Some v else map_of al x)"
  by (simp add: update_conv')

lemma map_of_delete [simp]: "map_of (AList.delete k al) x = (if x = k then None else map_of al x)"
  by (simp add: delete_conv')

lemma wf_map_update [simp]: "wf_map al \<Longrightarrow> wf_map (AList.update k v al)"
  by (rule distinct_update)

lemma wf_map_delete [simp]: "wf_map al \<Longrightarrow> wf_map (AList.delete k al)"
  by (rule distinct_delete)

lemma in_values_map_of: "wf_map al \<Longrightarrow> v \<in> snd ` set al \<longleftrightarrow> (\<exists>k. map_of al k = Some v)"
  by (force simp: image_iff)

lemma map_of_rehash: "wf_map al \<Longrightarrow> wf_map bl \<Longrightarrow> set bl = set al \<Longrightarrow> map_of bl = map_of al"
  by (simp add: map_of_inject_set)

section \<open>Interface: a loop of bounded attempts\<close>

text \<open>
  Four loops of the services retry an operation a fixed number of times: the connections to
  DATA_BROKER and NATS, and the operator's REST calls. \<open>body i\<close> is iteration \<open>i\<close> with its
  back-off, \<open>loop is e\<close> runs the iterations \<open>is\<close> and gives the last error when all have failed,
  \<open>tries\<close> counts the attempts and \<open>slept\<close> lists the back-offs that a world has seen.
\<close>

locale bounded_retry =
  fixes body :: "nat \<Rightarrow> 'w \<Rightarrow> ('e + 'a) \<times> 'w"
    and loop :: "nat list \<Rightarrow> 'e \<Rightarrow> 'w \<Rightarrow> ('e + 'a) \<times> 'w"
    and tries :: "'w \<Rightarrow> nat"
    and slept :: "'w \<Rightarrow> nat list"
    and pause :: "nat \<Rightarrow> bool \<Rightarrow> nat list"
  assumes loop_Nil: "loop [] e w = (Inl e, w)"
    and loop_Cons: "loop (i # is) e w =
      (case body i w of (Inr a, w') \<Rightarrow> (Inr a, w') | (Inl e', w') \<Rightarrow> loop is e' w')"
    and body_tries: "tries (snd (body i w)) = Suc (tries w)"
    and body_slept: "slept (snd (body i w)) = slept w @ pause i (is_ok (fst (body i w)))"
begin

lemma tries_bound: "tries (snd (loop is e w)) \<le> tries w + length is"
proof (induction "is" arbitrary: e w)
  case Nil
  then show ?case by (simp add: loop_Nil)
next
  case (Cons i "is")
  obtain r w' where b: "body i w = (r, w')" by (cases "body i w")
  then have t: "tries w' = Suc (tries w)" using body_tries [of i w] by simp
  show ?case
    using b t Cons.IH [of _ w'] by (cases r) (simp_all add: loop_Cons)
qed

text \<open>Failing means that every attempt was made and failed, with every back-off in between.\<close>

lemma exhausted_all:
  "loop is e w = (Inl e', w') \<Longrightarrow>
     tries w' = tries w + length is \<and>
     slept w' = slept w @ concat (map (\<lambda>i. pause i False) is)"
proof (induction "is" arbitrary: e w)
  case Nil
  then show ?case by (simp add: loop_Nil)
next
  case (Cons i "is")
  obtain r w1 where b: "body i w = (r, w1)" by (cases "body i w")
  have t: "tries w1 = Suc (tries w)" "slept w1 = slept w @ pause i (is_ok r)"
    using b body_tries [of i w] body_slept [of i w] by simp_all
  obtain e1 where "r = Inl e1" "loop is e1 w1 = (Inl e', w')"
    using Cons.prems b by (cases r) (simp_all add: loop_Cons)
  then show ?case using t Cons.IH [of e1 w1] by simp
qed

lemmas exhausted = exhausted_all [THEN conjunct1] exhausted_all [THEN conjunct2]

text \<open>
  A result comes from the first attempt that succeeds: the ones before it all failed, each with
  its back-off.
\<close>

lemma succeeded_at:
  "loop is e w = (Inr a, w') \<Longrightarrow>
     \<exists>n < length is.
       tries w' = tries w + Suc n \<and>
       slept w' = slept w @ concat (map (\<lambda>i. pause i False) (take n is)) @ pause (is ! n) True"
proof (induction "is" arbitrary: e w)
  case Nil
  then show ?case by (simp add: loop_Nil)
next
  case (Cons i "is")
  obtain r w1 where b: "body i w = (r, w1)" by (cases "body i w")
  have t: "tries w1 = Suc (tries w)" "slept w1 = slept w @ pause i (is_ok r)"
    using b body_tries [of i w] body_slept [of i w] by simp_all
  show ?case
  proof (cases r)
    case (Inl e1)
    then have "loop is e1 w1 = (Inr a, w')" using Cons.prems b by (simp add: loop_Cons)
    then obtain n where "n < length is" "tries w' = tries w1 + Suc n"
      "slept w' = slept w1 @ concat (map (\<lambda>i. pause i False) (take n is)) @ pause (is ! n) True"
      using Cons.IH by blast
    then show ?thesis using t Inl by (intro exI [of _ "Suc n"]) simp
  next
    case (Inr x)
    then show ?thesis using Cons.prems b t by (intro exI [of _ 0]) (simp add: loop_Cons)
  qed
qed

lemma first_try_ok: "body i w = (Inr a, w') \<Longrightarrow> loop (i # is) e w = (Inr a, w')"
  by (simp add: loop_Cons)

end

section \<open>Interface: a transition system with an invariant\<close>

locale safe_system =
  fixes init :: "'s \<Rightarrow> bool"
    and step :: "'s \<Rightarrow> 's \<Rightarrow> bool"
    and inv :: "'s \<Rightarrow> bool"
  assumes init_inv: "init s \<Longrightarrow> inv s"
    and step_inv: "step s t \<Longrightarrow> inv s \<Longrightarrow> inv t"
begin

lemma steps_inv: "step\<^sup>*\<^sup>* s t \<Longrightarrow> inv s \<Longrightarrow> inv t"
  by (induction rule: rtranclp_induct) (auto intro: step_inv)

lemma reachable_inv: "init s \<Longrightarrow> step\<^sup>*\<^sup>* s t \<Longrightarrow> inv t"
  by (blast intro: steps_inv init_inv)

end

section \<open>Interface: a transition system that runs out of work\<close>

text \<open>
  Every step uses up work, except for what the environment brings in: \<open>paid\<close> is what it has
  brought so far.
\<close>

locale measured_system =
  fixes step :: "'s \<Rightarrow> 's \<Rightarrow> bool"
    and work :: "'s \<Rightarrow> nat"
    and paid :: "'s \<Rightarrow> nat"
  assumes step_work: "step s t \<Longrightarrow> Suc (work t) + paid s \<le> work s + paid t"
begin

lemma run_bound: "(step ^^ n) s t \<Longrightarrow> n + work t + paid s \<le> work s + paid t"
proof (induction n arbitrary: t)
  case (Suc n)
  then obtain u where u: "(step ^^ n) s u" "step u t" by auto
  from Suc.IH [OF u(1)] step_work [OF u(2)] show ?case by simp
qed simp

end

section \<open>Interface: a step that appends to a log\<close>

text \<open>
  Several loops handle one item after another, each adding to what the service has written
  somewhere: \<open>log\<close> is that record, \<open>out\<close> what an item contributes to it.
\<close>

locale log_relay =
  fixes step :: "'i \<Rightarrow> 's \<Rightarrow> 's"
    and log :: "'s \<Rightarrow> 'o list"
    and out :: "'i \<Rightarrow> 'o list"
  assumes step_log: "log (step x s) = log s @ out x"
begin

lemma fold_log: "log (fold step xs s) = log s @ concat (map out xs)"
  by (induction xs arbitrary: s) (simp_all add: step_log)

end

end
