(* ===== verification/Rust_Std.thy ===== *)
theory Rust_Std
  imports Prelude
begin

text \<open>
  The parts of Rust's language and standard library that the services rely on: decimal
  rendering and parsing of integers, the string methods \<open>rsplit\<close>, \<open>replace\<close> and \<open>trim\<close>,
  UTF-8 validation and lossy decoding. A Rust \<open>String\<close> or byte slice is the list
  of its (UTF-8) bytes, each an Isabelle \<open>char\<close>.
\<close>

section \<open>Decimal integers\<close>

definition digit_char :: "nat \<Rightarrow> char" where
  "digit_char d = char_of (48 + d)"

fun show_nat :: "nat \<Rightarrow> string" where
  "show_nat n = (if n < 10 then [digit_char n] else show_nat (n div 10) @ [digit_char (n mod 10)])"

declare show_nat.simps [simp del]

definition show_int :: "int \<Rightarrow> string" where
  "show_int i = (if i < 0 then ''-'' @ show_nat (nat (- i)) else show_nat (nat i))"

definition digit_val :: "char \<Rightarrow> nat option" where
  "digit_val c = (let n = (of_char c :: nat) in if 48 \<le> n \<and> n \<le> 57 then Some (n - 48) else None)"

datatype int_error = EmptyInt | InvalidDigit | PosOverflow | NegOverflow

fun show_int_error :: "int_error \<Rightarrow> string" where
  "show_int_error EmptyInt = ''cannot parse integer from empty string''"
| "show_int_error InvalidDigit = ''invalid digit found in string''"
| "show_int_error PosOverflow = ''number too large to fit in target type''"
| "show_int_error NegOverflow = ''number too small to fit in target type''"

text \<open>
  \<open>from_str_radix(10)\<close>: digits are consumed from the left; the first bad digit or the first
  overflow ends the parse, whichever comes first. \<open>hi\<close> is the largest magnitude allowed.
\<close>

fun parse_digits :: "int_error \<Rightarrow> nat \<Rightarrow> nat \<Rightarrow> string \<Rightarrow> int_error + nat" where
  "parse_digits ov hi acc [] = Inr acc"
| "parse_digits ov hi acc (c # cs) =
     (case digit_val c of
        None \<Rightarrow> Inl InvalidDigit
      | Some d \<Rightarrow> if acc * 10 + d > hi then Inl ov else parse_digits ov hi (acc * 10 + d) cs)"

definition parse_unsigned :: "nat \<Rightarrow> string \<Rightarrow> int_error + nat" where
  "parse_unsigned w s =
     (case s of
        [] \<Rightarrow> Inl EmptyInt
      | c # cs \<Rightarrow>
          if cs = [] \<and> (c = CHR ''+'' \<or> c = CHR ''-'') then Inl InvalidDigit
          else if c = CHR ''+'' then parse_digits PosOverflow (2 ^ w - 1) 0 cs
          else parse_digits PosOverflow (2 ^ w - 1) 0 s)"

definition parse_signed :: "nat \<Rightarrow> string \<Rightarrow> int_error + int" where
  "parse_signed w s =
     (case s of
        [] \<Rightarrow> Inl EmptyInt
      | c # cs \<Rightarrow>
          if cs = [] \<and> (c = CHR ''+'' \<or> c = CHR ''-'') then Inl InvalidDigit
          else if c = CHR ''-'' then map_sum id (\<lambda>n. - int n) (parse_digits NegOverflow (2 ^ (w - 1)) 0 cs)
          else if c = CHR ''+'' then map_sum id int (parse_digits PosOverflow (2 ^ (w - 1) - 1) 0 cs)
          else map_sum id int (parse_digits PosOverflow (2 ^ (w - 1) - 1) 0 s))"

lemma digit_val_char: "d < 10 \<Longrightarrow> digit_val (digit_char d) = Some d"
  by (simp add: digit_val_def digit_char_def Let_def take_bit_nat_def)

lemma of_digit_char: "d < 10 \<Longrightarrow> of_char (digit_char d) = 48 + d"
  by (simp add: digit_char_def take_bit_nat_def)

lemma digit_char_not_sign:
  assumes "d < 10"
  shows "digit_char d \<noteq> CHR ''+''" and "digit_char d \<noteq> CHR ''-''"
proof -
  have "of_char (CHR ''+'') = (43::nat)" "of_char (CHR ''-'') = (45::nat)"
    by simp_all
  then show "digit_char d \<noteq> CHR ''+''" "digit_char d \<noteq> CHR ''-''"
    using of_digit_char [OF assms] by auto
qed

lemma parse_digits_append:
  "parse_digits ov hi acc (xs @ ys) =
     (case parse_digits ov hi acc xs of Inl e \<Rightarrow> Inl e | Inr a \<Rightarrow> parse_digits ov hi a ys)"
  by (induction ov hi acc xs rule: parse_digits.induct) (simp_all split: option.split)

lemma parse_digits_show: "n \<le> hi \<Longrightarrow> parse_digits ov hi 0 (show_nat n) = Inr n"
proof (induction n rule: show_nat.induct)
  case (1 n)
  show ?case
  proof (cases "n < 10")
    case True
    then show ?thesis using 1 by (simp add: show_nat.simps [of n] digit_val_char)
  next
    case False
    with 1 have "parse_digits ov hi 0 (show_nat (n div 10)) = Inr (n div 10)" by simp
    with False 1(2) show ?thesis
      by (simp add: show_nat.simps [of n] parse_digits_append digit_val_char)
  qed
qed

lemma show_nat_Cons: "\<exists>d cs. show_nat n = digit_char d # cs \<and> d < 10"
proof (induction n rule: show_nat.induct)
  case (1 n)
  show ?case
  proof (cases "n < 10")
    case True
    then have "show_nat n = digit_char n # []" by (simp add: show_nat.simps [of n])
    with True show ?thesis by blast
  next
    case False
    with 1 obtain d cs where "show_nat (n div 10) = digit_char d # cs" "d < 10" by auto
    with False have "show_nat n = digit_char d # (cs @ [digit_char (n mod 10)])"
      by (simp add: show_nat.simps [of n])
    with \<open>d < 10\<close> show ?thesis by blast
  qed
qed

lemma parse_unsigned_show: "n < 2 ^ w \<Longrightarrow> parse_unsigned w (show_nat n) = Inr n"
proof -
  assume n: "n < 2 ^ w"
  obtain d cs where s: "show_nat n = digit_char d # cs" "d < 10"
    using show_nat_Cons [of n] by blast
  have "parse_digits PosOverflow (2 ^ w - 1) 0 (show_nat n) = Inr n"
    using n by (intro parse_digits_show) simp
  then show ?thesis
    using s digit_char_not_sign [OF s(2)] by (simp add: parse_unsigned_def)
qed

lemma parse_digits_bound: "parse_digits ov hi acc s = Inr n \<Longrightarrow> acc \<le> hi \<Longrightarrow> n \<le> hi"
  by (induction ov hi acc s rule: parse_digits.induct) (auto split: option.splits if_splits)

lemma parse_unsigned_bound:
  assumes "parse_unsigned w s = Inr n"
  shows "n < 2 ^ w"
proof -
  from assms have "\<exists>t. parse_digits PosOverflow (2 ^ w - 1) 0 t = Inr n"
    by (auto simp: parse_unsigned_def simp del: parse_digits.simps split: list.splits if_splits)
  then have "n \<le> 2 ^ w - 1" using parse_digits_bound by blast
  moreover have "(0::nat) < 2 ^ w" by simp
  ultimately show ?thesis by linarith
qed

section \<open>Strings\<close>

text \<open>\<open>s.rsplit(c).next()\<close>: everything after the last \<open>c\<close>, the whole string when there is none.\<close>

definition after_last :: "char \<Rightarrow> string \<Rightarrow> string" where
  "after_last c s = rev (takeWhile (\<lambda>x. x \<noteq> c) (rev s))"

text \<open>\<open>s.replace(c, by)\<close> for a character pattern.\<close>

definition replace_char :: "char \<Rightarrow> string \<Rightarrow> string \<Rightarrow> string" where
  "replace_char c by s = concat (map (\<lambda>x. if x = c then by else [x]) s)"

lemma after_last_notin: "c \<notin> set (after_last c s)"
  by (auto simp: after_last_def dest: set_takeWhileD)

lemma after_last_append: "c \<notin> set t \<Longrightarrow> after_last c (s @ c # t) = t"
proof -
  assume c: "c \<notin> set t"
  have "takeWhile (\<lambda>x. x \<noteq> c) (rev t @ c # rev s) = rev t @ takeWhile (\<lambda>x. x \<noteq> c) (c # rev s)"
    using c by (intro takeWhile_append2) auto
  then show ?thesis by (simp add: after_last_def)
qed

lemma after_last_none: "c \<notin> set s \<Longrightarrow> after_last c s = s"
  by (induction s rule: rev_induct) (auto simp: after_last_def)

lemma replace_char_append: "replace_char c by (s @ t) = replace_char c by s @ replace_char c by t"
  by (simp add: replace_char_def)

lemma replace_char_none: "c \<notin> set s \<Longrightarrow> replace_char c by s = s"
  by (induction s) (auto simp: replace_char_def)

lemma set_replace_char: "set (replace_char c by s) \<subseteq> (set s - {c}) \<union> set by"
  by (induction s) (auto simp: replace_char_def)

text \<open>
  \<open>str::trim\<close> removes the characters with the Unicode property White\_Space from both ends;
  these are their UTF-8 encodings. A well-formed string starts and ends on character
  boundaries, so stripping encodings from the ends is stripping characters.
\<close>

definition white_space :: "string list" where
  "white_space = map (map char_of)
     ([[9], [10], [11], [12], [13], [32], [194, 133], [194, 160], [225, 154, 128],
       [226, 128, 128], [226, 128, 129], [226, 128, 130], [226, 128, 131], [226, 128, 132],
       [226, 128, 133], [226, 128, 134], [226, 128, 135], [226, 128, 136], [226, 128, 137],
       [226, 128, 138], [226, 128, 168], [226, 128, 169], [226, 128, 175], [226, 129, 159],
       [227, 128, 128]] :: nat list list)"

definition strip_one :: "string list \<Rightarrow> string \<Rightarrow> string option" where
  "strip_one ws s = map_option (\<lambda>w. drop (length w) s) (find (\<lambda>w. w \<noteq> [] \<and> take (length w) s = w) ws)"

lemma strip_one_shorter: "strip_one ws s = Some t \<Longrightarrow> length t < length s"
  by (auto simp: strip_one_def find_Some_iff) (metis length_greater_0_conv take_eq_Nil diff_less)

function strip_start :: "string list \<Rightarrow> string \<Rightarrow> string" where
  "strip_start ws s = (case strip_one ws s of None \<Rightarrow> s | Some t \<Rightarrow> strip_start ws t)"
  by pat_completeness auto
termination
  by (relation "measure (\<lambda>(ws, s). length s)") (auto dest: strip_one_shorter)

declare strip_start.simps [simp del]

definition trim :: "string \<Rightarrow> string" where
  "trim s = rev (strip_start (map rev white_space) (rev (strip_start white_space s)))"

section \<open>UTF-8\<close>

text \<open>
  The decoder behind \<open>str::from_utf8\<close> and \<open>String::from_utf8_lossy\<close>: \<open>utf8_step bs\<close> is
  \<open>(True, n)\<close> when the first \<open>n\<close> bytes are a well-formed character, and \<open>(False, n)\<close> when the
  first \<open>n\<close> bytes are the longest ill-formed prefix, which is replaced as a whole.
\<close>

definition cont_byte :: "nat \<Rightarrow> bool" where
  "cont_byte b = (128 \<le> b \<and> b < 192)"

definition second_of_three :: "nat \<Rightarrow> nat \<Rightarrow> bool" where
  "second_of_three a b =
     ((a = 224 \<and> 160 \<le> b \<and> b < 192) \<or> (225 \<le> a \<and> a \<le> 236 \<and> cont_byte b) \<or>
      (a = 237 \<and> 128 \<le> b \<and> b < 160) \<or> (238 \<le> a \<and> a \<le> 239 \<and> cont_byte b))"

definition second_of_four :: "nat \<Rightarrow> nat \<Rightarrow> bool" where
  "second_of_four a b =
     ((a = 240 \<and> 144 \<le> b \<and> b < 192) \<or> (241 \<le> a \<and> a \<le> 243 \<and> cont_byte b) \<or>
      (a = 244 \<and> 128 \<le> b \<and> b < 144))"

definition byte_at :: "string \<Rightarrow> nat \<Rightarrow> nat" where
  "byte_at bs i = (if i < length bs then of_char (bs ! i) else 0)"

definition utf8_step :: "string \<Rightarrow> bool \<times> nat" where
  "utf8_step bs =
     (let a = byte_at bs 0; b = byte_at bs 1; c = byte_at bs 2; d = byte_at bs 3 in
      if a < 128 then (True, 1)
      else if 194 \<le> a \<and> a \<le> 223 then (if cont_byte b then (True, 2) else (False, 1))
      else if 224 \<le> a \<and> a \<le> 239 then
        (if \<not> second_of_three a b then (False, 1)
         else if \<not> cont_byte c then (False, 2) else (True, 3))
      else if 240 \<le> a \<and> a \<le> 244 then
        (if \<not> second_of_four a b then (False, 1)
         else if \<not> cont_byte c then (False, 2)
         else if \<not> cont_byte d then (False, 3) else (True, 4))
      else (False, 1))"

lemma utf8_step_pos: "0 < snd (utf8_step bs)"
  by (simp add: utf8_step_def Let_def)

function valid_utf8 :: "string \<Rightarrow> bool" where
  "valid_utf8 bs =
     (if bs = [] then True
      else fst (utf8_step bs) \<and> valid_utf8 (drop (snd (utf8_step bs)) bs))"
  by pat_completeness auto
termination
  by (relation "measure length") (auto simp: utf8_step_pos)

function from_utf8_lossy :: "string \<Rightarrow> string" where
  "from_utf8_lossy bs =
     (if bs = [] then []
      else (if fst (utf8_step bs) then take (snd (utf8_step bs)) bs
            else map char_of [239 :: nat, 191, 189])
           @ from_utf8_lossy (drop (snd (utf8_step bs)) bs))"
  by pat_completeness auto
termination
  by (relation "measure length") (auto simp: utf8_step_pos)

declare valid_utf8.simps [simp del] from_utf8_lossy.simps [simp del]

text \<open>\<open>std::str::from_utf8\<close>: the bytes themselves when well formed.\<close>

definition from_utf8 :: "string \<Rightarrow> unit + string" where
  "from_utf8 bs = (if valid_utf8 bs then Inr bs else Inl ())"

lemma from_utf8_lossy_valid: "valid_utf8 bs \<Longrightarrow> from_utf8_lossy bs = bs"
proof (induction bs rule: valid_utf8.induct)
  case (1 bs)
  then show ?case
    by (cases "bs = []")
      (simp_all add: valid_utf8.simps [of bs] from_utf8_lossy.simps [of bs] from_utf8_lossy.simps [of "[]"])
qed

section \<open>Numbers printed and read\<close>

lemma parse_signed_show: "n < 2 ^ (w - 1) \<Longrightarrow> parse_signed w (show_nat n) = Inr (int n)"
proof -
  assume n: "n < 2 ^ (w - 1)"
  obtain d cs where s: "show_nat n = digit_char d # cs" "d < 10"
    using show_nat_Cons [of n] by blast
  have "parse_digits PosOverflow (2 ^ (w - 1) - 1) 0 (show_nat n) = Inr n"
    using n by (intro parse_digits_show) simp
  then show ?thesis
    using s digit_char_not_sign [OF s(2)] by (simp add: parse_signed_def)
qed

lemma show_nat_snoc: "\<exists>d cs. show_nat n = cs @ [digit_char d] \<and> d < 10"
  by (cases "n < 10") (auto simp: show_nat.simps [of n] intro: exI [of _ n] exI [of _ "n mod 10"])

lemma show_nat_digits: "c \<in> set (show_nat n) \<Longrightarrow> \<exists>d < 10. c = digit_char d"
proof (induction n rule: show_nat.induct)
  case (1 n)
  then show ?case by (cases "n < 10") (auto simp: show_nat.simps [of n] intro: exI [of _ "n mod 10"])
qed

lemma ascii_valid_utf8: "(\<And>c. c \<in> set bs \<Longrightarrow> of_char c < (128 :: nat)) \<Longrightarrow> valid_utf8 bs"
proof (induction bs)
  case (Cons c bs)
  then have "utf8_step (c # bs) = (True, 1)" by (simp add: utf8_step_def byte_at_def)
  with Cons show ?case by (simp add: valid_utf8.simps [of "c # bs"])
qed (simp add: valid_utf8.simps)

lemma strip_start_stop:
  assumes "\<And>w. w \<in> set ws \<Longrightarrow> w \<noteq> [] \<Longrightarrow> hd w \<noteq> c"
  shows "strip_start ws (c # cs) = c # cs"
proof -
  have "take (length w) (c # cs) \<noteq> w" if "w \<in> set ws" "w \<noteq> []" for w
    using assms [OF that] that(2) by (cases w) auto
  then have "strip_one ws (c # cs) = None" by (auto simp: strip_one_def find_None_iff)
  then show ?thesis by (subst strip_start.simps) simp
qed

lemma white_space_first: "white_space = [CHR 0x09] # [CHR 0x0A] # drop 2 white_space"
  by (simp add: white_space_def char_of_def bit_0)

lemma strip_newline: "strip_start (map rev white_space) (CHR 0x0A # s) = strip_start (map rev white_space) s"
proof -
  have "strip_one (map rev white_space) (CHR 0x0A # s) = Some s"
    by (subst white_space_first) (simp add: strip_one_def)
  then show ?thesis by (subst strip_start.simps) simp
qed

lemma white_space_digits:
  assumes "d < 10" "w \<in> set white_space"
  shows "hd w \<noteq> digit_char d" "last w \<noteq> digit_char d"
proof -
  have "of_char (digit_char d) \<in> {48..57 :: nat}" using of_digit_char [OF assms(1)] assms(1) by simp
  moreover have "of_char (hd w) \<notin> {48..57 :: nat} \<and> of_char (last w) \<notin> {48..57 :: nat}"
    using assms(2) by (auto simp: white_space_def take_bit_nat_def)
  ultimately show "hd w \<noteq> digit_char d" "last w \<noteq> digit_char d" by metis+
qed

text \<open>A number printed on a line of its own is read back by \<open>trim\<close> and \<open>parse\<close>.\<close>

lemma trim_line: "trim (show_nat n @ [CHR 0x0A]) = show_nat n"
proof -
  obtain d cs where a: "show_nat n = digit_char d # cs" "d < 10" using show_nat_Cons by blast
  obtain e ds where b: "show_nat n = ds @ [digit_char e]" "e < 10" using show_nat_snoc by blast
  have "strip_start white_space (show_nat n @ [CHR 0x0A]) = show_nat n @ [CHR 0x0A]"
    unfolding a(1) append_Cons
    by (rule strip_start_stop) (rule white_space_digits [OF a(2)])
  moreover have "strip_start (map rev white_space) (rev (show_nat n)) = rev (show_nat n)"
    unfolding b(1) rev_append rev.simps append.simps
    by (rule strip_start_stop) (use white_space_digits [OF b(2)] in \<open>auto simp: hd_rev\<close>)
  ultimately show ?thesis by (simp add: trim_def strip_newline)
qed

lemma line_valid_utf8: "valid_utf8 (show_nat n @ [CHR 0x0A])"
  by (rule ascii_valid_utf8) (auto dest!: show_nat_digits simp: of_digit_char)

end
