(* ===== verification/Rust_Float.thy ===== *)
theory Rust_Float
  imports Rust_Std
begin

text \<open>
  IEEE 754 floats as their bit patterns, with the comparisons the services use and the
  narrowing cast \<open>as f32\<close>, and the exact threshold at which a narrowed double reads as 1.0.
\<close>

section \<open>IEEE 754 floats\<close>

text \<open>
  A float is its bit pattern. \<open>key\<close> orders the values that are not NaN, with both zeros at 0:
  the bit patterns of one sign are ordered as integers.
\<close>

datatype f32 = F32 "32 word"
datatype f64 = F64 "64 word"

fun f32_mag :: "f32 \<Rightarrow> nat" where "f32_mag (F32 b) = unat b mod 2 ^ 31"
fun f32_neg :: "f32 \<Rightarrow> bool" where "f32_neg (F32 b) = (2 ^ 31 \<le> unat b)"
fun f64_mag :: "f64 \<Rightarrow> nat" where "f64_mag (F64 b) = unat b mod 2 ^ 63"
fun f64_neg :: "f64 \<Rightarrow> bool" where "f64_neg (F64 b) = (2 ^ 63 \<le> unat b)"

definition f32_is_nan :: "f32 \<Rightarrow> bool" where "f32_is_nan x = (f32_mag x > 2139095040)"
definition f64_is_nan :: "f64 \<Rightarrow> bool" where "f64_is_nan x = (f64_mag x > 9218868437227405312)"

definition f32_key :: "f32 \<Rightarrow> int" where
  "f32_key x = (if f32_neg x then - int (f32_mag x) else int (f32_mag x))"
definition f64_key :: "f64 \<Rightarrow> int" where
  "f64_key x = (if f64_neg x then - int (f64_mag x) else int (f64_mag x))"

definition f32_ge :: "f32 \<Rightarrow> f32 \<Rightarrow> bool" where
  "f32_ge x y = (\<not> f32_is_nan x \<and> \<not> f32_is_nan y \<and> f32_key y \<le> f32_key x)"
definition f64_ge :: "f64 \<Rightarrow> f64 \<Rightarrow> bool" where
  "f64_ge x y = (\<not> f64_is_nan x \<and> \<not> f64_is_nan y \<and> f64_key y \<le> f64_key x)"
definition f64_eq :: "f64 \<Rightarrow> f64 \<Rightarrow> bool" where
  "f64_eq x y = (\<not> f64_is_nan x \<and> \<not> f64_is_nan y \<and> f64_key x = f64_key y)"

definition f32_zero :: f32 where "f32_zero = F32 0"
definition f32_one :: f32 where "f32_one = F32 1065353216"
definition f64_zero :: f64 where "f64_zero = F64 0"
definition f64_one :: f64 where "f64_one = F64 4607182418800017408"

text \<open>
  The cast \<open>d as f32\<close>: to the nearest float, ties to the even one; too large becomes infinity.
  \<open>round_half_even m s\<close> is \<open>m / 2 ^ s\<close> rounded; a carry out of the mantissa moves into the
  exponent, as it should. A NaN stays a NaN (Rust leaves its payload open; the quiet one here).
\<close>

definition round_half_even :: "nat \<Rightarrow> nat \<Rightarrow> nat" where
  "round_half_even m s =
     (let q = m div 2 ^ s; r = m mod 2 ^ s; h = 2 ^ (s - 1)
      in if h < r \<or> (r = h \<and> odd q) then q + 1 else q)"

definition narrow_parts :: "nat \<Rightarrow> nat \<Rightarrow> nat" where
  "narrow_parts e f =
     (if e = 2047 then (if f = 0 then 2139095040 else 2143289344)
      else if 1151 \<le> e then 2139095040
      else if 897 \<le> e then (e - 897) * 2 ^ 23 + round_half_even (2 ^ 52 + f) 29
      else round_half_even (if e = 0 then f else 2 ^ 52 + f) (926 - max e 1))"

definition narrow_mag :: "nat \<Rightarrow> nat" where
  "narrow_mag m = narrow_parts (m div 2 ^ 52) (m mod 2 ^ 52)"

definition f64_to_f32 :: "f64 \<Rightarrow> f32" where
  "f64_to_f32 x = F32 (of_nat (narrow_mag (f64_mag x) + (if f64_neg x then 2 ^ 31 else 0)))"

section \<open>What the cast does to a comparison with 1.0\<close>

lemma round_half_even_bounds:
  "m div 2 ^ s \<le> round_half_even m s" "round_half_even m s \<le> m div 2 ^ s + 1"
  by (simp_all add: round_half_even_def Let_def)

lemma round_29_bounds:
  assumes "f < 2 ^ 52"
  shows "2 ^ 23 \<le> round_half_even (2 ^ 52 + f) 29" "round_half_even (2 ^ 52 + f) 29 \<le> 2 ^ 24"
proof -
  have "2 ^ 23 \<le> (2 ^ 52 + f) div 2 ^ 29" "(2 ^ 52 + f) div 2 ^ 29 < 2 ^ 24"
    using assms by (simp_all add: less_mult_imp_div_less less_eq_div_iff_mult_less_eq)
  then show "2 ^ 23 \<le> round_half_even (2 ^ 52 + f) 29" "round_half_even (2 ^ 52 + f) 29 \<le> 2 ^ 24"
    using round_half_even_bounds [of "2 ^ 52 + f" 29] by linarith+
qed

lemma narrow_parts_low:
  assumes "e \<le> 1021" and f: "f < 2 ^ 52"
  shows "narrow_parts e f < 1065353216"
proof (cases "897 \<le> e")
  case True
  then show ?thesis
    using assms(1) round_29_bounds [OF f] by (simp add: narrow_parts_def)
next
  case False
  let ?a = "if e = 0 then f else 2 ^ 52 + f" and ?s = "926 - max e 1"
  have "(2::nat) ^ 30 \<le> 2 ^ ?s" using False by (intro power_increasing) auto
  then have "?a div 2 ^ ?s \<le> ?a div 2 ^ 30" by (rule div_le_mono2 [rotated]) simp
  moreover have "?a div 2 ^ 30 < 2 ^ 23" using f by (auto intro: less_mult_imp_div_less)
  ultimately have "round_half_even ?a ?s \<le> 2 ^ 23"
    using round_half_even_bounds(2) [of ?a ?s] by linarith
  then show ?thesis
    using False assms(1) by (simp add: narrow_parts_def)
qed

lemma narrow_parts_high:
  assumes "1023 \<le> e" and "e < 2047" and f: "f < 2 ^ 52"
  shows "1065353216 \<le> narrow_parts e f" "narrow_parts e f \<le> 2139095040"
proof -
  have "126 * 2 ^ 23 \<le> (e - 897) * 2 ^ 23 \<and> (e - 897) * 2 ^ 23 \<le> (253 * 2 ^ 23 :: nat)" if "e < 1151"
    using assms(1) that by auto
  then show "1065353216 \<le> narrow_parts e f" "narrow_parts e f \<le> 2139095040"
    using assms round_29_bounds [OF f] by (auto simp: narrow_parts_def)
qed

text \<open>In the binade just below 1.0 the cast reaches 1.0 from the midpoint \<open>1 - 2 ^ -25\<close> on.\<close>

lemma narrow_parts_below_one:
  assumes f: "f < 2 ^ 52"
  shows "1065353216 \<le> narrow_parts 1022 f \<longleftrightarrow> 2 ^ 52 - 2 ^ 28 \<le> f"
proof -
  define q r where "q = (2 ^ 52 + f) div 2 ^ 29" and "r = (2 ^ 52 + f) mod 2 ^ 29"
  have qr: "2 ^ 52 + f = q * 2 ^ 29 + r" "r < 2 ^ 29"
    unfolding q_def r_def by (simp_all only: div_mult_mod_eq) simp
  have rhe: "round_half_even (2 ^ 52 + f) 29 = (if 2 ^ 28 < r \<or> (r = 2 ^ 28 \<and> odd q) then q + 1 else q)"
    unfolding round_half_even_def Let_def q_def r_def by simp
  have "2 ^ 24 \<le> round_half_even (2 ^ 52 + f) 29 \<longleftrightarrow> 2 ^ 52 - 2 ^ 28 \<le> f"
  proof (cases "q = 2 ^ 24 - 1")
    case True
    moreover have "odd ((2::nat) ^ 24 - 1)" by simp
    ultimately show ?thesis unfolding rhe using qr by auto
  next
    case False
    then show ?thesis unfolding rhe using qr f by auto
  qed
  then show ?thesis by (simp add: narrow_parts_def)
qed

lemma narrow_parts_nan: "narrow_parts 2047 f \<le> 2139095040 \<longleftrightarrow> f = 0"
  by (simp add: narrow_parts_def)

lemma narrow_mag_ge_one:
  assumes "m < 2 ^ 63"
  shows "1065353216 \<le> narrow_mag m \<and> narrow_mag m \<le> 2139095040 \<longleftrightarrow>
         4607182418531581952 \<le> m \<and> m \<le> 9218868437227405312"
proof -
  define e f where "e = m div 2 ^ 52" and "f = m mod 2 ^ 52"
  have f: "f < 2 ^ 52" by (simp add: f_def)
  have m: "m = e * 2 ^ 52 + f" unfolding e_def f_def by (simp only: div_mult_mod_eq)
  have e: "e \<le> 2047" using assms m by simp
  have n: "narrow_mag m = narrow_parts e f" by (simp only: narrow_mag_def e_def f_def)
  consider "e \<le> 1021" | "e = 1022" | "1023 \<le> e \<and> e < 2047" | "e = 2047" using e by linarith
  then show ?thesis
  proof cases
    case 1
    then have "m < 1022 * 2 ^ 52" using m f by simp
    with 1 show ?thesis using narrow_parts_low [OF 1 f] by (simp add: n)
  next
    case 2
    have "narrow_parts 1022 f \<le> 2139095040"
      using round_29_bounds [OF f] by (simp add: narrow_parts_def)
    with 2 show ?thesis unfolding n using narrow_parts_below_one [OF f] m f by simp
  next
    case 3
    then have "m < 2047 * 2 ^ 52" "1023 * 2 ^ 52 \<le> m" using m f by simp_all
    with 3 show ?thesis using narrow_parts_high [OF _ _ f, of e] by (simp add: n)
  next
    case 4
    then have "m = 9218868437227405312 + f" using m by simp
    with 4 show ?thesis unfolding n by (auto simp: narrow_parts_def)
  qed
qed

lemma narrow_parts_bound: "f < 2 ^ 52 \<Longrightarrow> narrow_parts e f < 2 ^ 31"
proof (cases "897 \<le> e \<and> e < 1151 \<or> 1151 \<le> e")
  case True
  then have "(e - 897) * 2 ^ 23 \<le> (253 * 2 ^ 23 :: nat)" if "e < 1151"
    using that by (intro mult_right_mono) auto
  moreover assume "f < 2 ^ 52"
  ultimately show ?thesis
    using True round_29_bounds [of f] by (auto simp: narrow_parts_def)
next
  case False
  then have "e \<le> 1021" by linarith
  moreover assume "f < 2 ^ 52"
  ultimately show ?thesis using narrow_parts_low [of e f] by simp
qed

lemma f64_to_f32_mag [simp]: "f32_mag (f64_to_f32 x) = narrow_mag (f64_mag x)"
  and f64_to_f32_neg [simp]: "f32_neg (f64_to_f32 x) = f64_neg x"
proof -
  have b: "narrow_mag (f64_mag x) < 2 ^ 31"
    unfolding narrow_mag_def by (rule narrow_parts_bound) simp
  then have u: "unat (of_nat (narrow_mag (f64_mag x) + (if f64_neg x then 2 ^ 31 else 0)) :: 32 word)
      = narrow_mag (f64_mag x) + (if f64_neg x then 2 ^ 31 else 0)"
    by (subst unat_of_nat, subst mod_less) auto
  show "f32_mag (f64_to_f32 x) = narrow_mag (f64_mag x)" "f32_neg (f64_to_f32 x) = f64_neg x"
    using u b by (auto simp: f64_to_f32_def)
qed

theorem narrow_ge_one_iff:
  "f32_ge (f64_to_f32 x) f32_one \<longleftrightarrow> f64_ge x (F64 4607182418531581952)"
proof -
  have b: "f64_mag x < 2 ^ 63" by (cases x) simp
  have "f32_ge (f64_to_f32 x) f32_one \<longleftrightarrow>
      \<not> f64_neg x \<and> 1065353216 \<le> narrow_mag (f64_mag x) \<and> narrow_mag (f64_mag x) \<le> 2139095040"
    by (auto simp: f32_ge_def f32_one_def f32_is_nan_def f32_key_def)
  also have "\<dots> \<longleftrightarrow> \<not> f64_neg x \<and> 4607182418531581952 \<le> f64_mag x \<and> f64_mag x \<le> 9218868437227405312"
    using narrow_mag_ge_one [OF b] by blast
  also have "\<dots> \<longleftrightarrow> f64_ge x (F64 4607182418531581952)"
    by (auto simp: f64_ge_def f64_is_nan_def f64_key_def)
  finally show ?thesis .
qed

lemma zero_below_one [simp]: "\<not> f32_ge f32_zero f32_one"
  by (simp add: f32_ge_def f32_zero_def f32_one_def f32_key_def)

end
