(* ===== verification/World.thy ===== *)
theory World
  imports Rust_Float
begin

text \<open>
  The outside of the services: DATA_BROKER (the \<open>kuksa.val.v2\<close> gRPC service), the NATS server,
  the operator's REST endpoint, the podman CLI, the clock and the process environment. None of
  it is code of the repository. A \<open>world\<close> gives its answers, each of which may depend on
  everything that was asked before; the state of a program run is the trace of the
  interactions so far, with their answers. Every sequence of answers is the behaviour of some
  world, so what is proved for all worlds holds whatever the outside does.
\<close>

section \<open>JSON values and serde errors\<close>

text \<open>\<open>serde_json::Value\<close> and the classification that \<open>serde_json::Error\<close> documents.\<close>

datatype json =
    JNull | JBool bool | JInt int | JFloat f64 | JStr string
  | JArr "json list" | JObj "(string \<times> json) list"

datatype serde_category = CatIo | CatSyntax | CatData | CatEof

record serde_error =
  se_category :: serde_category
  se_text :: string

definition is_syntax :: "serde_error \<Rightarrow> bool" where "is_syntax e = (se_category e = CatSyntax)"
definition is_eof :: "serde_error \<Rightarrow> bool" where "is_eof e = (se_category e = CatEof)"

fun as_object :: "json \<Rightarrow> (string \<times> json) list option" where
  "as_object (JObj fs) = Some fs"
| "as_object _ = None"

fun as_str :: "json \<Rightarrow> string option" where
  "as_str (JStr s) = Some s"
| "as_str _ = None"

fun is_array :: "json \<Rightarrow> bool" where
  "is_array (JArr _) = True"
| "is_array _ = False"

text \<open>\<open>Value::get\<close> with a string key: \<open>None\<close> unless the value is an object.\<close>

fun json_get :: "json \<Rightarrow> string \<Rightarrow> json option" where
  "json_get (JObj fs) k = map_of fs k"
| "json_get _ k = None"

section \<open>Messages of kuksa.val.v2\<close>

datatype tvalue =
    TString string | TBool bool | TInt32 "32 word" | TInt64 "64 word"
  | TUint32 "32 word" | TUint64 "64 word" | TFloat f32 | TDouble f64
  | TStringArray "string list" | TBoolArray "bool list" | TInt32Array "32 word list"
  | TInt64Array "64 word list" | TUint32Array "32 word list" | TUint64Array "64 word list"
  | TFloatArray "f32 list" | TDoubleArray "f64 list"

record datapoint =
  dp_timestamp :: "(int \<times> int) option"
  dp_value :: "tvalue option option"

datatype signal = SigId "32 word" | SigPath string

record get_value_request =
  gv_signal_id :: "signal option option"

record publish_value_request =
  pv_signal_id :: "signal option option"
  pv_data_point :: "datapoint option"

record subscribe_request =
  sub_paths :: "string list"
  sub_buffer_size :: "32 word"

text \<open>A message of a subscription stream: \<open>map<string, Datapoint>\<close>, in iteration order.\<close>

type_synonym entries = "(string \<times> datapoint) list"

definition path_id :: "string \<Rightarrow> signal option option" where
  "path_id p = Some (Some (SigPath p))"

definition plain_datapoint :: "tvalue \<Rightarrow> datapoint" where
  "plain_datapoint v = \<lparr>dp_timestamp = None, dp_value = Some (Some v)\<rparr>"

definition publish_request :: "string \<Rightarrow> tvalue \<Rightarrow> publish_value_request" where
  "publish_request p v = \<lparr>pv_signal_id = path_id p, pv_data_point = Some (plain_datapoint v)\<rparr>"

section \<open>Status of an RPC\<close>

text \<open>\<open>tonic::Status\<close>: a code with a message; the codes that the services use.\<close>

datatype grpc_code =
  GInvalidArgument | GNotFound | GAlreadyExists | GFailedPrecondition | GInternal | GUnavailable

datatype status = Status grpc_code string

section \<open>The trace and the world\<close>

text \<open>\<open>hr_body\<close> is \<open>Inl\<close> when reading the body fails.\<close>

record http_response =
  hr_success :: bool
  hr_status_text :: string
  hr_body :: "string + string"

record exec_output =
  eo_success :: bool
  eo_stdout :: string
  eo_stderr :: string

datatype event =
    EvConnect string "string + unit"
  | EvGetValue get_value_request "string + datapoint option"
  | EvPublishValue publish_value_request "string + unit"
  | EvSubscribe subscribe_request "string + unit"
  | EvNatsConnect string "string + unit"
  | EvNatsPublish string string "string + unit"
  | EvNatsSubscribe string "string + unit"
  | EvPost string json "string + http_response"
  | EvExec "string list" "string + exec_output"
  | EvUuid string
  | EvSleep nat

type_synonym trace = "event list"

datatype read_result = FileContents string | FileNotFound | FileError string

record world =
  w_connect :: "trace \<Rightarrow> string \<Rightarrow> string + unit"
  w_get_value :: "trace \<Rightarrow> get_value_request \<Rightarrow> string + datapoint option"
  w_publish_value :: "trace \<Rightarrow> publish_value_request \<Rightarrow> string + unit"
  w_subscribe :: "trace \<Rightarrow> subscribe_request \<Rightarrow> string + unit"
  w_nats_connect :: "trace \<Rightarrow> string \<Rightarrow> string + unit"
  w_nats_publish :: "trace \<Rightarrow> string \<Rightarrow> string \<Rightarrow> string + unit"
  w_nats_subscribe :: "trace \<Rightarrow> string \<Rightarrow> string + unit"
  w_post :: "trace \<Rightarrow> string \<Rightarrow> json \<Rightarrow> string + http_response"
  w_exec :: "trace \<Rightarrow> string list \<Rightarrow> string + exec_output"
  w_uuid :: "trace \<Rightarrow> string"
  w_clock :: "trace \<Rightarrow> 64 word option"
  w_env :: "string \<Rightarrow> string option"
  w_read_file :: "string \<Rightarrow> read_result"

text \<open>
  \<open>w_clock\<close> is \<open>SystemTime::now().duration_since(UNIX_EPOCH)\<close> in whole seconds, \<open>None\<close> for a
  clock set before 1970. \<open>w_env\<close> is \<open>std::env::var(..).ok()\<close>. Sleeping only leaves a mark, in
  milliseconds.
\<close>

definition ask_connect :: "world \<Rightarrow> string \<Rightarrow> trace \<Rightarrow> (string + unit) \<times> trace" where
  "ask_connect W a t = (let r = w_connect W t a in (r, t @ [EvConnect a r]))"

definition ask_get_value :: "world \<Rightarrow> get_value_request \<Rightarrow> trace \<Rightarrow> (string + datapoint option) \<times> trace" where
  "ask_get_value W q t = (let r = w_get_value W t q in (r, t @ [EvGetValue q r]))"

definition ask_publish_value :: "world \<Rightarrow> publish_value_request \<Rightarrow> trace \<Rightarrow> (string + unit) \<times> trace" where
  "ask_publish_value W q t = (let r = w_publish_value W t q in (r, t @ [EvPublishValue q r]))"

definition ask_subscribe :: "world \<Rightarrow> subscribe_request \<Rightarrow> trace \<Rightarrow> (string + unit) \<times> trace" where
  "ask_subscribe W q t = (let r = w_subscribe W t q in (r, t @ [EvSubscribe q r]))"

definition ask_nats_connect :: "world \<Rightarrow> string \<Rightarrow> trace \<Rightarrow> (string + unit) \<times> trace" where
  "ask_nats_connect W u t = (let r = w_nats_connect W t u in (r, t @ [EvNatsConnect u r]))"

definition ask_nats_publish :: "world \<Rightarrow> string \<Rightarrow> string \<Rightarrow> trace \<Rightarrow> (string + unit) \<times> trace" where
  "ask_nats_publish W s p t = (let r = w_nats_publish W t s p in (r, t @ [EvNatsPublish s p r]))"

definition ask_nats_subscribe :: "world \<Rightarrow> string \<Rightarrow> trace \<Rightarrow> (string + unit) \<times> trace" where
  "ask_nats_subscribe W s t = (let r = w_nats_subscribe W t s in (r, t @ [EvNatsSubscribe s r]))"

definition ask_post :: "world \<Rightarrow> string \<Rightarrow> json \<Rightarrow> trace \<Rightarrow> (string + http_response) \<times> trace" where
  "ask_post W u b t = (let r = w_post W t u b in (r, t @ [EvPost u b r]))"

definition ask_exec :: "world \<Rightarrow> string list \<Rightarrow> trace \<Rightarrow> (string + exec_output) \<times> trace" where
  "ask_exec W as t = (let r = w_exec W t as in (r, t @ [EvExec as r]))"

definition ask_uuid :: "world \<Rightarrow> trace \<Rightarrow> string \<times> trace" where
  "ask_uuid W t = (let u = w_uuid W t in (u, t @ [EvUuid u]))"

definition sleep_ms :: "nat \<Rightarrow> trace \<Rightarrow> trace" where
  "sleep_ms ms t = t @ [EvSleep ms]"

lemmas ask_defs [io_simps] =
  ask_connect_def ask_get_value_def ask_publish_value_def ask_subscribe_def ask_nats_connect_def
  ask_nats_publish_def ask_nats_subscribe_def ask_post_def ask_exec_def ask_uuid_def sleep_ms_def

section \<open>Views of a trace\<close>

text \<open>The bool and string values that DATA_BROKER accepted, with their signals, in order.\<close>

definition accepted_value :: "event \<Rightarrow> (string \<times> tvalue) list" where
  "accepted_value ev =
     (case ev of
        EvPublishValue q (Inr _) \<Rightarrow>
          (case pv_signal_id q of
             Some (Some (SigPath p)) \<Rightarrow>
               (case pv_data_point q of
                  Some d \<Rightarrow> (case dp_value d of Some (Some v) \<Rightarrow> [(p, v)] | _ \<Rightarrow> [])
                | None \<Rightarrow> [])
           | _ \<Rightarrow> [])
      | _ \<Rightarrow> [])"

definition accepted_values :: "trace \<Rightarrow> (string \<times> tvalue) list" where
  "accepted_values t = concat (map accepted_value t)"

fun bool_entry :: "string \<times> tvalue \<Rightarrow> (string \<times> bool) list" where
  "bool_entry (p, TBool b) = [(p, b)]"
| "bool_entry _ = []"

fun string_entry :: "string \<times> tvalue \<Rightarrow> (string \<times> string) list" where
  "string_entry (p, TString s) = [(p, s)]"
| "string_entry _ = []"

definition accepted_bools :: "trace \<Rightarrow> (string \<times> bool) list" where
  "accepted_bools t = concat (map bool_entry (accepted_values t))"

definition accepted_strings :: "trace \<Rightarrow> (string \<times> string) list" where
  "accepted_strings t = concat (map string_entry (accepted_values t))"

lemma accepted_append [simp]:
  "accepted_values (t @ u) = accepted_values t @ accepted_values u"
  "accepted_bools (t @ u) = accepted_bools t @ accepted_bools u"
  "accepted_strings (t @ u) = accepted_strings t @ accepted_strings u"
  by (simp_all add: accepted_values_def accepted_bools_def accepted_strings_def)

lemma accepted_values_Cons [simp]:
  "accepted_values [] = []"
  "accepted_values (EvPublishValue (publish_request p v) r # t) =
     (if is_ok r then [(p, v)] else []) @ accepted_values t"
  "accepted_values (EvGetValue g rg # t) = accepted_values t"
  "accepted_values (EvSubscribe s rs # t) = accepted_values t"
  "accepted_values (EvConnect a rc # t) = accepted_values t"
  "accepted_values (EvSleep ms # t) = accepted_values t"
  "accepted_values (EvPost u b rp # t) = accepted_values t"
  "accepted_values (EvNatsConnect a rc # t) = accepted_values t"
  "accepted_values (EvNatsPublish sj x rc # t) = accepted_values t"
  "accepted_values (EvNatsSubscribe sj rc # t) = accepted_values t"
  by (cases r; simp add: accepted_values_def accepted_value_def publish_request_def path_id_def
      plain_datapoint_def)+

lemma accepted_bools_Cons [simp]:
  "accepted_bools [] = []"
  "accepted_bools (EvPublishValue (publish_request p v) r # t) =
     (if is_ok r then bool_entry (p, v) else []) @ accepted_bools t"
  "accepted_bools (EvGetValue g rg # t) = accepted_bools t"
  "accepted_bools (EvSubscribe s rs # t) = accepted_bools t"
  "accepted_bools (EvConnect a rc # t) = accepted_bools t"
  "accepted_bools (EvSleep ms # t) = accepted_bools t"
  "accepted_bools (EvPost u b rp # t) = accepted_bools t"
  by (simp_all add: accepted_bools_def)

lemma accepted_strings_Cons [simp]:
  "accepted_strings [] = []"
  "accepted_strings (EvPublishValue (publish_request p v) r # t) =
     (if is_ok r then string_entry (p, v) else []) @ accepted_strings t"
  "accepted_strings (EvGetValue g rg # t) = accepted_strings t"
  "accepted_strings (EvSubscribe s rs # t) = accepted_strings t"
  "accepted_strings (EvConnect a rc # t) = accepted_strings t"
  "accepted_strings (EvSleep ms # t) = accepted_strings t"
  "accepted_strings (EvPost u b rp # t) = accepted_strings t"
  by (simp_all add: accepted_strings_def)

text \<open>The string values a service tried to publish, whatever DATA_BROKER answered.\<close>

definition attempted_string :: "event \<Rightarrow> (string \<times> string) list" where
  "attempted_string ev =
     (case ev of EvPublishValue q _ \<Rightarrow> concat (map string_entry (accepted_value (EvPublishValue q (Inr ()))))
      | _ \<Rightarrow> [])"

definition attempted_strings :: "trace \<Rightarrow> (string \<times> string) list" where
  "attempted_strings t = concat (map attempted_string t)"

lemma attempted_strings_append [simp]:
  "attempted_strings (t @ u) = attempted_strings t @ attempted_strings u"
  by (simp add: attempted_strings_def)

lemma attempted_strings_Cons [simp]:
  "attempted_strings [] = []"
  "attempted_strings (EvPublishValue (publish_request p v) r # t) =
     string_entry (p, v) @ attempted_strings t"
  "attempted_strings (EvGetValue g rg # t) = attempted_strings t"
  "attempted_strings (EvSubscribe s rs # t) = attempted_strings t"
  "attempted_strings (EvConnect a rc # t) = attempted_strings t"
  "attempted_strings (EvNatsConnect a rc # t) = attempted_strings t"
  "attempted_strings (EvNatsPublish sj x rc # t) = attempted_strings t"
  "attempted_strings (EvNatsSubscribe sj rc # t) = attempted_strings t"
  "attempted_strings (EvSleep ms # t) = attempted_strings t"
  by (simp_all add: attempted_strings_def attempted_string_def accepted_value_def
      publish_request_def path_id_def plain_datapoint_def)

text \<open>The messages a service tried to publish on NATS, with their subjects.\<close>

definition nats_outbox :: "trace \<Rightarrow> (string \<times> string) list" where
  "nats_outbox t = concat (map (\<lambda>e. case e of EvNatsPublish s p _ \<Rightarrow> [(s, p)] | _ \<Rightarrow> []) t)"

lemma nats_outbox_simps [simp]:
  "nats_outbox [] = []"
  "nats_outbox (t @ u) = nats_outbox t @ nats_outbox u"
  "nats_outbox (EvNatsPublish s p r # t) = (s, p) # nats_outbox t"
  "nats_outbox (EvPublishValue q r # t) = nats_outbox t"
  by (simp_all add: nats_outbox_def)

text \<open>Connection attempts and the back-offs slept, for the bounded retry loops.\<close>

definition connect_attempts :: "trace \<Rightarrow> nat" where
  "connect_attempts t = length (filter (\<lambda>e. case e of EvConnect _ _ \<Rightarrow> True | _ \<Rightarrow> False) t)"

definition nats_attempts :: "trace \<Rightarrow> nat" where
  "nats_attempts t = length (filter (\<lambda>e. case e of EvNatsConnect _ _ \<Rightarrow> True | _ \<Rightarrow> False) t)"

definition post_attempts :: "trace \<Rightarrow> nat" where
  "post_attempts t = length (filter (\<lambda>e. case e of EvPost _ _ _ \<Rightarrow> True | _ \<Rightarrow> False) t)"

definition sleeps :: "trace \<Rightarrow> nat list" where
  "sleeps t = concat (map (\<lambda>e. case e of EvSleep ms \<Rightarrow> [ms] | _ \<Rightarrow> []) t)"

lemma attempts_simps [simp]:
  "connect_attempts (t @ u) = connect_attempts t + connect_attempts u"
  "nats_attempts (t @ u) = nats_attempts t + nats_attempts u"
  "post_attempts (t @ u) = post_attempts t + post_attempts u"
  "sleeps (t @ u) = sleeps t @ sleeps u"
  "connect_attempts [] = 0" "nats_attempts [] = 0" "post_attempts [] = 0" "sleeps [] = []"
  "connect_attempts (EvConnect a r # t) = Suc (connect_attempts t)"
  "connect_attempts (EvSleep ms # t) = connect_attempts t"
  "nats_attempts (EvNatsConnect a r # t) = Suc (nats_attempts t)"
  "nats_attempts (EvSleep ms # t) = nats_attempts t"
  "post_attempts (EvPost a b rp # t) = Suc (post_attempts t)"
  "post_attempts (EvSleep ms # t) = post_attempts t"
  "sleeps (EvSleep ms # t) = ms # sleeps t"
  "sleeps (EvConnect a r # t) = sleeps t"
  "sleeps (EvNatsConnect a r # t) = sleeps t"
  "sleeps (EvPost a b rp # t) = sleeps t"
  by (simp_all add: connect_attempts_def nats_attempts_def post_attempts_def sleeps_def)

section \<open>A world for examples\<close>

text \<open>Everything succeeds, no signal has a value, no environment variable and no file is there.\<close>

definition calm_world :: world where
  "calm_world =
     \<lparr>w_connect = (\<lambda>_ _. Inr ()), w_get_value = (\<lambda>_ _. Inr None),
      w_publish_value = (\<lambda>_ _. Inr ()), w_subscribe = (\<lambda>_ _. Inr ()),
      w_nats_connect = (\<lambda>_ _. Inr ()), w_nats_publish = (\<lambda>_ _ _. Inr ()),
      w_nats_subscribe = (\<lambda>_ _. Inr ()),
      w_post = (\<lambda>_ _ _. Inr \<lparr>hr_success = True, hr_status_text = ''200 OK'', hr_body = Inr []\<rparr>),
      w_exec = (\<lambda>_ _. Inr \<lparr>eo_success = True, eo_stdout = [], eo_stderr = []\<rparr>),
      w_uuid = (\<lambda>t. show_nat (length t)), w_clock = (\<lambda>_. Some 1700000000),
      w_env = (\<lambda>_. None), w_read_file = (\<lambda>_. FileNotFound)\<rparr>"

end
