(* ===== verification/Lock_Broker.thy ===== *)
theory Lock_Broker
  imports World
begin

text \<open>
  rhivos/locking-service/src/broker.rs and src/testing.rs: the trait \<open>BrokerClient\<close> as a record
  of operations on a state, its gRPC implementation over DATA_BROKER, the mock implementation
  of the unit tests, the connection loop, and the task that forwards a subscription. The locale
  \<open>broker_contract\<close> is what the command processor relies on; both implementations satisfy it.
\<close>

section \<open>Errors, signals and the trait\<close>

datatype broker_error = ConnectionFailed string | RpcError string

fun show_broker_error :: "broker_error \<Rightarrow> string" where
  "show_broker_error (ConnectionFailed msg) = ''connection failed: '' @ msg"
| "show_broker_error (RpcError msg) = ''rpc error: '' @ msg"

definition SIGNAL_SPEED :: string where "SIGNAL_SPEED = ''Vehicle.Speed''"
definition SIGNAL_DOOR_OPEN :: string where
  "SIGNAL_DOOR_OPEN = ''Vehicle.Cabin.Door.Row1.DriverSide.IsOpen''"
definition SIGNAL_IS_LOCKED :: string where
  "SIGNAL_IS_LOCKED = ''Vehicle.Cabin.Door.Row1.DriverSide.IsLocked''"
definition SIGNAL_COMMAND :: string where "SIGNAL_COMMAND = ''Vehicle.Command.Door.Lock''"
definition SIGNAL_RESPONSE :: string where "SIGNAL_RESPONSE = ''Vehicle.Command.Door.Response''"

lemmas signal_defs = SIGNAL_SPEED_def SIGNAL_DOOR_OPEN_def SIGNAL_IS_LOCKED_def SIGNAL_COMMAND_def
  SIGNAL_RESPONSE_def

record 'w broker_client =
  get_float :: "string \<Rightarrow> 'w \<Rightarrow> (broker_error + f32 option) \<times> 'w"
  get_bool :: "string \<Rightarrow> 'w \<Rightarrow> (broker_error + bool option) \<times> 'w"
  set_bool :: "string \<Rightarrow> bool \<Rightarrow> 'w \<Rightarrow> (broker_error + unit) \<times> 'w"
  set_string :: "string \<Rightarrow> string \<Rightarrow> 'w \<Rightarrow> (broker_error + unit) \<times> 'w"

section \<open>The gRPC client\<close>

definition grpc_get_float :: "world \<Rightarrow> string \<Rightarrow> trace \<Rightarrow> (broker_error + f32 option) \<times> trace" where
  "grpc_get_float W signal t =
     (case ask_get_value W \<lparr>gv_signal_id = path_id signal\<rparr> t of
        (Inl e, t') \<Rightarrow> (Inl (RpcError (''get_float('' @ signal @ ''): '' @ e)), t')
      | (Inr data_point, t') \<Rightarrow>
          (case data_point of
             Some dp \<Rightarrow>
               (case dp_value dp of
                  Some value \<Rightarrow>
                    (Inr (case value of
                            Some (TFloat f) \<Rightarrow> Some f
                          | Some (TDouble d) \<Rightarrow> Some (f64_to_f32 d)
                          | _ \<Rightarrow> None), t')
                | None \<Rightarrow> (Inr None, t'))
           | None \<Rightarrow> (Inr None, t')))"

definition grpc_get_bool :: "world \<Rightarrow> string \<Rightarrow> trace \<Rightarrow> (broker_error + bool option) \<times> trace" where
  "grpc_get_bool W signal t =
     (case ask_get_value W \<lparr>gv_signal_id = path_id signal\<rparr> t of
        (Inl e, t') \<Rightarrow> (Inl (RpcError (''get_bool('' @ signal @ ''): '' @ e)), t')
      | (Inr data_point, t') \<Rightarrow>
          (case data_point of
             Some dp \<Rightarrow>
               (case dp_value dp of
                  Some value \<Rightarrow>
                    (Inr (case value of Some (TBool b) \<Rightarrow> Some b | _ \<Rightarrow> None), t')
                | None \<Rightarrow> (Inr None, t'))
           | None \<Rightarrow> (Inr None, t')))"

definition show_bool :: "bool \<Rightarrow> string" where
  "show_bool b = (if b then ''true'' else ''false'')"

definition grpc_set_bool :: "world \<Rightarrow> string \<Rightarrow> bool \<Rightarrow> trace \<Rightarrow> (broker_error + unit) \<times> trace" where
  "grpc_set_bool W signal value t =
     (case ask_publish_value W (publish_request signal (TBool value)) t of
        (r, t') \<Rightarrow>
          (map_err (\<lambda>e. RpcError (''set_bool('' @ signal @ '', '' @ show_bool value @ ''): '' @ e)) r, t'))"

definition grpc_set_string :: "world \<Rightarrow> string \<Rightarrow> string \<Rightarrow> trace \<Rightarrow> (broker_error + unit) \<times> trace" where
  "grpc_set_string W signal value t =
     (case ask_publish_value W (publish_request signal (TString value)) t of
        (r, t') \<Rightarrow> (map_err (\<lambda>e. RpcError (''set_string('' @ signal @ ''): '' @ e)) r, t'))"

definition grpc_client :: "world \<Rightarrow> trace broker_client" where
  "grpc_client W =
     \<lparr>get_float = grpc_get_float W, get_bool = grpc_get_bool W,
      set_bool = grpc_set_bool W, set_string = grpc_set_string W\<rparr>"

text \<open>
  \<open>connect\<close>: \<open>for attempt in 0..MAX_ATTEMPTS\<close>, with a sleep of \<open>1 << attempt\<close> seconds after
  every failed attempt but the last.
\<close>

definition MAX_ATTEMPTS :: nat where "MAX_ATTEMPTS = 5"

definition connect_body :: "world \<Rightarrow> string \<Rightarrow> nat \<Rightarrow> trace \<Rightarrow> (string + unit) \<times> trace" where
  "connect_body W addr attempt t =
     (case ask_connect W addr t of
        (Inr client, t') \<Rightarrow> (Inr client, t')
      | (Inl e, t') \<Rightarrow>
          (Inl e, if attempt < MAX_ATTEMPTS - 1 then sleep_ms (1000 * push_bit attempt 1) t' else t'))"

fun connect_loop :: "world \<Rightarrow> string \<Rightarrow> nat list \<Rightarrow> string \<Rightarrow> trace \<Rightarrow> (string + unit) \<times> trace" where
  "connect_loop W addr [] last_err t = (Inl last_err, t)"
| "connect_loop W addr (attempt # rest) last_err t =
     (case connect_body W addr attempt t of
        (Inr client, t') \<Rightarrow> (Inr client, t')
      | (Inl e, t') \<Rightarrow> connect_loop W addr rest e t')"

definition connect :: "world \<Rightarrow> string \<Rightarrow> trace \<Rightarrow> (broker_error + unit) \<times> trace" where
  "connect W addr t =
     (case connect_loop W addr [0..<MAX_ATTEMPTS] [] t of
        (r, t') \<Rightarrow> (map_err ConnectionFailed r, t'))"

text \<open>
  \<open>subscribe\<close> opens the stream; the spawned task then forwards the string values of the signal.
  \<open>forward_strings\<close> is that task over the items of the stream; with each item comes whether the
  receiver is still there when the task would send.
\<close>

definition subscribe :: "world \<Rightarrow> string \<Rightarrow> trace \<Rightarrow> (broker_error + unit) \<times> trace" where
  "subscribe W signal t =
     (case ask_subscribe W \<lparr>sub_paths = [signal], sub_buffer_size = 0\<rparr> t of
        (r, t') \<Rightarrow> (map_err (\<lambda>e. RpcError (''subscribe failed: '' @ e)) r, t'))"

fun forward_strings :: "string \<Rightarrow> ((string + entries) \<times> bool) list \<Rightarrow> string list" where
  "forward_strings signal_path [] = []"
| "forward_strings signal_path ((Inl e, alive) # items) = []"
| "forward_strings signal_path ((Inr es, alive) # items) =
     (case map_of es signal_path of
        Some dp \<Rightarrow>
          (case dp_value dp of
             Some (Some (TString s)) \<Rightarrow>
               (if alive then s # forward_strings signal_path items else [])
           | _ \<Rightarrow> forward_strings signal_path items)
      | None \<Rightarrow> forward_strings signal_path items)"

section \<open>The mock client of the unit tests\<close>

record mock_broker =
  mb_speed :: "f32 option"
  mb_door_open :: "bool option"
  mb_locked :: "bool option"
  mb_set_bool_calls :: "(string \<times> bool) list"
  mb_set_string_calls :: "(string \<times> string) list"
  mb_fail_next_set_string :: bool

definition mock_new :: mock_broker where
  "mock_new = \<lparr>mb_speed = None, mb_door_open = None, mb_locked = None, mb_set_bool_calls = [],
     mb_set_string_calls = [], mb_fail_next_set_string = False\<rparr>"

definition with_speed :: "f32 option \<Rightarrow> mock_broker \<Rightarrow> mock_broker" where
  "with_speed s m = m\<lparr>mb_speed := s\<rparr>"
definition with_door_open :: "bool option \<Rightarrow> mock_broker \<Rightarrow> mock_broker" where
  "with_door_open d m = m\<lparr>mb_door_open := d\<rparr>"
definition with_locked :: "bool option \<Rightarrow> mock_broker \<Rightarrow> mock_broker" where
  "with_locked l m = m\<lparr>mb_locked := l\<rparr>"
definition fail_next_set_string :: "mock_broker \<Rightarrow> mock_broker" where
  "fail_next_set_string m = m\<lparr>mb_fail_next_set_string := True\<rparr>"

definition mock_get_float :: "string \<Rightarrow> mock_broker \<Rightarrow> (broker_error + f32 option) \<times> mock_broker" where
  "mock_get_float signal m = (Inr (if signal = SIGNAL_SPEED then mb_speed m else None), m)"

definition mock_get_bool :: "string \<Rightarrow> mock_broker \<Rightarrow> (broker_error + bool option) \<times> mock_broker" where
  "mock_get_bool signal m =
     (Inr (if signal = SIGNAL_DOOR_OPEN then mb_door_open m
           else if signal = SIGNAL_IS_LOCKED then mb_locked m else None), m)"

definition mock_set_bool :: "string \<Rightarrow> bool \<Rightarrow> mock_broker \<Rightarrow> (broker_error + unit) \<times> mock_broker" where
  "mock_set_bool signal value m =
     (Inr (), m\<lparr>mb_set_bool_calls := mb_set_bool_calls m @ [(signal, value)]\<rparr>)"

definition mock_set_string :: "string \<Rightarrow> string \<Rightarrow> mock_broker \<Rightarrow> (broker_error + unit) \<times> mock_broker" where
  "mock_set_string signal value m =
     (if mb_fail_next_set_string m
      then (Inl (RpcError ''simulated failure''), m\<lparr>mb_fail_next_set_string := False\<rparr>)
      else (Inr (), m\<lparr>mb_set_string_calls := mb_set_string_calls m @ [(signal, value)]\<rparr>))"

definition mock_client :: "mock_broker broker_client" where
  "mock_client =
     \<lparr>get_float = mock_get_float, get_bool = mock_get_bool,
      set_bool = mock_set_bool, set_string = mock_set_string\<rparr>"

lemmas grpc_client_simps [client_simps] =
  grpc_client_def grpc_get_float_def grpc_get_bool_def grpc_set_bool_def grpc_set_string_def

lemmas mock_client_simps [client_simps] =
  mock_client_def mock_get_float_def mock_get_bool_def mock_set_bool_def mock_set_string_def

section \<open>The contract of the trait\<close>

text \<open>
  A client keeps a log of the writes that took effect; reads leave it alone, and a write adds
  exactly itself when it reports success and nothing when it reports an error.
\<close>

locale broker_contract =
  fixes bc :: "'w broker_client"
    and bools :: "'w \<Rightarrow> (string \<times> bool) list"
    and strs :: "'w \<Rightarrow> (string \<times> string) list"
  assumes get_float_frame:
      "get_float bc s w = (rf, w') \<Longrightarrow> bools w' = bools w \<and> strs w' = strs w"
    and get_bool_frame:
      "get_bool bc s w = (rb, w') \<Longrightarrow> bools w' = bools w \<and> strs w' = strs w"
    and set_bool_log:
      "set_bool bc s v w = (ru, w') \<Longrightarrow>
         bools w' = bools w @ (if is_ok ru then [(s, v)] else []) \<and> strs w' = strs w"
    and set_string_log:
      "set_string bc s x w = (ru, w') \<Longrightarrow>
         strs w' = strs w @ (if is_ok ru then [(s, x)] else []) \<and> bools w' = bools w"
begin

lemmas frames = get_float_frame get_bool_frame set_bool_log set_string_log

end

text \<open>A client that also counts its reads, for properties of what a command looks at.\<close>

locale counting_contract = broker_contract bc bools strs
  for bc :: "'w broker_client" and bools strs +
  fixes reads :: "'w \<Rightarrow> nat"
  assumes get_float_reads: "get_float bc s w = (rf, w') \<Longrightarrow> reads w' = Suc (reads w)"
    and get_bool_reads: "get_bool bc s w = (rb, w') \<Longrightarrow> reads w' = Suc (reads w)"
    and set_bool_reads: "set_bool bc s v w = (ru, w') \<Longrightarrow> reads w' = reads w"
    and set_string_reads: "set_string bc s x w = (ru, w') \<Longrightarrow> reads w' = reads w"

definition value_reads :: "trace \<Rightarrow> nat" where
  "value_reads t = length (filter (\<lambda>e. case e of EvGetValue _ _ \<Rightarrow> True | _ \<Rightarrow> False) t)"

interpretation grpc: counting_contract "grpc_client W" accepted_bools accepted_strings value_reads
  by unfold_locales
    (auto simp: client_simps io_simps value_reads_def Let_def split: sum.splits option.splits)

interpretation mock: broker_contract mock_client mb_set_bool_calls mb_set_string_calls
  by unfold_locales (auto simp: client_simps split: if_splits)

section \<open>The connection loop\<close>

definition connect_pause :: "nat \<Rightarrow> bool \<Rightarrow> nat list" where
  "connect_pause attempt ok = (if \<not> ok \<and> attempt < MAX_ATTEMPTS - 1 then [1000 * 2 ^ attempt] else [])"

interpretation lock_connect: bounded_retry "connect_body W addr" "connect_loop W addr"
  connect_attempts sleeps connect_pause
  by unfold_locales
    (auto simp: connect_body_def connect_pause_def io_simps Let_def push_bit_nat_def split: sum.splits)

text \<open>
  \<open>GrpcBrokerClient::connect\<close> makes between one and five connection attempts and returns the
  first that succeeds; after the first, second, third and fourth failure it sleeps 1, 2, 4 and 8
  seconds, and it gives up only after five failures.
\<close>
lemma connect_bounded:
  "case connect W addr t of
     (Inl _, t') \<Rightarrow>
       connect_attempts t' = connect_attempts t + 5 \<and> sleeps t' = sleeps t @ [1000, 2000, 4000, 8000]
   | (Inr _, t') \<Rightarrow>
       \<exists>n. n < 5 \<and> connect_attempts t' = connect_attempts t + Suc n \<and>
         sleeps t' = sleeps t @ take n [1000, 2000, 4000, 8000]"
proof -
  obtain r t' where l: "connect_loop W addr [0..<MAX_ATTEMPTS] [] t = (r, t')" by fastforce
  have pauses: "concat (map (\<lambda>i. connect_pause i False) (take n [0..<5])) = take n [1000, 2000, 4000, 8000]" for n
    by (simp add: connect_pause_def MAX_ATTEMPTS_def upt_rec take_Cons' )
  show ?thesis
  proof (cases r)
    case (Inl e)
    with l show ?thesis
      using lock_connect.exhausted [of W addr "[0..<MAX_ATTEMPTS]" "[]" t e t']
      by (simp add: connect_def MAX_ATTEMPTS_def connect_pause_def upt_rec)
  next
    case (Inr u)
    with l show ?thesis
      using lock_connect.succeeded_at [of W addr "[0..<MAX_ATTEMPTS]" "[]" t u t']
      by (simp add: connect_def MAX_ATTEMPTS_def pauses) (auto simp: connect_pause_def)
  qed
qed

end
