(* ===== verification/Lock_Process.thy ===== *)
theory Lock_Process
  imports Lock_Broker
begin

text \<open>
  rhivos/locking-service/src/command.rs, response.rs, safety.rs and process.rs: the lock command
  with its validation, the JSON response, the safety check, and the processing of one validated
  command over any implementation of the broker trait. \<open>now\<close> is a reading of the clock (\<open>None\<close>
  before 1970, where the code panics); a response that could not be built is \<open>None\<close>.
\<close>

section \<open>Commands\<close>

datatype action = Lock | Unlock

record lock_command =
  lc_command_id :: string
  lc_action :: action
  lc_doors :: "string list"
  lc_source :: "string option"
  lc_vin :: "string option"
  lc_timestamp :: "64 word option"

datatype command_error = InvalidJson string | InvalidCommand string | UnsupportedDoor string

fun reason :: "command_error \<Rightarrow> string" where
  "reason (InvalidJson _) = ''invalid_json''"
| "reason (InvalidCommand _) = ''invalid_command''"
| "reason (UnsupportedDoor _) = ''unsupported_door''"

fun show_command_error :: "command_error \<Rightarrow> string" where
  "show_command_error (InvalidJson msg) = ''invalid JSON: '' @ msg"
| "show_command_error (InvalidCommand msg) = ''invalid command: '' @ msg"
| "show_command_error (UnsupportedDoor msg) = ''unsupported door: '' @ msg"

text \<open>\<open>de_cmd\<close> is \<open>serde_json::from_str::<LockCommand>\<close>.\<close>

definition parse_command :: "(string \<Rightarrow> serde_error + lock_command) \<Rightarrow> string \<Rightarrow> command_error + lock_command" where
  "parse_command de_cmd json =
     map_err (\<lambda>e. if is_syntax e \<or> is_eof e then InvalidJson (se_text e) else InvalidCommand (se_text e))
       (de_cmd json)"

fun find_unsupported :: "string list \<Rightarrow> string option" where
  "find_unsupported [] = None"
| "find_unsupported (door # ds) = (if door \<noteq> ''driver'' then Some door else find_unsupported ds)"

definition validate_command :: "lock_command \<Rightarrow> command_error + unit" where
  "validate_command cmd =
     (if lc_command_id cmd = [] then Inl (InvalidCommand ''command_id is empty'')
      else (case find_unsupported (lc_doors cmd) of
              Some door \<Rightarrow> Inl (UnsupportedDoor door)
            | None \<Rightarrow>
                if ''driver'' \<notin> set (lc_doors cmd)
                then Inl (InvalidCommand (''doors must contain '' @ [CHR 0x22] @ ''driver'' @ [CHR 0x22]))
                else Inr ()))"

lemma find_unsupported_None: "find_unsupported ds = None \<longleftrightarrow> (\<forall>d \<in> set ds. d = ''driver'')"
  by (induction ds) auto

lemma find_unsupported_Some:
  "find_unsupported ds = Some d \<Longrightarrow> d \<in> set ds \<and> d \<noteq> ''driver''"
  by (induction ds) (auto split: if_splits)

section \<open>Responses\<close>

record command_response =
  cr_command_id :: string
  cr_status :: string
  cr_reason :: "string option"
  cr_timestamp :: "64 word"

text \<open>The serialised fields: \<open>reason\<close> is skipped when absent.\<close>

definition response_json :: "command_response \<Rightarrow> json" where
  "response_json r =
     JObj ([(''command_id'', JStr (cr_command_id r)), (''status'', JStr (cr_status r))]
           @ (case cr_reason r of None \<Rightarrow> [] | Some x \<Rightarrow> [(''reason'', JStr x)])
           @ [(''timestamp'', JInt (sint (cr_timestamp r)))])"

definition success_response :: "(json \<Rightarrow> string) \<Rightarrow> 64 word option \<Rightarrow> string \<Rightarrow> string option" where
  "success_response ser now cid =
     (case now of
        None \<Rightarrow> None
      | Some secs \<Rightarrow> Some (ser (response_json
          \<lparr>cr_command_id = cid, cr_status = ''success'', cr_reason = None, cr_timestamp = secs\<rparr>)))"

definition failure_response :: "(json \<Rightarrow> string) \<Rightarrow> 64 word option \<Rightarrow> string \<Rightarrow> string \<Rightarrow> string option" where
  "failure_response ser now cid why =
     (case now of
        None \<Rightarrow> None
      | Some secs \<Rightarrow> Some (ser (response_json
          \<lparr>cr_command_id = cid, cr_status = ''failed'', cr_reason = Some why, cr_timestamp = secs\<rparr>)))"

section \<open>The safety check\<close>

datatype safety_result = Safe | VehicleMoving | DoorOpen

definition check_safety :: "'w broker_client \<Rightarrow> 'w \<Rightarrow> safety_result \<times> 'w" where
  "check_safety broker w =
     (case get_float broker SIGNAL_SPEED w of
        (r, w1) \<Rightarrow>
          let speed = unwrap_or f32_zero (result_unwrap_or None r) in
          if f32_ge speed f32_one then (VehicleMoving, w1)
          else (case get_bool broker SIGNAL_DOOR_OPEN w1 of
                  (r2, w2) \<Rightarrow>
                    let door_open = unwrap_or False (result_unwrap_or None r2) in
                    if door_open then (DoorOpen, w2) else (Safe, w2)))"

section \<open>Processing a command\<close>

text \<open>
  The functions return the response (\<open>None\<close> if building it panicked), the new value of the
  service's \<open>lock_state\<close>, and the state of the broker client. \<open>clk\<close> reads the clock.
\<close>

definition process_lock ::
    "(json \<Rightarrow> string) \<Rightarrow> ('w \<Rightarrow> 64 word option) \<Rightarrow> 'w broker_client \<Rightarrow> lock_command \<Rightarrow> bool \<Rightarrow> 'w
     \<Rightarrow> string option \<times> bool \<times> 'w" where
  "process_lock ser clk broker cmd lock_state w =
     (case check_safety broker w of
        (VehicleMoving, w1) \<Rightarrow> (failure_response ser (clk w1) (lc_command_id cmd) ''vehicle_moving'', lock_state, w1)
      | (DoorOpen, w1) \<Rightarrow> (failure_response ser (clk w1) (lc_command_id cmd) ''door_open'', lock_state, w1)
      | (Safe, w1) \<Rightarrow>
          if \<not> lock_state then
            (case set_bool broker SIGNAL_IS_LOCKED True w1 of
               (_, w2) \<Rightarrow> (success_response ser (clk w2) (lc_command_id cmd), True, w2))
          else (success_response ser (clk w1) (lc_command_id cmd), lock_state, w1))"

definition process_unlock ::
    "(json \<Rightarrow> string) \<Rightarrow> ('w \<Rightarrow> 64 word option) \<Rightarrow> 'w broker_client \<Rightarrow> lock_command \<Rightarrow> bool \<Rightarrow> 'w
     \<Rightarrow> string option \<times> bool \<times> 'w" where
  "process_unlock ser clk broker cmd lock_state w =
     (if lock_state then
        (case set_bool broker SIGNAL_IS_LOCKED False w of
           (_, w1) \<Rightarrow> (success_response ser (clk w1) (lc_command_id cmd), False, w1))
      else (success_response ser (clk w) (lc_command_id cmd), lock_state, w))"

definition process_command ::
    "(json \<Rightarrow> string) \<Rightarrow> ('w \<Rightarrow> 64 word option) \<Rightarrow> 'w broker_client \<Rightarrow> lock_command \<Rightarrow> bool \<Rightarrow> 'w
     \<Rightarrow> string option \<times> bool \<times> 'w" where
  "process_command ser clk broker cmd lock_state w =
     (case (case lc_action cmd of
              Lock \<Rightarrow> process_lock ser clk broker cmd lock_state w
            | Unlock \<Rightarrow> process_unlock ser clk broker cmd lock_state w) of
        (None, lock', w1) \<Rightarrow> (None, lock', w1)
      | (Some response, lock', w1) \<Rightarrow>
          (case set_string broker SIGNAL_RESPONSE response w1 of
             (_, w2) \<Rightarrow> (Some response, lock', w2)))"

section \<open>What a command means: the abstract lock\<close>

text \<open>
  The specification of one command: from the action, the outcome of the safety check and the
  current state, the new state and the reason of a refusal.
\<close>

fun lock_spec :: "action \<Rightarrow> safety_result \<Rightarrow> bool \<Rightarrow> bool \<times> string option" where
  "lock_spec Unlock _ _ = (False, None)"
| "lock_spec Lock Safe _ = (True, None)"
| "lock_spec Lock VehicleMoving l = (l, Some ''vehicle_moving'')"
| "lock_spec Lock DoorOpen l = (l, Some ''door_open'')"

definition spec_response :: "(json \<Rightarrow> string) \<Rightarrow> 64 word option \<Rightarrow> string \<Rightarrow> string option \<Rightarrow> string option" where
  "spec_response ser now cid refusal =
     (case refusal of
        None \<Rightarrow> success_response ser now cid
      | Some why \<Rightarrow> failure_response ser now cid why)"

lemma success_response_Some: "success_response ser (Some s) cid \<noteq> None"
  and failure_response_Some: "failure_response ser (Some s) cid why \<noteq> None"
  by (simp_all add: success_response_def failure_response_def)

lemma response_None [simp]:
  "success_response ser None cid = None" "failure_response ser None cid why = None"
  by (simp_all add: success_response_def failure_response_def)

section \<open>The processor over any client that honours the contract\<close>

context broker_contract
begin

lemma check_safety_frame:
  "check_safety bc w = (r, w') \<Longrightarrow> bools w' = bools w \<and> strs w' = strs w"
  by (auto simp: check_safety_def Let_def split: prod.splits if_splits
      dest!: get_float_frame get_bool_frame)

text \<open>
  The refinement of the abstract lock: state and response are those of the specification at the
  outcome of the safety check, which is made for lock commands only.
\<close>

lemma process_lock_refines:
  "process_lock ser clk bc cmd l w = (r, l', w') \<Longrightarrow>
     l' = fst (lock_spec Lock (fst (check_safety bc w)) l) \<and>
     r = spec_response ser (clk w') (lc_command_id cmd) (snd (lock_spec Lock (fst (check_safety bc w)) l))"
  by (cases "fst (check_safety bc w)")
    (auto simp: process_lock_def spec_response_def split: prod.splits if_splits)

lemma process_unlock_refines:
  "process_unlock ser clk bc cmd l w = (r, l', w') \<Longrightarrow>
     l' = False \<and> r = success_response ser (clk w') (lc_command_id cmd)"
  by (auto simp: process_unlock_def split: prod.splits if_splits)

lemma process_refines:
  assumes "process_command ser clk bc cmd l w = (resp, l', w')"
  defines "outcome \<equiv> lock_spec (lc_action cmd) (fst (check_safety bc w)) l"
  obtains w1 where "l' = fst outcome"
    and "resp = spec_response ser (clk w1) (lc_command_id cmd) (snd outcome)"
    and "w' = (case resp of None \<Rightarrow> w1 | Some r \<Rightarrow> snd (set_string bc SIGNAL_RESPONSE r w1))"
proof -
  obtain r1 l1 w1 where inner: "(case lc_action cmd of
        Lock \<Rightarrow> process_lock ser clk bc cmd l w | Unlock \<Rightarrow> process_unlock ser clk bc cmd l w) = (r1, l1, w1)"
    by (metis prod_cases3)
  then have "l1 = fst outcome" "r1 = spec_response ser (clk w1) (lc_command_id cmd) (snd outcome)"
    by (auto simp: outcome_def spec_response_def split: action.splits
        dest!: process_lock_refines process_unlock_refines)
  moreover have "resp = r1" "l' = l1"
    "w' = (case resp of None \<Rightarrow> w1 | Some r \<Rightarrow> snd (set_string bc SIGNAL_RESPONSE r w1))"
    using assms(1) inner by (auto simp: process_command_def split: option.splits prod.splits)
  ultimately show ?thesis using that by simp
qed

text \<open>The response is written once, and the lock signal only when the state changes.\<close>

lemma process_writes:
  assumes "process_command ser clk bc cmd l w = (resp, l', w')"
  shows "\<exists>b s. bools w' = bools w @ b \<and> strs w' = strs w @ s \<and>
           (b = [] \<or> b = [(SIGNAL_IS_LOCKED, l')] \<and> l' \<noteq> l) \<and>
           (s = [] \<or> (\<exists>r. resp = Some r \<and> s = [(SIGNAL_RESPONSE, r)]))"
proof -
  have lock: "bools w1 = bools w @ b1 \<and> strs w1 = strs w \<and> (b1 = [] \<or> b1 = [(SIGNAL_IS_LOCKED, l1)] \<and> l1 \<noteq> l)"
    if "process_lock ser clk bc cmd l w = (r1, l1, w1)" "b1 = drop (length (bools w)) (bools w1)" for r1 l1 w1 b1
    using that
    by (auto simp: process_lock_def split: prod.splits safety_result.splits if_splits
        dest!: check_safety_frame set_bool_log)
  have unlock: "bools w1 = bools w @ b1 \<and> strs w1 = strs w \<and> (b1 = [] \<or> b1 = [(SIGNAL_IS_LOCKED, l1)] \<and> l1 \<noteq> l)"
    if "process_unlock ser clk bc cmd l w = (r1, l1, w1)" "b1 = drop (length (bools w)) (bools w1)" for r1 l1 w1 b1
    using that
    by (auto simp: process_unlock_def split: prod.splits if_splits dest!: set_bool_log)
  show ?thesis
    using assms lock unlock
    by (fastforce simp: process_command_def split: action.splits prod.splits option.splits
        dest!: set_string_log)
qed

text \<open>When DATA_BROKER takes every write of the lock signal, the log follows the state.\<close>

lemma process_lock_signal:
  assumes "process_command ser clk bc cmd l w = (resp, l', w')"
    and ok: "\<And>v w. is_ok (fst (set_bool bc SIGNAL_IS_LOCKED v w))"
  shows "bools w' = bools w @ (if l' = l then [] else [(SIGNAL_IS_LOCKED, l')])"
proof -
  have sb: "bools w2 = bools w1 @ [(SIGNAL_IS_LOCKED, v)]"
    if "set_bool bc SIGNAL_IS_LOCKED v w1 = (r, w2)" for v w1 r w2
    using ok [of v w1] set_bool_log [OF that] that by simp
  have "bools w1 = bools w @ (if l1 = l then [] else [(SIGNAL_IS_LOCKED, l1)])"
    if "process_lock ser clk bc cmd l w = (r1, l1, w1)" for r1 l1 w1
    using that by (auto simp: process_lock_def split: prod.splits safety_result.splits if_splits
        dest!: check_safety_frame sb)
  moreover have "bools w1 = bools w @ (if l1 = l then [] else [(SIGNAL_IS_LOCKED, l1)])"
    if "process_unlock ser clk bc cmd l w = (r1, l1, w1)" for r1 l1 w1
    using that by (auto simp: process_unlock_def split: prod.splits if_splits dest!: sb)
  ultimately show ?thesis
    using assms(1) by (fastforce simp: process_command_def split: action.splits prod.splits option.splits
        dest!: set_string_log)
qed

end

context counting_contract
begin

lemma check_safety_reads:
  "check_safety bc w = (r, w') \<Longrightarrow> reads w' = reads w + (if r = VehicleMoving then 1 else 2)"
  by (auto simp: check_safety_def Let_def split: prod.splits if_splits
      dest!: get_float_reads get_bool_reads)

lemma process_lock_reads:
  "process_lock ser clk bc cmd l w = (r, l', w') \<Longrightarrow>
     reads w' = reads w + (if fst (check_safety bc w) = VehicleMoving then 1 else 2)"
  by (auto simp: process_lock_def split: prod.splits safety_result.splits if_splits
      dest!: check_safety_reads set_bool_reads)

lemma process_unlock_reads:
  "process_unlock ser clk bc cmd l w = (r, l', w') \<Longrightarrow> reads w' = reads w"
  by (auto simp: process_unlock_def split: prod.splits if_splits dest!: set_bool_reads)

lemma process_reads:
  "process_command ser clk bc cmd l w = (r, l', w') \<Longrightarrow>
     reads w' = reads w + (case lc_action cmd of
       Unlock \<Rightarrow> 0 | Lock \<Rightarrow> if fst (check_safety bc w) = VehicleMoving then 1 else 2)"
  by (auto simp: process_command_def split: prod.splits action.splits option.splits
      dest!: process_lock_reads process_unlock_reads set_string_reads)

end

end
