(* ===== verification/Lock_Service.thy ===== *)
theory Lock_Service
  imports Lock_Process
begin

text \<open>
  rhivos/locking-service/src/config.rs and main.rs: the handling of one payload of the command
  signal, the service loop with its resubscriptions and shutdown, the start-up and the command
  line. The properties of the service are in Lock_Properties.thy.
\<close>

section \<open>Configuration and payloads\<close>

definition DEFAULT_DATABROKER_ADDR :: string where
  "DEFAULT_DATABROKER_ADDR = ''http://localhost:55556''"

definition get_databroker_addr :: "world \<Rightarrow> string" where
  "get_databroker_addr W = unwrap_or DEFAULT_DATABROKER_ADDR (w_env W ''DATABROKER_ADDR'')"

text \<open>
  The third-party functions of the service: \<open>serde_json::from_str\<close> at \<open>LockCommand\<close> and at
  \<open>Value\<close>, and \<open>serde_json::to_string\<close>.
\<close>

record lock_codec =
  lk_de_cmd :: "string \<Rightarrow> serde_error + lock_command"
  lk_de_value :: "string \<Rightarrow> serde_error + json"
  lk_ser :: "json \<Rightarrow> string"

definition extract_command_id :: "lock_codec \<Rightarrow> string \<Rightarrow> string option" where
  "extract_command_id cd json =
     (case lk_de_value cd json of
        Inl e \<Rightarrow> None
      | Inr parsed \<Rightarrow>
          (case Option.bind (json_get parsed ''command_id'') as_str of
             None \<Rightarrow> None
           | Some s \<Rightarrow> if s \<noteq> [] then Some s else None))"

text \<open>The first component is \<open>None\<close> when the task panicked.\<close>

definition handle_command_payload ::
    "lock_codec \<Rightarrow> world \<Rightarrow> string \<Rightarrow> bool \<Rightarrow> trace \<Rightarrow> unit option \<times> bool \<times> trace" where
  "handle_command_payload cd W payload lock_state t =
     (case parse_command (lk_de_cmd cd) payload of
        Inl (InvalidJson msg) \<Rightarrow> (Some (), lock_state, t)
      | Inl e \<Rightarrow>
          (case extract_command_id cd payload of
             Some cid \<Rightarrow>
               (case failure_response (lk_ser cd) (w_clock W t) cid (reason e) of
                  None \<Rightarrow> (None, lock_state, t)
                | Some response \<Rightarrow>
                    (Some (), lock_state, snd (set_string (grpc_client W) SIGNAL_RESPONSE response t)))
           | None \<Rightarrow> (Some (), lock_state, t))
      | Inr cmd \<Rightarrow>
          (case validate_command cmd of
             Inl e \<Rightarrow>
               (case failure_response (lk_ser cd) (w_clock W t) (lc_command_id cmd) (reason e) of
                  None \<Rightarrow> (None, lock_state, t)
                | Some response \<Rightarrow>
                    (Some (), lock_state, snd (set_string (grpc_client W) SIGNAL_RESPONSE response t)))
           | Inr _ \<Rightarrow>
               (case process_command (lk_ser cd) (w_clock W) (grpc_client W) cmd lock_state t of
                  (None, lock', t') \<Rightarrow> (None, lock', t')
                | (Some _, lock', t') \<Rightarrow> (Some (), lock', t'))))"

section \<open>The service loop\<close>

text \<open>
  One poll of the biased \<open>select!\<close>: what the subscription has ready, if anything, and whether
  the shutdown signal has arrived. The subscription is looked at first. A poll with nothing
  ready waits; when the polls run out the service is still \<open>Serving\<close>.
\<close>

datatype recv = Payload string | StreamEnded

record poll =
  rx_ready :: "recv option"
  shutdown_ready :: bool

datatype serve_end = Serving | ShutDown | ServeError string | ServePanic

definition max_resubscribe_attempts :: nat where "max_resubscribe_attempts = 3"

fun serve_loop ::
    "lock_codec \<Rightarrow> world \<Rightarrow> poll list \<Rightarrow> bool \<Rightarrow> nat \<Rightarrow> trace \<Rightarrow> serve_end \<times> bool \<times> nat \<times> trace" where
  "serve_loop cd W [] lock_state count t = (Serving, lock_state, count, t)"
| "serve_loop cd W (p # ps) lock_state count t =
     (case rx_ready p of
        Some (Payload cmd_json) \<Rightarrow>
          (case handle_command_payload cd W cmd_json lock_state t of
             (None, lock', t') \<Rightarrow> (ServePanic, lock', 0, t')
           | (Some _, lock', t') \<Rightarrow> serve_loop cd W ps lock' 0 t')
      | Some StreamEnded \<Rightarrow>
          if count + 1 > max_resubscribe_attempts
          then (ServeError ''subscription lost'', lock_state, count + 1, t)
          else (case subscribe W SIGNAL_COMMAND t of
                  (Inr _, t') \<Rightarrow> serve_loop cd W ps lock_state (count + 1) t'
                | (Inl e, t') \<Rightarrow> (ServeError (show_broker_error e), lock_state, count + 1, t'))
      | None \<Rightarrow>
          if shutdown_ready p then (ShutDown, lock_state, count, t)
          else serve_loop cd W ps lock_state count t)"

definition run :: "lock_codec \<Rightarrow> world \<Rightarrow> poll list \<Rightarrow> trace \<Rightarrow> serve_end \<times> bool \<times> trace" where
  "run cd W polls t =
     (case connect W (get_databroker_addr W) t of
        (Inl e, t1) \<Rightarrow> (ServeError (show_broker_error e), False, t1)
      | (Inr _, t1) \<Rightarrow>
          (case set_bool (grpc_client W) SIGNAL_IS_LOCKED False t1 of
             (Inl e, t2) \<Rightarrow> (ServeError (show_broker_error e), False, t2)
           | (Inr _, t2) \<Rightarrow>
               (case subscribe W SIGNAL_COMMAND t2 of
                  (Inl e, t3) \<Rightarrow> (ServeError (show_broker_error e), False, t3)
                | (Inr _, t3) \<Rightarrow>
                    (case serve_loop cd W polls False 0 t3 of
                       (res, lock', _, t4) \<Rightarrow> (res, lock', t4)))))"

text \<open>The exit code of \<open>main\<close>, \<open>None\<close> while it runs. A panic of the main task exits with 101.\<close>

definition main_exit :: "lock_codec \<Rightarrow> world \<Rightarrow> string list \<Rightarrow> poll list \<Rightarrow> nat option" where
  "main_exit cd W args polls =
     (if args = [] then Some 101
      else if length args < 2 \<or> args ! 1 = ''--help'' \<or> args ! 1 = ''-h'' then Some 0
      else if args ! 1 \<noteq> ''serve'' then Some 1
      else (case fst (run cd W polls []) of
              Serving \<Rightarrow> None
            | ShutDown \<Rightarrow> Some 0
            | ServeError _ \<Rightarrow> Some 1
            | ServePanic \<Rightarrow> Some 101))"

end
