(* ===== verification/Lock_Properties.thy ===== *)
theory Lock_Properties
  imports Lock_Service
begin

text \<open>
  The properties of the locking service: validation, the safety gate and its fail-open reads,
  the refinement of the abstract lock, responses, the agreement of the lock state with the
  signal in DATA_BROKER, and the bounds of the service loop.
\<close>

section \<open>Validation\<close>

text \<open>
  \<open>validate_command\<close> accepts exactly the commands with a non-empty id and doors that are a
  non-empty list of \<open>driver\<close>, and reports the documented reason otherwise: the id is looked at
  first, then foreign doors, then an empty list.
\<close>
lemma validate_command_reasons:
  "map_err reason (validate_command cmd) =
     (if lc_command_id cmd = [] then Inl ''invalid_command''
      else if \<not> set (lc_doors cmd) \<subseteq> {''driver''} then Inl ''unsupported_door''
      else if lc_doors cmd = [] then Inl ''invalid_command''
      else Inr ())"
proof (cases "find_unsupported (lc_doors cmd)")
  case None
  then have d: "\<forall>d \<in> set (lc_doors cmd). d = ''driver''" by (simp add: find_unsupported_None)
  then have "''driver'' \<in> set (lc_doors cmd) \<longleftrightarrow> lc_doors cmd \<noteq> []"
    by (cases "lc_doors cmd") auto
  with None d show ?thesis by (auto simp: validate_command_def)
next
  case (Some d)
  then have "\<not> set (lc_doors cmd) \<subseteq> {''driver''}" using find_unsupported_Some by blast
  with Some show ?thesis by (simp add: validate_command_def)
qed

section \<open>The safety gate\<close>

definition speed_reading :: "(broker_error + f32 option) \<Rightarrow> f32" where
  "speed_reading r = unwrap_or f32_zero (result_unwrap_or None r)"

definition door_reading :: "(broker_error + bool option) \<Rightarrow> bool" where
  "door_reading r = unwrap_or False (result_unwrap_or None r)"

lemma check_safety_Safe:
  "fst (check_safety bc w) = Safe \<longleftrightarrow>
     \<not> f32_ge (speed_reading (fst (get_float bc SIGNAL_SPEED w))) f32_one \<and>
     \<not> door_reading (fst (get_bool bc SIGNAL_DOOR_OPEN (snd (get_float bc SIGNAL_SPEED w))))"
  by (auto simp: check_safety_def speed_reading_def door_reading_def Let_def split: prod.splits)

lemma lock_state_after:
  "fst (snd (process_command ser clk bc cmd l w)) =
     (case lc_action cmd of Unlock \<Rightarrow> False | Lock \<Rightarrow> l \<or> fst (check_safety bc w) = Safe)"
  by (auto simp: process_command_def process_lock_def process_unlock_def
      split: action.splits prod.splits option.splits safety_result.splits if_splits)

text \<open>\<open>x < y\<close> on \<open>f32\<close>; the code compares with \<open>>=\<close>, which is false of NaN too.\<close>

definition f32_lt :: "f32 \<Rightarrow> f32 \<Rightarrow> bool" where
  "f32_lt x y = (\<not> f32_is_nan x \<and> \<not> f32_is_nan y \<and> f32_key x < f32_key y)"

lemma not_ge_one: "\<not> f32_ge x f32_one \<longleftrightarrow> f32_lt x f32_one \<or> f32_is_nan x"
proof -
  have "\<not> f32_is_nan f32_one" by (simp add: f32_is_nan_def f32_one_def)
  then show ?thesis by (auto simp: f32_ge_def f32_lt_def)
qed

text \<open>
  C2: For every broker client, a lock command turns an unlocked door locked exactly when the door it
  read was closed and the speed it read was below 1.0 or not a number: a NaN speed lets the command
  through. A refused lock command leaves the lock state as it was, and an unlock command always
  leaves it unlocked.
\<close>
theorem lock_state_gate:
  "fst (snd (process_command ser clk bc cmd l w)) =
     (case lc_action cmd of
        Unlock \<Rightarrow> False
      | Lock \<Rightarrow>
          let speed = speed_reading (fst (get_float bc SIGNAL_SPEED w));
              door_open = door_reading (fst (get_bool bc SIGNAL_DOOR_OPEN (snd (get_float bc SIGNAL_SPEED w))))
          in l \<or> ((f32_lt speed f32_one \<or> f32_is_nan speed) \<and> \<not> door_open))"
  by (simp only: lock_state_after check_safety_Safe not_ge_one Let_def)

text \<open>
  C13: The processor over the gRPC client implements the abstract lock: state and response are
  those of the specification at the outcome of the safety check, the time stamp is that of the
  clock right before the response is written, and the response then goes to the response signal.
\<close>
theorem process_command_refines:
  "\<exists>t1. case lock_spec (lc_action cmd) (fst (check_safety (grpc_client W) t)) l of
     (l', refusal) \<Rightarrow>
       process_command ser (w_clock W) (grpc_client W) cmd l t =
         (case spec_response ser (w_clock W t1) (lc_command_id cmd) refusal of
            None \<Rightarrow> (None, l', t1)
          | Some r \<Rightarrow> (Some r, l', snd (grpc_set_string W SIGNAL_RESPONSE r t1)))"
proof -
  obtain resp l' t' where p: "process_command ser (w_clock W) (grpc_client W) cmd l t = (resp, l', t')"
    by (metis prod_cases3)
  obtain t1 where t1: "l' = fst (lock_spec (lc_action cmd) (fst (check_safety (grpc_client W) t)) l)"
    "resp = spec_response ser (w_clock W t1) (lc_command_id cmd)
       (snd (lock_spec (lc_action cmd) (fst (check_safety (grpc_client W) t)) l))"
    "t' = (case resp of None \<Rightarrow> t1 | Some r \<Rightarrow> snd (set_string (grpc_client W) SIGNAL_RESPONSE r t1))"
    using grpc.process_refines [OF p] by metis
  show ?thesis
    using p t1 by (intro exI [of _ t1])
      (auto simp: case_prod_beta grpc_client_def split: option.splits)
qed

text \<open>
  C36: Reads that fail count as a standing vehicle with a closed door: when both reads report an
  error, a lock command is let through and the door counts as locked.
\<close>
theorem failing_reads_let_lock_through:
  assumes "\<not> is_ok (fst (get_float bc SIGNAL_SPEED w))"
    and "\<not> is_ok (fst (get_bool bc SIGNAL_DOOR_OPEN (snd (get_float bc SIGNAL_SPEED w))))"
    and "lc_action cmd = Lock"
  shows "fst (snd (process_command ser clk bc cmd l w))"
proof -
  have "fst (check_safety bc w) = Safe"
    using assms(1,2) by (simp add: check_safety_Safe speed_reading_def door_reading_def)
  then show ?thesis by (simp add: lock_state_after assms(3))
qed

definition deaf_world :: world where
  "deaf_world = calm_world\<lparr>w_get_value := (\<lambda>_ _. Inl ''unavailable'')\<rparr>"

definition lock_cmd :: "action \<Rightarrow> lock_command" where
  "lock_cmd a = \<lparr>lc_command_id = ''c1'', lc_action = a, lc_doors = [''driver''], lc_source = None,
     lc_vin = None, lc_timestamp = None\<rparr>"

lemma failing_reads_let_lock_through_witness:
  "fst (snd (process_command (\<lambda>_. ''r'') (w_clock deaf_world) (grpc_client deaf_world) (lock_cmd Lock) False []))"
  by (rule failing_reads_let_lock_through)
    (simp_all add: client_simps io_simps Let_def deaf_world_def lock_cmd_def)

section \<open>Reads and writes of a command\<close>

text \<open>
  Over the gRPC client an unlock command reads nothing from DATA_BROKER, and a lock command
  reads the speed, and the door only when the speed allows locking: one or two reads.
\<close>
lemma reads_of_a_command:
  "value_reads (snd (snd (process_command ser clk (grpc_client W) cmd l t))) =
     value_reads t +
     (case lc_action cmd of
        Unlock \<Rightarrow> 0
      | Lock \<Rightarrow> if fst (check_safety (grpc_client W) t) = VehicleMoving then 1 else 2)"
  by (metis grpc.process_reads prod.collapse)

text \<open>
  One command makes DATA_BROKER accept at most one write of the lock signal, only when the
  lock state changes and then with the new state, and at most one response, which is the one
  the processor returned.
\<close>
lemma writes_of_a_command:
  "case process_command ser clk (grpc_client W) cmd l t of
     (resp, l', t') \<Rightarrow>
       \<exists>b s. accepted_bools t' = accepted_bools t @ b \<and> accepted_strings t' = accepted_strings t @ s \<and>
         (b = [] \<or> b = [(SIGNAL_IS_LOCKED, l')] \<and> l' \<noteq> l) \<and>
         (s = [] \<or> (\<exists>r. resp = Some r \<and> s = [(SIGNAL_RESPONSE, r)]))"
  by (cases "process_command ser clk (grpc_client W) cmd l t")
    (auto dest!: grpc.process_writes)

section \<open>Answering payloads\<close>

text \<open>
  The command id that the answer to a payload carries; \<open>None\<close> when there is no answer: the parser of
  \<open>LockCommand\<close> reports a syntax error or the end of the text, or no id can be extracted.
\<close>

definition answer_id :: "lock_codec \<Rightarrow> string \<Rightarrow> string option" where
  "answer_id cd payload =
     (case parse_command (lk_de_cmd cd) payload of
        Inr cmd \<Rightarrow> Some (lc_command_id cmd)
      | Inl (InvalidJson _) \<Rightarrow> None
      | Inl _ \<Rightarrow> extract_command_id cd payload)"

text \<open>A response with the id, as it is printed.\<close>

definition answer_to :: "(json \<Rightarrow> string) \<Rightarrow> string \<Rightarrow> string \<Rightarrow> bool" where
  "answer_to ser cid s = (\<exists>r. s = ser (response_json r) \<and> cr_command_id r = cid)"

lemma response_answers:
  "success_response ser now cid = Some s \<Longrightarrow> answer_to ser cid s"
  "failure_response ser now cid why = Some s \<Longrightarrow> answer_to ser cid s"
  "spec_response ser now cid refusal = Some s \<Longrightarrow> answer_to ser cid s"
  by (force simp: success_response_def failure_response_def spec_response_def answer_to_def split: option.splits)+

lemma grpc_attempts:
  "attempted_strings (snd (grpc_set_string W p s t)) = attempted_strings t @ [(p, s)]"
  "attempted_strings (snd (grpc_set_bool W p b t)) = attempted_strings t"
  "attempted_strings (snd (grpc_get_float W p t)) = attempted_strings t"
  "attempted_strings (snd (grpc_get_bool W p t)) = attempted_strings t"
  by (auto simp: grpc_set_string_def grpc_set_bool_def grpc_get_float_def grpc_get_bool_def
      ask_publish_value_def ask_get_value_def Let_def split: sum.splits option.splits)

lemma grpc_ops:
  "get_float (grpc_client W) = grpc_get_float W" "get_bool (grpc_client W) = grpc_get_bool W"
  "set_bool (grpc_client W) = grpc_set_bool W" "set_string (grpc_client W) = grpc_set_string W"
  by (simp_all add: grpc_client_def)

lemma check_safety_attempts: "attempted_strings (snd (check_safety (grpc_client W) t)) = attempted_strings t"
  by (auto simp: check_safety_def grpc_ops Let_def case_prod_beta grpc_attempts)

lemma process_attempts:
  "process_command ser clk (grpc_client W) cmd l t = (resp, l', t') \<Longrightarrow>
     attempted_strings t' = attempted_strings t @ (case resp of None \<Rightarrow> [] | Some r \<Rightarrow> [(SIGNAL_RESPONSE, r)])"
proof -
  have "attempted_strings (snd (snd (process_lock ser clk (grpc_client W) cmd l t))) = attempted_strings t"
    using check_safety_attempts [of W t]
    by (cases "fst (check_safety (grpc_client W) t)")
      (auto simp: process_lock_def case_prod_beta grpc_ops grpc_attempts)
  moreover have "attempted_strings (snd (snd (process_unlock ser clk (grpc_client W) cmd l t))) = attempted_strings t"
    by (auto simp: process_unlock_def case_prod_beta grpc_ops grpc_attempts)
  moreover assume "process_command ser clk (grpc_client W) cmd l t = (resp, l', t')"
  ultimately show ?thesis
    by (cases "lc_action cmd")
      (auto simp: process_command_def case_prod_beta grpc_ops grpc_attempts split: option.splits)
qed

lemma grpc_set_string_accepted:
  "accepted_strings (snd (grpc_set_string W p s t)) \<in> {accepted_strings t, accepted_strings t @ [(p, s)]}"
  by (simp add: grpc_set_string_def ask_publish_value_def Let_def)

lemma handle_attempts:
  assumes "handle_command_payload cd W payload l t = (st, l', t')"
  shows "\<exists>rs. attempted_strings t' = attempted_strings t @ map (Pair SIGNAL_RESPONSE) rs \<and>
     accepted_strings t' \<in> {accepted_strings t, accepted_strings t @ map (Pair SIGNAL_RESPONSE) rs} \<and>
     (case st of
        None \<Rightarrow> rs = []
      | Some _ \<Rightarrow> list_all2 (answer_to (lk_ser cd)) (case answer_id cd payload of None \<Rightarrow> [] | Some i \<Rightarrow> [i]) rs)"
proof -
  have one: ?thesis if "st = Some ()" "answer_id cd payload = Some i" "answer_to (lk_ser cd) i r"
    "t' = snd (grpc_set_string W SIGNAL_RESPONSE r t)" for i r
    using that grpc_set_string_accepted [of W SIGNAL_RESPONSE r t]
    by (intro exI [of _ "[r]"]) (simp add: grpc_attempts)
  have none: ?thesis if "t' = t" "st = None \<or> answer_id cd payload = None"
    using that by (intro exI [of _ "[]"]) (auto split: option.split)
  show ?thesis
  proof (cases "parse_command (lk_de_cmd cd) payload")
    case (Inl e)
    show ?thesis
    proof (cases "answer_id cd payload")
      case None
      then show ?thesis using Inl assms none
        by (cases e) (auto simp: handle_command_payload_def answer_id_def split: option.splits)
    next
      case (Some i)
      then show ?thesis using Inl assms one [OF _ Some] none response_answers(2)
        by (cases "failure_response (lk_ser cd) (w_clock W t) i (reason e)"; cases e)
          (auto simp: handle_command_payload_def answer_id_def grpc_ops)
    qed
  next
    case (Inr cmd)
    obtain resp l1 t1 where p: "process_command (lk_ser cd) (w_clock W) (grpc_client W) cmd l t = (resp, l1, t1)"
      by (metis prod_cases3)
    show ?thesis
    proof (cases "validate_command cmd")
      case (Inl e)
      have "answer_id cd payload = Some (lc_command_id cmd)" using Inr by (simp add: answer_id_def)
      with Inl show ?thesis using Inr assms one none response_answers(2)
        by (cases "failure_response (lk_ser cd) (w_clock W t) (lc_command_id cmd) (reason e)")
          (auto simp: handle_command_payload_def grpc_ops)
    next
      case v: (Inr u)
      have st: "t' = t1" "st = map_option (\<lambda>_. ()) resp"
        using Inr v p assms by (auto simp: handle_command_payload_def split: option.splits)
      have a: "resp = Some r \<Longrightarrow> answer_to (lk_ser cd) (lc_command_id cmd) r" for r
        using grpc.process_refines [OF p] response_answers(3) by metis
      show ?thesis
        using process_attempts [OF p] grpc.process_writes [OF p] a Inr
        by (intro exI [of _ "case resp of None \<Rightarrow> [] | Some r \<Rightarrow> [r]"])
          (auto simp: st answer_id_def split: option.splits)
    qed
  qed
qed

text \<open>
  C19: Handling a payload tries to publish at most one string, on the response signal, of which
  DATA_BROKER accepts at most that one. It is one response with the id of the command when the parser
  of \<open>LockCommand\<close> accepts the text, or refuses it for its data and an id can be extracted; it is none
  when that parser reports a syntax error or the end of the text, when there is no id, or when building
  the response panicked. serde_json reports a syntax error for some texts that are JSON, too
  (\<open>"action": 5\<close>), so that such a command is dropped in silence although it carries an id.
\<close>
theorem payload_answered_once:
  "case handle_command_payload cd W payload l t of
     (status, l', t') \<Rightarrow>
       \<exists>rs. attempted_strings t' = attempted_strings t @ map (Pair SIGNAL_RESPONSE) rs \<and>
         accepted_strings t' \<in> {accepted_strings t, accepted_strings t @ map (Pair SIGNAL_RESPONSE) rs} \<and>
         (case status of
            None \<Rightarrow> rs = []
          | Some _ \<Rightarrow> list_all2 (answer_to (lk_ser cd)) (case answer_id cd payload of None \<Rightarrow> [] | Some i \<Rightarrow> [i]) rs)"
  using handle_attempts by (cases "handle_command_payload cd W payload l t") simp

text \<open>
  A text whose parse as a \<open>LockCommand\<close> fails with a syntax error has no effect, also when it is JSON
  and carries an id.
\<close>
lemma syntax_error_is_silent:
  assumes "lk_de_cmd cd payload = Inl e" and "is_syntax e"
  shows "handle_command_payload cd W payload l t = (Some (), l, t)"
  using assms by (simp add: handle_command_payload_def parse_command_def)

section \<open>The lock state and the lock signal\<close>

definition last_on :: "string \<Rightarrow> (string \<times> 'a) list \<Rightarrow> 'a option" where
  "last_on sig xs = map_of (rev xs) sig"

lemma last_on_append [simp]: "last_on sig (xs @ [(sig, v)]) = Some v"
  by (simp add: last_on_def)

definition takes_lock_writes :: "world \<Rightarrow> bool" where
  "takes_lock_writes W =
     (\<forall>t b. is_ok (w_publish_value W t (publish_request SIGNAL_IS_LOCKED (TBool b))))"

lemma takes_lock_writes_grpc:
  "takes_lock_writes W \<Longrightarrow> is_ok (fst (set_bool (grpc_client W) SIGNAL_IS_LOCKED v t))"
  by (simp add: takes_lock_writes_def grpc_ops grpc_set_bool_def ask_publish_value_def Let_def)

lemma set_string_bools: "accepted_bools (snd (set_string (grpc_client W) p x u)) = accepted_bools u"
  using grpc.set_string_log by (metis prod.collapse)

lemma handle_signal:
  assumes "handle_command_payload cd W payload l t = (st, l', t')" and "takes_lock_writes W"
    and "last_on SIGNAL_IS_LOCKED (accepted_bools t) = Some l"
  shows "last_on SIGNAL_IS_LOCKED (accepted_bools t') = Some l'"
proof -
  have c: "last_on SIGNAL_IS_LOCKED (accepted_bools t1) = Some l1"
    if "process_command (lk_ser cd) (w_clock W) (grpc_client W) cmd l t = (resp, l1, t1)" for cmd resp l1 t1
    using grpc.process_lock_signal [OF that takes_lock_writes_grpc [OF assms(2)]] assms(3) by auto
  show ?thesis
    using assms(1,3) c set_string_bools
    by (auto simp: handle_command_payload_def split: sum.splits command_error.splits option.splits prod.splits)
qed

lemma serve_signal:
  "takes_lock_writes W \<Longrightarrow> last_on SIGNAL_IS_LOCKED (accepted_bools t) = Some l \<Longrightarrow>
     (case serve_loop cd W ps l n t of
        (res, l', n', t') \<Rightarrow> last_on SIGNAL_IS_LOCKED (accepted_bools t') = Some l')"
proof (induction cd W ps l n t rule: serve_loop.induct)
  case (2 cd W p ps l n t)
  show ?case
  proof (cases "rx_ready p")
    case None
    then show ?thesis using 2 by simp
  next
    case (Some r)
    show ?thesis
    proof (cases r)
      case (Payload x)
      obtain st l1 t1 where h: "handle_command_payload cd W x l t = (st, l1, t1)" by (metis prod_cases3)
      have "last_on SIGNAL_IS_LOCKED (accepted_bools t1) = Some l1"
        by (rule handle_signal [OF h 2(4,5)])
      then show ?thesis using Some Payload h 2(2) [OF Some Payload h [symmetric]] 2(4)
        by (cases st) simp_all
    next
      case StreamEnded
      obtain rs t1 where s: "subscribe W SIGNAL_COMMAND t = (rs, t1)" by fastforce
      then have "accepted_bools t1 = accepted_bools t"
        by (auto simp: subscribe_def ask_subscribe_def Let_def)
      then show ?thesis using Some StreamEnded s 2(3) [OF Some StreamEnded _ s [symmetric]] 2(4,5)
        by (cases rs) simp_all
    qed
  qed
qed simp

lemma run_signal:
  assumes "is_ok (fst (connect W (get_databroker_addr W) t))" and "takes_lock_writes W"
  shows "case run cd W polls t of
           (res, l', t') \<Rightarrow> last_on SIGNAL_IS_LOCKED (accepted_bools t') = Some l'"
proof -
  obtain u t1 where c: "connect W (get_databroker_addr W) t = (Inr u, t1)"
    using assms(1) by (cases "connect W (get_databroker_addr W) t") (auto simp: is_ok_iff)
  obtain v t2 where b: "set_bool (grpc_client W) SIGNAL_IS_LOCKED False t1 = (Inr v, t2)"
    using takes_lock_writes_grpc [OF assms(2), of False t1] by (metis is_ok_iff prod.collapse)
  then have l: "last_on SIGNAL_IS_LOCKED (accepted_bools t2) = Some False"
    using grpc.set_bool_log [OF b] by simp
  obtain s t3 where sub: "subscribe W SIGNAL_COMMAND t2 = (s, t3)" by fastforce
  have "accepted_bools t3 = accepted_bools t2"
    using sub by (auto simp: subscribe_def ask_subscribe_def Let_def)
  with l c b sub show ?thesis
    using serve_signal [OF assms(2), of t3 False cd polls 0]
    by (cases s) (simp_all add: run_def split: prod.splits)
qed

text \<open>
  C3: Once the service is connected, and as long as DATA_BROKER takes the writes of the lock
  signal, the last value it holds for the signal is the lock state of the service: at the end of
  every run, for every sequence of payloads, stream ends and shutdown requests.
\<close>
theorem lock_signal_agrees:
  assumes "is_ok (fst (connect W (get_databroker_addr W) t))" and "takes_lock_writes W"
  shows "case run cd W polls t of
           (res, l', t') \<Rightarrow> last_on SIGNAL_IS_LOCKED (accepted_bools t') = Some l'"
  by (rule run_signal [OF assms])

definition tiny_codec :: lock_codec where
  "tiny_codec =
     \<lparr>lk_de_cmd = (\<lambda>s. if s = ''lock'' then Inr (lock_cmd Lock)
                       else Inl \<lparr>se_category = CatSyntax, se_text = ''expected value''\<rparr>),
      lk_de_value = (\<lambda>_. Inl \<lparr>se_category = CatSyntax, se_text = ''expected value''\<rparr>),
      lk_ser = (\<lambda>_. ''response'')\<rparr>"

definition payload_poll :: "string \<Rightarrow> poll" where
  "payload_poll s = \<lparr>rx_ready = Some (Payload s), shutdown_ready = False\<rparr>"

lemma calm_connect: "connect calm_world addr [] = (Inr (), [EvConnect addr (Inr ())])"
  by (simp add: connect_def connect_body_def MAX_ATTEMPTS_def upt_rec io_simps Let_def calm_world_def)

lemma lock_signal_agrees_witness:
  "case run tiny_codec calm_world [payload_poll ''lock''] [] of
     (res, l', t') \<Rightarrow> last_on SIGNAL_IS_LOCKED (accepted_bools t') = Some l'"
  by (rule lock_signal_agrees) (simp add: calm_connect, simp add: takes_lock_writes_def calm_world_def)

text \<open>
  Commands that are processed one after the other, each meeting a world of its own.
\<close>

fun process_each :: "(json \<Rightarrow> string) \<Rightarrow> (world \<times> lock_command) list \<Rightarrow> bool \<times> trace \<Rightarrow> bool \<times> trace" where
  "process_each ser [] st = st"
| "process_each ser ((W, cmd) # rest) (l, t) =
     (case process_command ser (w_clock W) (grpc_client W) cmd l t of
        (resp, l', t') \<Rightarrow> process_each ser rest (l', t'))"

lemma locked_stays_unwritten:
  "list_all (\<lambda>(W, cmd). lc_action cmd = Lock) rest \<Longrightarrow>
     fst (process_each ser rest (True, t)) \<and>
     accepted_bools (snd (process_each ser rest (True, t))) = accepted_bools t"
proof (induction rest arbitrary: t)
  case (Cons c rest)
  obtain W cmd where c: "c = (W, cmd)" by fastforce
  obtain resp l' t' where p: "process_command ser (w_clock W) (grpc_client W) cmd True t = (resp, l', t')"
    by (metis prod_cases3)
  then have "l'" using lock_state_after [of ser "w_clock W" "grpc_client W" cmd True t] Cons.prems c by simp
  moreover from this have "accepted_bools t' = accepted_bools t" using grpc.process_writes [OF p] by auto
  ultimately show ?case using Cons p c by simp
qed simp

text \<open>
  C31: When DATA_BROKER refuses the write of the lock signal, the command is still answered with
  success and the service counts the door as locked; and until the next unlock command, no lock
  commands that follow, however many and whichever they are, get the signal written, even when
  DATA_BROKER takes writes again.
\<close>
theorem refused_lock_write_succeeds:
  assumes "lc_action cmd = Lock" and "fst (check_safety (grpc_client W) t) = Safe"
    and "\<And>u. \<not> is_ok (w_publish_value W u (publish_request SIGNAL_IS_LOCKED (TBool True)))"
    and "list_all (\<lambda>(W', cmd'). lc_action cmd' = Lock) later"
  shows "case process_command ser (w_clock W) (grpc_client W) cmd False t of
     (resp, l', t') \<Rightarrow>
       l' \<and> accepted_bools t' = accepted_bools t \<and>
       (\<exists>t1. resp = success_response ser (w_clock W t1) (lc_command_id cmd)) \<and>
       fst (process_each ser later (l', t')) \<and>
       accepted_bools (snd (process_each ser later (l', t'))) = accepted_bools t"
proof -
  obtain resp l' t' where p: "process_command ser (w_clock W) (grpc_client W) cmd False t = (resp, l', t')"
    by (metis prod_cases3)
  have locked: "l'"
    using lock_state_after [of ser "w_clock W" "grpc_client W" cmd False t] p assms(1,2) by simp
  obtain u where sv: "check_safety (grpc_client W) t = (Safe, u)" "accepted_bools u = accepted_bools t"
    using assms(2) grpc.check_safety_frame by (metis prod.collapse)
  obtain rb u1 where sb: "set_bool (grpc_client W) SIGNAL_IS_LOCKED True u = (rb, u1)" by fastforce
  have "\<not> is_ok rb"
    using sb assms(3) [of u] by (auto simp: grpc_ops grpc_set_bool_def ask_publish_value_def Let_def)
  then have u1: "accepted_bools u1 = accepted_bools t"
    using grpc.set_bool_log [OF sb] sv(2) by simp
  have "process_lock ser (w_clock W) (grpc_client W) cmd False t =
      (success_response ser (w_clock W u1) (lc_command_id cmd), True, u1)"
    by (simp add: process_lock_def sv(1) sb)
  then have "(resp, l', t') = (case success_response ser (w_clock W u1) (lc_command_id cmd) of
      None \<Rightarrow> (None, True, u1)
    | Some x \<Rightarrow> (Some x, True, snd (set_string (grpc_client W) SIGNAL_RESPONSE x u1)))"
    using p by (auto simp: process_command_def assms(1) split: option.splits prod.splits)
  then have "resp = success_response ser (w_clock W u1) (lc_command_id cmd)"
    and "accepted_bools t' = accepted_bools t"
    using u1 set_string_bools by (simp_all split: option.splits)
  then show ?thesis using p locked locked_stays_unwritten [OF assms(4), of ser t'] by auto
qed

definition stubborn_world :: world where
  "stubborn_world = calm_world\<lparr>w_publish_value := (\<lambda>_ _. Inl ''read only'')\<rparr>"

lemma refused_lock_write_succeeds_witness:
  "case process_command (\<lambda>_. ''r'') (w_clock stubborn_world) (grpc_client stubborn_world) (lock_cmd Lock) False [] of
     (resp, l', t') \<Rightarrow> l' \<and>
       accepted_bools (snd (process_each (\<lambda>_. ''r'') [(calm_world, (lock_cmd Lock)\<lparr>lc_command_id := ''c2''\<rparr>)] (l', t'))) = []"
proof -
  have safe: "fst (check_safety (grpc_client stubborn_world) []) = Safe"
    by (simp add: check_safety_Safe speed_reading_def door_reading_def grpc_ops grpc_get_float_def
        grpc_get_bool_def ask_get_value_def Let_def stubborn_world_def calm_world_def)
  have refused: "\<not> is_ok (w_publish_value stubborn_world u q)" for u q by (simp add: stubborn_world_def)
  have later: "list_all (\<lambda>(W', cmd'). lc_action cmd' = Lock) [(calm_world, (lock_cmd Lock)\<lparr>lc_command_id := ''c2''\<rparr>)]"
    by (simp add: lock_cmd_def)
  from refused_lock_write_succeeds [OF _ safe refused later, of "lock_cmd Lock" "\<lambda>_. ''r''"]
  show ?thesis by (auto simp: lock_cmd_def case_prod_beta)
qed

section \<open>Resubscription and shutdown\<close>

definition quiet :: "poll \<Rightarrow> bool" where
  "quiet p = (case rx_ready p of None \<Rightarrow> \<not> shutdown_ready p | Some r \<Rightarrow> r = StreamEnded)"

definition stream_ends :: "poll list \<Rightarrow> nat" where
  "stream_ends ps = length (filter (\<lambda>p. rx_ready p = Some StreamEnded) ps)"

text \<open>
  Without payloads and with subscriptions that succeed, the service survives exactly three
  ends of the command stream; the fourth stops it with the error \<open>subscription lost\<close>.
\<close>
lemma resubscription_bound:
  assumes "\<And>u q. is_ok (w_subscribe W u q)" and "list_all quiet ps" and "c \<le> 3"
  shows "fst (serve_loop cd W ps l c t) =
     (if c + stream_ends ps \<le> 3 then Serving else ServeError ''subscription lost'')"
  using assms(2,3)
proof (induction ps arbitrary: c t)
  case Nil
  then show ?case by (simp add: stream_ends_def)
next
  case (Cons p ps)
  have sub: "subscribe W SIGNAL_COMMAND t = (Inr (), snd (subscribe W SIGNAL_COMMAND t))"
    using assms(1) by (simp add: subscribe_def ask_subscribe_def Let_def map_err_def split: sum.splits)
      (metis is_ok_simps(1))
  show ?case
  proof (cases "rx_ready p")
    case None
    then show ?thesis using Cons by (simp add: quiet_def stream_ends_def)
  next
    case (Some r)
    then have e: "rx_ready p = Some StreamEnded" using Cons.prems by (simp add: quiet_def)
    show ?thesis
      using e sub Cons.prems Cons.IH [of "c + 1" "snd (subscribe W SIGNAL_COMMAND t)"]
      by (auto simp: stream_ends_def max_resubscribe_attempts_def split: prod.splits)
  qed
qed

text \<open>
  The select of the service loop is biased to the subscription: as long as every poll finds
  the stream ready, the shutdown request is not looked at and the service never shuts down.
\<close>
lemma shutdown_waits_for_payloads:
  assumes "list_all (\<lambda>p. rx_ready p \<noteq> None) ps"
  shows "fst (serve_loop cd W ps l c t) \<noteq> ShutDown"
  using assms
proof (induction cd W ps l c t rule: serve_loop.induct)
  case (2 cd W p ps l c t)
  then show ?case
    by (auto split: option.splits recv.splits prod.splits sum.splits if_splits)
qed simp

end
