(* ===== verification/Gateway.thy ===== *)
theory Gateway
  imports World
begin

text \<open>
  rhivos/cloud-gateway-client/src: configuration, messages and errors, the validation of commands
  from the cloud, telemetry aggregation, the NATS and DATA_BROKER clients, the start-up sequence
  and the three tasks of main.rs with their interleavings. Names that other services also use
  carry the suffix \<open>_gw\<close>.
\<close>

section \<open>Errors\<close>

datatype config_error_gw = MissingVin

fun show_config_error_gw :: "config_error_gw \<Rightarrow> string" where
  "show_config_error_gw MissingVin = ''required environment variable VIN is not set''"

datatype auth_error = MissingHeader | InvalidToken

fun show_auth_error :: "auth_error \<Rightarrow> string" where
  "show_auth_error MissingHeader = ''missing Authorization header''"
| "show_auth_error InvalidToken = ''invalid bearer token''"

datatype validation_error = VInvalidJson string | VMissingField string | VInvalidAction string

fun show_validation_error :: "validation_error \<Rightarrow> string" where
  "show_validation_error (VInvalidJson msg) = ''invalid JSON: '' @ msg"
| "show_validation_error (VMissingField field) = ''missing required field: '' @ field"
| "show_validation_error (VInvalidAction act) = ''invalid action: '' @ act"

datatype nats_error =
    NatsConnectionFailed string | RetriesExhausted | PublishFailed string | NatsSubscribeFailed string

fun show_nats_error :: "nats_error \<Rightarrow> string" where
  "show_nats_error (NatsConnectionFailed msg) = ''NATS connection failed: '' @ msg"
| "show_nats_error RetriesExhausted = ''NATS connection retries exhausted''"
| "show_nats_error (PublishFailed msg) = ''NATS publish failed: '' @ msg"
| "show_nats_error (NatsSubscribeFailed msg) = ''NATS subscribe failed: '' @ msg"

datatype broker_error_gw =
    BrokerConnectionFailed string | WriteFailed string | BrokerSubscribeFailed string

fun show_broker_error_gw :: "broker_error_gw \<Rightarrow> string" where
  "show_broker_error_gw (BrokerConnectionFailed msg) = ''DATA_BROKER connection failed: '' @ msg"
| "show_broker_error_gw (WriteFailed msg) = ''DATA_BROKER write failed: '' @ msg"
| "show_broker_error_gw (BrokerSubscribeFailed msg) = ''DATA_BROKER subscribe failed: '' @ msg"

section \<open>Configuration\<close>

definition DEFAULT_NATS_URL :: string where "DEFAULT_NATS_URL = ''nats://localhost:4222''"
definition DEFAULT_DATABROKER_ADDR_gw :: string where
  "DEFAULT_DATABROKER_ADDR_gw = ''http://localhost:55556''"
definition DEFAULT_BEARER_TOKEN :: string where "DEFAULT_BEARER_TOKEN = ''demo-token''"

record config_gw =
  gc_vin :: string
  gc_nats_url :: string
  gc_databroker_addr :: string
  gc_bearer_token :: string

definition from_env_gw :: "world \<Rightarrow> config_error_gw + config_gw" where
  "from_env_gw W =
     (case w_env W ''VIN'' of
        None \<Rightarrow> Inl MissingVin
      | Some vin \<Rightarrow> Inr
          \<lparr>gc_vin = vin,
           gc_nats_url = unwrap_or DEFAULT_NATS_URL (w_env W ''NATS_URL''),
           gc_databroker_addr = unwrap_or DEFAULT_DATABROKER_ADDR_gw (w_env W ''DATABROKER_ADDR''),
           gc_bearer_token = unwrap_or DEFAULT_BEARER_TOKEN (w_env W ''BEARER_TOKEN'')\<rparr>)"

section \<open>Messages\<close>

record command_payload =
  cp_command_id :: string
  cp_action :: string
  cp_doors :: "string list"
  cp_extra :: "(string \<times> json) list"

record telemetry_message =
  tm_vin :: string
  tm_is_locked :: "bool option"
  tm_latitude :: "f64 option"
  tm_longitude :: "f64 option"
  tm_parking_active :: "bool option"
  tm_timestamp :: "64 word"

record registration_message =
  rm_vin :: string
  rm_status :: string
  rm_timestamp :: "64 word"

datatype signal_update = IsLocked bool | Latitude f64 | Longitude f64 | ParkingActive bool

definition opt_field :: "string \<Rightarrow> json option \<Rightarrow> (string \<times> json) list" where
  "opt_field k v = (case v of None \<Rightarrow> [] | Some j \<Rightarrow> [(k, j)])"

definition telemetry_json :: "telemetry_message \<Rightarrow> json" where
  "telemetry_json m =
     JObj ([(''vin'', JStr (tm_vin m))]
           @ opt_field ''is_locked'' (map_option JBool (tm_is_locked m))
           @ opt_field ''latitude'' (map_option JFloat (tm_latitude m))
           @ opt_field ''longitude'' (map_option JFloat (tm_longitude m))
           @ opt_field ''parking_active'' (map_option JBool (tm_parking_active m))
           @ [(''timestamp'', JInt (uint (tm_timestamp m)))])"

definition registration_json :: "registration_message \<Rightarrow> json" where
  "registration_json m =
     JObj [(''vin'', JStr (rm_vin m)), (''status'', JStr (rm_status m)),
           (''timestamp'', JInt (uint (rm_timestamp m)))]"

text \<open>The functions of serde_json that the service calls, by the types it calls them at.\<close>

record gateway_codec =
  gj_slice_value :: "string \<Rightarrow> serde_error + json"
  gj_slice_payload :: "string \<Rightarrow> serde_error + command_payload"
  gj_str_value :: "string \<Rightarrow> serde_error + json"
  gj_ser :: "json \<Rightarrow> string"

section \<open>Validation of a command\<close>

definition validate_bearer_token :: "(string \<times> string) list \<Rightarrow> string \<Rightarrow> auth_error + unit" where
  "validate_bearer_token headers expected_token =
     (case map_of headers ''Authorization'' of
        None \<Rightarrow> Inl MissingHeader
      | Some auth_value \<Rightarrow>
          (let expected = ''Bearer '' @ expected_token in
           if auth_value = expected then Inr () else Inl InvalidToken))"

definition validate_command_payload :: "gateway_codec \<Rightarrow> string \<Rightarrow> validation_error + command_payload" where
  "validate_command_payload cd payload =
     (case gj_slice_value cd payload of
        Inl e \<Rightarrow> Inl (VInvalidJson (se_text e))
      | Inr v \<Rightarrow>
     (case as_object v of
        None \<Rightarrow> Inl (VInvalidJson ''expected JSON object'')
      | Some obj \<Rightarrow>
     (case Option.bind (map_of obj ''command_id'') as_str of
        None \<Rightarrow> Inl (VMissingField ''command_id'')
      | Some cid \<Rightarrow> if cid = [] then Inl (VMissingField ''command_id'') else
     (case Option.bind (map_of obj ''action'') as_str of
        None \<Rightarrow> Inl (VMissingField ''action'')
      | Some act \<Rightarrow>
          if \<not> (act = ''lock'' \<or> act = ''unlock'') then Inl (VInvalidAction act) else
     (case map_of obj ''doors'' of
        None \<Rightarrow> Inl (VMissingField ''doors'')
      | Some ds \<Rightarrow> if \<not> is_array ds then Inl (VMissingField ''doors'') else
          map_err (\<lambda>e. VInvalidJson (se_text e)) (gj_slice_payload cd payload))))))"

section \<open>Telemetry\<close>

record telemetry_state =
  ts_vin :: string
  ts_is_locked :: "bool option"
  ts_latitude :: "f64 option"
  ts_longitude :: "f64 option"
  ts_parking_active :: "bool option"

definition telemetry_new :: "string \<Rightarrow> telemetry_state" where
  "telemetry_new vin =
     \<lparr>ts_vin = vin, ts_is_locked = None, ts_latitude = None, ts_longitude = None,
      ts_parking_active = None\<rparr>"

text \<open>\<open>==\<close> on \<open>Option<f64>\<close>.\<close>

fun f64_opt_eq :: "f64 option \<Rightarrow> f64 option \<Rightarrow> bool" where
  "f64_opt_eq None None = True"
| "f64_opt_eq (Some x) (Some y) = f64_eq x y"
| "f64_opt_eq _ _ = False"

fun telemetry_set :: "signal_update \<Rightarrow> telemetry_state \<Rightarrow> bool \<times> telemetry_state" where
  "telemetry_set (IsLocked v) st = (ts_is_locked st \<noteq> Some v, st\<lparr>ts_is_locked := Some v\<rparr>)"
| "telemetry_set (Latitude v) st = (\<not> f64_opt_eq (ts_latitude st) (Some v), st\<lparr>ts_latitude := Some v\<rparr>)"
| "telemetry_set (Longitude v) st = (\<not> f64_opt_eq (ts_longitude st) (Some v), st\<lparr>ts_longitude := Some v\<rparr>)"
| "telemetry_set (ParkingActive v) st =
     (ts_parking_active st \<noteq> Some v, st\<lparr>ts_parking_active := Some v\<rparr>)"

text \<open>\<open>TelemetryState::update\<close>; the result is \<open>None\<close> if it panicked (a clock before 1970).\<close>

definition telemetry_update ::
    "(json \<Rightarrow> string) \<Rightarrow> 64 word option \<Rightarrow> signal_update \<Rightarrow> telemetry_state
     \<Rightarrow> string option option \<times> telemetry_state" where
  "telemetry_update ser now sig st =
     (case telemetry_set sig st of
        (changed, st') \<Rightarrow>
          if \<not> changed then (Some None, st')
          else (case now of
                  None \<Rightarrow> (None, st')
                | Some secs \<Rightarrow>
                    (Some (Some (ser (telemetry_json
                       \<lparr>tm_vin = ts_vin st', tm_is_locked = ts_is_locked st',
                        tm_latitude = ts_latitude st', tm_longitude = ts_longitude st',
                        tm_parking_active = ts_parking_active st', tm_timestamp = secs\<rparr>))), st')))"

section \<open>The NATS client\<close>

text \<open>The client keeps the VIN; the connection itself is the world's.\<close>

definition MAX_ATTEMPTS_nats :: nat where "MAX_ATTEMPTS_nats = 5"
definition backoff_delays :: "nat list" where "backoff_delays = [1, 2, 4, 8]"

definition nats_connect_body :: "world \<Rightarrow> string \<Rightarrow> nat \<Rightarrow> trace \<Rightarrow> (nats_error + unit) \<times> trace" where
  "nats_connect_body W url attempt t =
     (case ask_nats_connect W url t of
        (Inr client, t') \<Rightarrow> (Inr client, t')
      | (Inl err, t') \<Rightarrow>
          (Inl RetriesExhausted,
           if attempt < MAX_ATTEMPTS_nats - 1 then sleep_ms (1000 * backoff_delays ! attempt) t' else t'))"

fun nats_connect_loop :: "world \<Rightarrow> string \<Rightarrow> nat list \<Rightarrow> nats_error \<Rightarrow> trace \<Rightarrow> (nats_error + unit) \<times> trace" where
  "nats_connect_loop W url [] err t = (Inl err, t)"
| "nats_connect_loop W url (attempt # rest) err t =
     (case nats_connect_body W url attempt t of
        (Inr client, t') \<Rightarrow> (Inr client, t')
      | (Inl e, t') \<Rightarrow> nats_connect_loop W url rest e t')"

definition nats_connect :: "world \<Rightarrow> config_gw \<Rightarrow> trace \<Rightarrow> (nats_error + string) \<times> trace" where
  "nats_connect W config t =
     (case nats_connect_loop W (gc_nats_url config) [0..<MAX_ATTEMPTS_nats] RetriesExhausted t of
        (Inr _, t') \<Rightarrow> (Inr (gc_vin config), t')
      | (Inl e, t') \<Rightarrow> (Inl e, t'))"

definition subject :: "string \<Rightarrow> string \<Rightarrow> string" where
  "subject vin kind = ''vehicles.'' @ vin @ ''.'' @ kind"

definition subscribe_commands :: "world \<Rightarrow> string \<Rightarrow> trace \<Rightarrow> (nats_error + unit) \<times> trace" where
  "subscribe_commands W vin t =
     (case ask_nats_subscribe W (subject vin ''commands'') t of
        (r, t') \<Rightarrow> (map_err NatsSubscribeFailed r, t'))"

text \<open>The result is \<open>None\<close> if it panicked.\<close>

definition publish_registration ::
    "gateway_codec \<Rightarrow> world \<Rightarrow> string \<Rightarrow> trace \<Rightarrow> (nats_error + unit) option \<times> trace" where
  "publish_registration cd W vin t =
     (case w_clock W t of
        None \<Rightarrow> (None, t)
      | Some timestamp \<Rightarrow>
          (case ask_nats_publish W (subject vin ''status'')
                  (gj_ser cd (registration_json
                     \<lparr>rm_vin = vin, rm_status = ''online'', rm_timestamp = timestamp\<rparr>)) t of
             (r, t') \<Rightarrow> (Some (map_err PublishFailed r), t')))"

definition publish_response :: "world \<Rightarrow> string \<Rightarrow> string \<Rightarrow> trace \<Rightarrow> (nats_error + unit) \<times> trace" where
  "publish_response W vin json t =
     (case ask_nats_publish W (subject vin ''command_responses'') json t of
        (r, t') \<Rightarrow> (map_err PublishFailed r, t'))"

definition publish_telemetry :: "world \<Rightarrow> string \<Rightarrow> string \<Rightarrow> trace \<Rightarrow> (nats_error + unit) \<times> trace" where
  "publish_telemetry W vin json t =
     (case ask_nats_publish W (subject vin ''telemetry'') json t of
        (r, t') \<Rightarrow> (map_err PublishFailed r, t'))"

section \<open>The DATA_BROKER client\<close>

definition SIGNAL_IS_LOCKED_gw :: string where
  "SIGNAL_IS_LOCKED_gw = ''Vehicle.Cabin.Door.Row1.DriverSide.IsLocked''"
definition SIGNAL_LATITUDE :: string where "SIGNAL_LATITUDE = ''Vehicle.CurrentLocation.Latitude''"
definition SIGNAL_LONGITUDE :: string where "SIGNAL_LONGITUDE = ''Vehicle.CurrentLocation.Longitude''"
definition SIGNAL_PARKING_ACTIVE :: string where "SIGNAL_PARKING_ACTIVE = ''Vehicle.Parking.SessionActive''"
definition SIGNAL_COMMAND_gw :: string where "SIGNAL_COMMAND_gw = ''Vehicle.Command.Door.Lock''"
definition SIGNAL_RESPONSE_gw :: string where "SIGNAL_RESPONSE_gw = ''Vehicle.Command.Door.Response''"

lemmas signal_gw_defs = SIGNAL_IS_LOCKED_gw_def SIGNAL_LATITUDE_def SIGNAL_LONGITUDE_def
  SIGNAL_PARKING_ACTIVE_def SIGNAL_COMMAND_gw_def SIGNAL_RESPONSE_gw_def

definition TELEMETRY_SIGNALS :: "string list" where
  "TELEMETRY_SIGNALS = [SIGNAL_IS_LOCKED_gw, SIGNAL_LATITUDE, SIGNAL_LONGITUDE, SIGNAL_PARKING_ACTIVE]"

definition connect_gw :: "world \<Rightarrow> config_gw \<Rightarrow> trace \<Rightarrow> (broker_error_gw + unit) \<times> trace" where
  "connect_gw W config t =
     (case ask_connect W (gc_databroker_addr config) t of
        (r, t') \<Rightarrow> (map_err BrokerConnectionFailed r, t'))"

definition write_command :: "world \<Rightarrow> string \<Rightarrow> trace \<Rightarrow> (broker_error_gw + unit) \<times> trace" where
  "write_command W payload t =
     (case ask_publish_value W (publish_request SIGNAL_COMMAND_gw (TString payload)) t of
        (r, t') \<Rightarrow> (map_err (\<lambda>e. WriteFailed (''write_command: '' @ e)) r, t'))"

definition subscribe_responses :: "world \<Rightarrow> trace \<Rightarrow> (broker_error_gw + unit) \<times> trace" where
  "subscribe_responses W t =
     (case ask_subscribe W \<lparr>sub_paths = [SIGNAL_RESPONSE_gw], sub_buffer_size = 0\<rparr> t of
        (r, t') \<Rightarrow> (map_err (\<lambda>e. BrokerSubscribeFailed (''subscribe_responses: '' @ e)) r, t'))"

definition subscribe_telemetry :: "world \<Rightarrow> trace \<Rightarrow> (broker_error_gw + unit) \<times> trace" where
  "subscribe_telemetry W t =
     (case ask_subscribe W \<lparr>sub_paths = TELEMETRY_SIGNALS, sub_buffer_size = 0\<rparr> t of
        (r, t') \<Rightarrow> (map_err (\<lambda>e. BrokerSubscribeFailed (''subscribe_telemetry: '' @ e)) r, t'))"

text \<open>
  The two spawned tasks, over the items of their streams. \<open>room\<close> is the number of sends the
  receiver is still there for; a send without room fails and ends the task.
\<close>

fun forward_responses :: "nat \<Rightarrow> (string + entries) list \<Rightarrow> string list" where
  "forward_responses room [] = []"
| "forward_responses room (Inl e # items) = []"
| "forward_responses room (Inr es # items) =
     (case map_of es SIGNAL_RESPONSE_gw of
        Some dp \<Rightarrow>
          (case dp_value dp of
             Some (Some (TString s)) \<Rightarrow>
               (case room of 0 \<Rightarrow> [] | Suc room' \<Rightarrow> s # forward_responses room' items)
           | _ \<Rightarrow> forward_responses room items)
      | None \<Rightarrow> forward_responses room items)"

definition to_update :: "string \<Rightarrow> tvalue option \<Rightarrow> signal_update option" where
  "to_update path tv =
     (if path = SIGNAL_IS_LOCKED_gw then (case tv of Some (TBool v) \<Rightarrow> Some (IsLocked v) | _ \<Rightarrow> None)
      else if path = SIGNAL_LATITUDE then (case tv of Some (TDouble v) \<Rightarrow> Some (Latitude v) | _ \<Rightarrow> None)
      else if path = SIGNAL_LONGITUDE then (case tv of Some (TDouble v) \<Rightarrow> Some (Longitude v) | _ \<Rightarrow> None)
      else if path = SIGNAL_PARKING_ACTIVE then (case tv of Some (TBool v) \<Rightarrow> Some (ParkingActive v) | _ \<Rightarrow> None)
      else None)"

text \<open>The second component is \<open>None\<close> when a send failed and the task returned.\<close>

fun forward_entries :: "nat \<Rightarrow> entries \<Rightarrow> signal_update list \<times> nat option" where
  "forward_entries room [] = ([], Some room)"
| "forward_entries room ((path, dp) # es) =
     (case Option.bind (dp_value dp) (to_update path) of
        None \<Rightarrow> forward_entries room es
      | Some u \<Rightarrow>
          (case room of
             0 \<Rightarrow> ([], None)
           | Suc room' \<Rightarrow> (case forward_entries room' es of (us, r) \<Rightarrow> (u # us, r))))"

fun forward_telemetry :: "nat \<Rightarrow> (string + entries) list \<Rightarrow> signal_update list" where
  "forward_telemetry room [] = []"
| "forward_telemetry room (Inl e # items) = []"
| "forward_telemetry room (Inr es # items) =
     (case forward_entries room es of
        (us, None) \<Rightarrow> us
      | (us, Some room') \<Rightarrow> us @ forward_telemetry room' items)"

section \<open>Start-up\<close>

text \<open>\<open>Inl\<close> is the exit code of \<open>main\<close> (101 for a panic).\<close>

definition gateway_start :: "gateway_codec \<Rightarrow> world \<Rightarrow> trace \<Rightarrow> (nat + config_gw) \<times> trace" where
  "gateway_start cd W t =
     (case from_env_gw W of
        Inl e \<Rightarrow> (Inl 1, t)
      | Inr config \<Rightarrow>
     (case nats_connect W config t of
        (Inl e, t1) \<Rightarrow> (Inl 1, t1)
      | (Inr vin, t1) \<Rightarrow>
     (case connect_gw W config t1 of
        (Inl e, t2) \<Rightarrow> (Inl 1, t2)
      | (Inr _, t2) \<Rightarrow>
     (case publish_registration cd W vin t2 of
        (None, t3) \<Rightarrow> (Inl 101, t3)
      | (Some (Inl e), t3) \<Rightarrow> (Inl 1, t3)
      | (Some (Inr _), t3) \<Rightarrow>
     (case subscribe_responses W t3 of
        (Inl e, t4) \<Rightarrow> (Inl 1, t4)
      | (Inr _, t4) \<Rightarrow>
     (case subscribe_telemetry W t4 of
        (Inl e, t5) \<Rightarrow> (Inl 1, t5)
      | (Inr _, t5) \<Rightarrow>
     (case subscribe_commands W vin t5 of
        (Inl e, t6) \<Rightarrow> (Inl 1, t6)
      | (Inr _, t6) \<Rightarrow> (Inr config, t6))))))))"

section \<open>The three tasks\<close>

record nats_message =
  nm_headers :: "(string \<times> string list) list option"
  nm_payload :: string

fun insert_first :: "string \<times> string list \<Rightarrow> (string \<times> string) list \<Rightarrow> (string \<times> string) list" where
  "insert_first (key, []) headers = headers"
| "insert_first (key, v # vs) headers = AList.update key v headers"

definition extract_headers :: "nats_message \<Rightarrow> (string \<times> string) list" where
  "extract_headers msg =
     (case nm_headers msg of None \<Rightarrow> [] | Some nats_headers \<Rightarrow> fold insert_first nats_headers [])"

text \<open>One turn of each of the three loops.\<close>

definition command_turn :: "gateway_codec \<Rightarrow> world \<Rightarrow> string \<Rightarrow> nats_message \<Rightarrow> trace \<Rightarrow> trace" where
  "command_turn cd W bearer_token msg t =
     (case validate_bearer_token (extract_headers msg) bearer_token of
        Inl e \<Rightarrow> t
      | Inr _ \<Rightarrow>
     (case validate_command_payload cd (nm_payload msg) of
        Inl e \<Rightarrow> t
      | Inr _ \<Rightarrow>
     (case from_utf8 (nm_payload msg) of
        Inl e \<Rightarrow> t
      | Inr payload_str \<Rightarrow> snd (write_command W payload_str t))))"

definition response_turn :: "gateway_codec \<Rightarrow> world \<Rightarrow> string \<Rightarrow> string \<Rightarrow> trace \<Rightarrow> trace" where
  "response_turn cd W vin response_json t =
     (case gj_str_value cd response_json of
        Inl e \<Rightarrow> t
      | Inr _ \<Rightarrow> snd (publish_response W vin response_json t))"

definition telemetry_turn ::
    "gateway_codec \<Rightarrow> world \<Rightarrow> string \<Rightarrow> signal_update \<Rightarrow> telemetry_state \<Rightarrow> trace
     \<Rightarrow> telemetry_state option \<times> trace" where
  "telemetry_turn cd W vin sig st t =
     (case telemetry_update (gj_ser cd) (w_clock W t) sig st of
        (None, st') \<Rightarrow> (None, t)
      | (Some None, st') \<Rightarrow> (Some st', t)
      | (Some (Some json), st') \<Rightarrow> (Some st', snd (publish_telemetry W vin json t)))"

text \<open>
  The tasks share the two clients and run concurrently. A turn waits at most once, for the one
  message it sends, so a run is a sequence of turns; which task makes the next one is the
  scheduler's choice. \<open>gw_telemetry\<close> is \<open>None\<close> when the telemetry task has panicked: the other
  two go on.
\<close>

datatype gw_item = CommandMsg nats_message | ResponseItem string | TelemetryItem signal_update

record gateway =
  gw_telemetry :: "telemetry_state option"
  gw_trace :: trace

fun gw_turn :: "gateway_codec \<Rightarrow> world \<Rightarrow> config_gw \<Rightarrow> gw_item \<Rightarrow> gateway \<Rightarrow> gateway" where
  "gw_turn cd W cfg (CommandMsg msg) g =
     g\<lparr>gw_trace := command_turn cd W (gc_bearer_token cfg) msg (gw_trace g)\<rparr>"
| "gw_turn cd W cfg (ResponseItem json) g =
     g\<lparr>gw_trace := response_turn cd W (gc_vin cfg) json (gw_trace g)\<rparr>"
| "gw_turn cd W cfg (TelemetryItem sig) g =
     (case gw_telemetry g of
        None \<Rightarrow> g
      | Some st \<Rightarrow>
          (case telemetry_turn cd W (gc_vin cfg) sig st (gw_trace g) of
             (st', t') \<Rightarrow> \<lparr>gw_telemetry = st', gw_trace = t'\<rparr>))"

definition gateway_tasks :: "gateway_codec \<Rightarrow> world \<Rightarrow> config_gw \<Rightarrow> gw_item list \<Rightarrow> trace \<Rightarrow> gateway" where
  "gateway_tasks cd W cfg items t =
     fold (gw_turn cd W cfg) items \<lparr>gw_telemetry = Some (telemetry_new (gc_vin cfg)), gw_trace = t\<rparr>"

text \<open>
  \<open>main\<close>: the exit code, \<open>None\<close> while a task runs. \<open>ended\<close> says whether all three streams have
  ended after \<open>items\<close>.
\<close>

definition gateway_main :: "gateway_codec \<Rightarrow> world \<Rightarrow> gw_item list \<Rightarrow> bool \<Rightarrow> nat option \<times> trace" where
  "gateway_main cd W items ended =
     (case gateway_start cd W [] of
        (Inl code, t) \<Rightarrow> (Some code, t)
      | (Inr cfg, t) \<Rightarrow> (if ended then Some 0 else None, gw_trace (gateway_tasks cd W cfg items t)))"

end
