(* ===== verification/Gateway_Properties.thy ===== *)
theory Gateway_Properties
  imports Gateway
begin

text \<open>
  The properties of the cloud gateway client: what it forwards from the cloud to the vehicle and
  back, over every interleaving of its tasks; what telemetry it publishes; how it starts.
\<close>

section \<open>Connecting to NATS\<close>

definition nats_pause :: "nat \<Rightarrow> bool \<Rightarrow> nat list" where
  "nats_pause attempt ok =
     (if \<not> ok \<and> attempt < MAX_ATTEMPTS_nats - 1 then [1000 * backoff_delays ! attempt] else [])"

interpretation nats: bounded_retry "nats_connect_body W url" "nats_connect_loop W url"
  nats_attempts sleeps nats_pause
  by unfold_locales
    (auto simp: nats_connect_body_def nats_pause_def io_simps Let_def split: sum.splits prod.splits)

text \<open>
  \<open>NatsClient::connect\<close> makes between one and five attempts and returns the first connection
  it gets, with the VIN of the configuration; after failures it sleeps 1, 2, 4 and 8 seconds, and
  after the fifth it gives up with \<open>RetriesExhausted\<close>, the only error it ever returns.
\<close>
lemma nats_connect_bounded:
  "case nats_connect W cfg t of
     (Inl e, t') \<Rightarrow> e = RetriesExhausted \<and>
       nats_attempts t' = nats_attempts t + 5 \<and> sleeps t' = sleeps t @ [1000, 2000, 4000, 8000]
   | (Inr vin, t') \<Rightarrow> vin = gc_vin cfg \<and>
       (\<exists>n. n < 5 \<and> nats_attempts t' = nats_attempts t + Suc n \<and>
          sleeps t' = sleeps t @ take n [1000, 2000, 4000, 8000])"
proof -
  obtain r t' where l: "nats_connect_loop W (gc_nats_url cfg) [0..<MAX_ATTEMPTS_nats] RetriesExhausted t = (r, t')"
    by fastforce
  have err: "nats_connect_loop W url is RetriesExhausted u = (Inl e, u') \<Longrightarrow> e = RetriesExhausted" for url "is" u e u'
    by (induction "is" arbitrary: u) (auto simp: nats_connect_body_def split: sum.splits prod.splits)
  have pauses: "concat (map (\<lambda>i. nats_pause i False) (take n [0..<5])) = take n [1000, 2000, 4000, 8000]" for n
    by (simp add: nats_pause_def MAX_ATTEMPTS_nats_def backoff_delays_def upt_rec take_Cons')
  show ?thesis
  proof (cases r)
    case (Inl e)
    have "e = RetriesExhausted" by (rule err) (use l Inl in simp)
    with Inl l show ?thesis
      using nats.exhausted [of W "gc_nats_url cfg" "[0..<MAX_ATTEMPTS_nats]" RetriesExhausted t e t']
      by (simp add: nats_connect_def MAX_ATTEMPTS_nats_def nats_pause_def backoff_delays_def upt_rec)
  next
    case (Inr u)
    with l show ?thesis
      using nats.succeeded_at [of W "gc_nats_url cfg" "[0..<MAX_ATTEMPTS_nats]" RetriesExhausted t u t']
      by (simp add: nats_connect_def MAX_ATTEMPTS_nats_def pauses) (auto simp: nats_pause_def)
  qed
qed

section \<open>Validation\<close>

text \<open>The documents that are commands: what the validator looks at.\<close>

fun command_object :: "json \<Rightarrow> bool" where
  "command_object (JObj fs) =
     ((\<exists>cid. map_of fs ''command_id'' = Some (JStr cid) \<and> cid \<noteq> []) \<and>
      map_of fs ''action'' \<in> {Some (JStr ''lock''), Some (JStr ''unlock'')} \<and>
      (\<exists>ds. map_of fs ''doors'' = Some (JArr ds)))"
| "command_object _ = False"

lemma as_str_Some: "as_str j = Some s \<longleftrightarrow> j = JStr s"
  by (cases j) auto

lemma as_object_Some: "as_object j = Some fs \<longleftrightarrow> j = JObj fs"
  by (cases j) auto

lemma is_array_iff: "is_array j \<longleftrightarrow> (\<exists>ds. j = JArr ds)"
  by (cases j) auto

lemma bind_as_str: "Option.bind x as_str = Some s \<longleftrightarrow> x = Some (JStr s)"
  by (cases x) (auto simp: as_str_Some)

lemma validate_payload_iff:
  "validate_command_payload cd payload = Inr cmd \<longleftrightarrow>
     (\<exists>v. gj_slice_value cd payload = Inr v \<and> command_object v) \<and>
     gj_slice_payload cd payload = Inr cmd"
proof (cases "gj_slice_value cd payload")
  case (Inl e)
  then show ?thesis by (simp add: validate_command_payload_def)
next
  case (Inr v)
  show ?thesis
  proof (cases "as_object v")
    case None
    then have "\<not> command_object v" by (cases v) auto
    with None Inr show ?thesis by (simp add: validate_command_payload_def)
  next
    case (Some fs)
    with Inr show ?thesis
      by (auto simp: validate_command_payload_def as_object_Some bind_as_str is_array_iff
          split: option.splits if_splits)
  qed
qed

section \<open>Forwarding commands\<close>

definition authentic :: "string \<Rightarrow> nats_message \<Rightarrow> bool" where
  "authentic token msg =
     (\<exists>hs vs. nm_headers msg = Some hs \<and>
        map_of hs ''Authorization'' = Some ((''Bearer '' @ token) # vs))"

definition forwardable :: "gateway_codec \<Rightarrow> string \<Rightarrow> nats_message \<Rightarrow> bool" where
  "forwardable cd token msg =
     (authentic token msg \<and>
      (\<exists>v. gj_slice_value cd (nm_payload msg) = Inr v \<and> command_object v) \<and>
      is_ok (gj_slice_payload cd (nm_payload msg)) \<and>
      valid_utf8 (nm_payload msg))"

text \<open>A header map has no name twice.\<close>

definition headers_ok :: "nats_message \<Rightarrow> bool" where
  "headers_ok msg = (case nm_headers msg of None \<Rightarrow> True | Some hs \<Rightarrow> wf_map hs)"

lemma map_of_insert_first:
  "wf_map hs \<Longrightarrow> map_of (fold insert_first hs acc) k =
     (case map_of hs k of Some (v # vs) \<Rightarrow> Some v | _ \<Rightarrow> map_of acc k)"
proof (induction hs arbitrary: acc)
  case (Cons h hs)
  obtain key vs where h: "h = (key, vs)" by (cases h)
  have "map_of hs key = None" using Cons.prems h by (simp add: map_of_eq_None_iff)
  with Cons h show ?case by (cases vs) (auto split: option.splits list.splits)
qed simp

lemma bearer_token_iff:
  "headers_ok msg \<Longrightarrow> validate_bearer_token (extract_headers msg) token = Inr () \<longleftrightarrow> authentic token msg"
  by (auto simp: validate_bearer_token_def extract_headers_def headers_ok_def authentic_def
      map_of_insert_first Let_def simp del: map_of_eq_Some_iff Some_eq_map_of_iff
      split: option.splits list.splits)

definition taken :: "gateway_codec \<Rightarrow> string \<Rightarrow> nats_message \<Rightarrow> bool" where
  "taken cd token msg =
     (is_ok (validate_bearer_token (extract_headers msg) token) \<and>
      is_ok (validate_command_payload cd (nm_payload msg)) \<and> valid_utf8 (nm_payload msg))"

lemma taken_forwardable: "headers_ok msg \<Longrightarrow> taken cd token msg = forwardable cd token msg"
  using bearer_token_iff [of msg token]
  by (auto simp: taken_def forwardable_def is_ok_iff validate_payload_iff)

fun command_msgs :: "gw_item list \<Rightarrow> nats_message list" where
  "command_msgs [] = []"
| "command_msgs (CommandMsg m # items) = m # command_msgs items"
| "command_msgs (_ # items) = command_msgs items"

fun command_out :: "gateway_codec \<Rightarrow> string \<Rightarrow> gw_item \<Rightarrow> (string \<times> string) list" where
  "command_out cd token (CommandMsg m) =
     (if taken cd token m then [(SIGNAL_COMMAND_gw, nm_payload m)] else [])"
| "command_out cd token _ = []"

lemma command_turn_log:
  "attempted_strings (command_turn cd W token m t) =
     attempted_strings t @ command_out cd token (CommandMsg m)"
  by (auto simp: command_turn_def taken_def write_command_def io_simps Let_def from_utf8_def
      split: sum.splits prod.splits)

lemma turn_command_log:
  "attempted_strings (gw_trace (gw_turn cd W cfg item g)) =
     attempted_strings (gw_trace g) @ command_out cd (gc_bearer_token cfg) item"
proof (cases item)
  case (TelemetryItem sig)
  then show ?thesis
    by (auto simp: telemetry_turn_def publish_telemetry_def io_simps Let_def split: option.splits prod.splits)
qed (auto simp: command_turn_log response_turn_def publish_response_def io_simps Let_def
      simp del: command_out.simps(1) split: sum.splits)

interpretation commands: log_relay "gw_turn cd W cfg" "\<lambda>g. attempted_strings (gw_trace g)"
  "command_out cd (gc_bearer_token cfg)"
  by unfold_locales (rule turn_command_log)

lemma command_out_msgs:
  "list_all headers_ok (command_msgs items) \<Longrightarrow>
   concat (map (command_out cd token) items) =
     map (\<lambda>m. (SIGNAL_COMMAND_gw, nm_payload m)) (filter (forwardable cd token) (command_msgs items))"
  by (induction items rule: command_msgs.induct) (simp_all add: taken_forwardable)

text \<open>
  C12: Over every interleaving of the tasks, the string values that the gateway tries to write to
  DATA_BROKER are the payloads of the messages that carry the right bearer token and are valid
  commands in UTF-8: each once, verbatim, on the command signal, in the order in which they came.
\<close>
theorem commands_forwarded:
  assumes "list_all headers_ok (command_msgs items)"
  shows "attempted_strings (gw_trace (gateway_tasks cd W cfg items t)) =
     attempted_strings t @
     map (\<lambda>m. (SIGNAL_COMMAND_gw, nm_payload m))
       (filter (forwardable cd (gc_bearer_token cfg)) (command_msgs items))"
  by (simp add: gateway_tasks_def commands.fold_log command_out_msgs [OF assms])

definition demo_config :: config_gw where
  "demo_config = \<lparr>gc_vin = ''VIN1'', gc_nats_url = [], gc_databroker_addr = [], gc_bearer_token = ''tok''\<rparr>"

definition demo_codec :: gateway_codec where
  "demo_codec =
     \<lparr>gj_slice_value = (\<lambda>s. if s = ''cmd'' then Inr (JObj [(''command_id'', JStr ''1''),
         (''action'', JStr ''lock''), (''doors'', JArr [])])
         else Inl \<lparr>se_category = CatSyntax, se_text = ''expected value''\<rparr>),
      gj_slice_payload = (\<lambda>_. Inr \<lparr>cp_command_id = ''1'', cp_action = ''lock'', cp_doors = [], cp_extra = []\<rparr>),
      gj_str_value = (\<lambda>_. Inr JNull), gj_ser = (\<lambda>_. ''{}'')\<rparr>"

definition demo_message :: "string \<Rightarrow> nats_message" where
  "demo_message token =
     \<lparr>nm_headers = Some [(''Authorization'', [''Bearer '' @ token])], nm_payload = ''cmd''\<rparr>"

lemma commands_forwarded_witness:
  "attempted_strings (gw_trace (gateway_tasks demo_codec calm_world demo_config
     [CommandMsg (demo_message ''bad''), ResponseItem ''r'', CommandMsg (demo_message ''tok'')] [])) =
   [(''Vehicle.Command.Door.Lock'', ''cmd'')]"
proof -
  have "valid_utf8 ''cmd''" by (simp add: valid_utf8.simps utf8_step_def byte_at_def)
  then show ?thesis
    by (subst commands_forwarded)
      (simp_all add: headers_ok_def demo_message_def forwardable_def authentic_def demo_codec_def
        demo_config_def SIGNAL_COMMAND_gw_def)
qed

section \<open>Relaying responses\<close>

fun responses :: "gw_item list \<Rightarrow> string list" where
  "responses [] = []"
| "responses (ResponseItem s # items) = s # responses items"
| "responses (_ # items) = responses items"

definition outbox_on :: "string \<Rightarrow> trace \<Rightarrow> string list" where
  "outbox_on subj t = map snd (filter (\<lambda>p. fst p = subj) (nats_outbox t))"

lemma outbox_on_simps [simp]:
  "outbox_on subj [] = []"
  "outbox_on subj (t @ u) = outbox_on subj t @ outbox_on subj u"
  "outbox_on subj (EvNatsPublish s p r # t) = (if s = subj then [p] else []) @ outbox_on subj t"
  "outbox_on subj (EvPublishValue q r # t) = outbox_on subj t"
  by (simp_all add: outbox_on_def)

lemma subject_inj [simp]: "subject vin k = subject vin k' \<longleftrightarrow> k = k'"
  by (simp add: subject_def)

fun response_out :: "gateway_codec \<Rightarrow> gw_item \<Rightarrow> string list" where
  "response_out cd (ResponseItem s) = (if is_ok (gj_str_value cd s) then [s] else [])"
| "response_out cd _ = []"

lemma telemetry_turn_trace:
  "snd (telemetry_turn cd W vin sig st t) = t @
     (case telemetry_update (gj_ser cd) (w_clock W t) sig st of
        (Some (Some p), _) \<Rightarrow>
          [EvNatsPublish (subject vin ''telemetry'') p (w_nats_publish W t (subject vin ''telemetry'') p)]
      | _ \<Rightarrow> [])"
  by (auto simp: telemetry_turn_def publish_telemetry_def io_simps Let_def split: option.splits prod.splits)

lemma turn_response_log:
  "outbox_on (subject (gc_vin cfg) ''command_responses'') (gw_trace (gw_turn cd W cfg item g)) =
     outbox_on (subject (gc_vin cfg) ''command_responses'') (gw_trace g) @ response_out cd item"
proof (cases item)
  case (TelemetryItem sig)
  show ?thesis
  proof (cases "gw_telemetry g")
    case (Some st)
    then show ?thesis
      using TelemetryItem telemetry_turn_trace [of cd W "gc_vin cfg" sig st "gw_trace g"]
      by (auto split: prod.splits option.splits)
  qed (simp add: TelemetryItem)
next
  case (CommandMsg m)
  then show ?thesis
    by (auto simp: command_turn_def write_command_def io_simps Let_def split: sum.splits prod.splits)
qed (auto simp: response_turn_def publish_response_def io_simps Let_def split: sum.splits prod.splits)

interpretation responses: log_relay "gw_turn cd W cfg"
  "\<lambda>g. outbox_on (subject (gc_vin cfg) ''command_responses'') (gw_trace g)" "response_out cd"
  by unfold_locales (rule turn_response_log)

lemma response_out_all:
  "concat (map (response_out cd) items) = filter (\<lambda>s. is_ok (gj_str_value cd s)) (responses items)"
  by (induction items rule: responses.induct) simp_all

text \<open>
  C27: Over every interleaving of the tasks, the messages that the gateway hands to NATS on the
  response subject of the vehicle are the responses that are valid JSON: each once, verbatim and in
  order.
\<close>
theorem responses_relayed:
  "outbox_on (subject (gc_vin cfg) ''command_responses'') (gw_trace (gateway_tasks cd W cfg items t)) =
     outbox_on (subject (gc_vin cfg) ''command_responses'') t @
     filter (\<lambda>s. is_ok (gj_str_value cd s)) (responses items)"
  by (simp add: gateway_tasks_def responses.fold_log response_out_all)

section \<open>Telemetry\<close>

fun telemetry_signals :: "gw_item list \<Rightarrow> signal_update list" where
  "telemetry_signals [] = []"
| "telemetry_signals (TelemetryItem s # items) = s # telemetry_signals items"
| "telemetry_signals (_ # items) = telemetry_signals items"

lemma telemetry_signals_snoc:
  "telemetry_signals (items @ [i]) =
     telemetry_signals items @ (case i of TelemetryItem s \<Rightarrow> [s] | _ \<Rightarrow> [])"
  by (induction items rule: telemetry_signals.induct) (simp_all split: gw_item.splits)

text \<open>The last value of a kind in a history of signals.\<close>

definition last_of :: "(signal_update \<Rightarrow> 'a option) \<Rightarrow> signal_update list \<Rightarrow> 'a option" where
  "last_of f ss = fold (\<lambda>s acc. case f s of None \<Rightarrow> acc | Some v \<Rightarrow> Some v) ss None"

lemma last_of_simps [simp]:
  "last_of f [] = None"
  "last_of f (ss @ [s]) = (case f s of None \<Rightarrow> last_of f ss | Some v \<Rightarrow> Some v)"
  by (simp_all add: last_of_def split: option.split)

fun as_is_locked :: "signal_update \<Rightarrow> bool option" where
  "as_is_locked (IsLocked v) = Some v" | "as_is_locked _ = None"
fun as_latitude :: "signal_update \<Rightarrow> f64 option" where
  "as_latitude (Latitude v) = Some v" | "as_latitude _ = None"
fun as_longitude :: "signal_update \<Rightarrow> f64 option" where
  "as_longitude (Longitude v) = Some v" | "as_longitude _ = None"
fun as_parking :: "signal_update \<Rightarrow> bool option" where
  "as_parking (ParkingActive v) = Some v" | "as_parking _ = None"

definition latest :: "string \<Rightarrow> signal_update list \<Rightarrow> telemetry_state" where
  "latest vin ss =
     \<lparr>ts_vin = vin, ts_is_locked = last_of as_is_locked ss, ts_latitude = last_of as_latitude ss,
      ts_longitude = last_of as_longitude ss, ts_parking_active = last_of as_parking ss\<rparr>"

fun differs :: "signal_update \<Rightarrow> signal_update list \<Rightarrow> bool" where
  "differs (IsLocked v) ss = (last_of as_is_locked ss \<noteq> Some v)"
| "differs (Latitude v) ss = (\<not> f64_opt_eq (last_of as_latitude ss) (Some v))"
| "differs (Longitude v) ss = (\<not> f64_opt_eq (last_of as_longitude ss) (Some v))"
| "differs (ParkingActive v) ss = (last_of as_parking ss \<noteq> Some v)"

lemma telemetry_set_latest: "telemetry_set s (latest vin ss) = (differs s ss, latest vin (ss @ [s]))"
  by (cases s) (simp_all add: latest_def)

definition telemetry_text :: "(json \<Rightarrow> string) \<Rightarrow> string \<Rightarrow> signal_update list \<Rightarrow> 64 word \<Rightarrow> string" where
  "telemetry_text ser vin ss secs =
     ser (telemetry_json
       \<lparr>tm_vin = vin, tm_is_locked = last_of as_is_locked ss, tm_latitude = last_of as_latitude ss,
        tm_longitude = last_of as_longitude ss, tm_parking_active = last_of as_parking ss,
        tm_timestamp = secs\<rparr>)"

lemma telemetry_update_latest:
  "telemetry_update ser (Some secs) s (latest vin ss) =
     (Some (if differs s ss then Some (telemetry_text ser vin (ss @ [s]) secs) else None),
      latest vin (ss @ [s]))"
  by (simp add: telemetry_update_def telemetry_set_latest telemetry_text_def)
    (simp add: latest_def)

text \<open>The positions of a history at which a signal differs from the last one of its kind.\<close>

definition changes :: "signal_update list \<Rightarrow> nat list" where
  "changes ss = filter (\<lambda>n. differs (ss ! n) (take n ss)) [0..<length ss]"

lemma changes_simps:
  "changes [] = []"
  "changes (ss @ [s]) = changes ss @ (if differs s ss then [length ss] else [])"
  by (auto simp: changes_def nth_append intro!: filter_cong)

lemma changes_less: "n \<in> set (changes ss) \<Longrightarrow> n < length ss"
  by (simp add: changes_def)

lemma take_snoc_changes:
  "map2 (\<lambda>n. telemetry_text ser vin (take (Suc n) (ss @ [s]))) (changes ss) stamps =
   map2 (\<lambda>n. telemetry_text ser vin (take (Suc n) ss)) (changes ss) stamps"
proof (rule map_cong [OF refl])
  fix x assume "x \<in> set (zip (changes ss) stamps)"
  then have "fst x < length ss" using changes_less set_zip_leftD by (metis prod.collapse)
  then show "(case x of (n, u) \<Rightarrow> telemetry_text ser vin (take (Suc n) (ss @ [s])) u) =
      (case x of (n, u) \<Rightarrow> telemetry_text ser vin (take (Suc n) ss) u)"
    by (simp add: case_prod_beta)
qed

lemma turn_quiet_telemetry:
  "(\<And>s. i \<noteq> TelemetryItem s) \<Longrightarrow>
     gw_telemetry (gw_turn cd W cfg i g) = gw_telemetry g \<and>
     outbox_on (subject vin ''telemetry'') (gw_trace (gw_turn cd W cfg i g)) =
       outbox_on (subject vin ''telemetry'') (gw_trace g)"
  by (cases i)
    (auto simp: command_turn_def write_command_def response_turn_def publish_response_def subject_def
      io_simps Let_def outbox_on_def split: sum.splits prod.splits)

lemma telemetry_history:
  fixes cfg :: config_gw
  assumes clock: "\<And>u. w_clock W u \<noteq> None"
  defines "sj \<equiv> subject (gc_vin cfg) ''telemetry''"
  shows "gw_telemetry (gateway_tasks cd W cfg items t) =
       Some (latest (gc_vin cfg) (telemetry_signals items)) \<and>
     (\<exists>stamps. length stamps = length (changes (telemetry_signals items)) \<and>
        outbox_on sj (gw_trace (gateway_tasks cd W cfg items t)) = outbox_on sj t @
          map2 (\<lambda>n. telemetry_text (gj_ser cd) (gc_vin cfg) (take (Suc n) (telemetry_signals items)))
            (changes (telemetry_signals items)) stamps)"
proof (induction items rule: rev_induct)
  case Nil
  show ?case by (simp add: gateway_tasks_def telemetry_new_def latest_def changes_simps)
next
  case (snoc i items)
  let ?g = "gateway_tasks cd W cfg items t"
  let ?ss = "telemetry_signals items"
  have step: "gateway_tasks cd W cfg (items @ [i]) t = gw_turn cd W cfg i ?g"
    by (simp add: gateway_tasks_def)
  show ?case
  proof (cases "\<exists>s. i = TelemetryItem s")
    case False
    then have "telemetry_signals (items @ [i]) = ?ss"
      by (simp add: telemetry_signals_snoc split: gw_item.splits)
    with snoc False turn_quiet_telemetry [of i cd W cfg ?g "gc_vin cfg"] show ?thesis
      by (simp add: step sj_def)
  next
    case True
    then obtain s where i: "i = TelemetryItem s" by blast
    then have ss: "telemetry_signals (items @ [i]) = ?ss @ [s]"
      by (simp add: telemetry_signals_snoc)
    obtain secs where secs: "w_clock W (gw_trace ?g) = Some secs" using clock by blast
    from snoc.IH obtain stamps where st: "gw_telemetry ?g = Some (latest (gc_vin cfg) ?ss)"
      "length stamps = length (changes ?ss)"
      "outbox_on sj (gw_trace ?g) = outbox_on sj t @
         map2 (\<lambda>n. telemetry_text (gj_ser cd) (gc_vin cfg) (take (Suc n) ?ss)) (changes ?ss) stamps"
      by blast
    have turn: "gw_turn cd W cfg i ?g =
        \<lparr>gw_telemetry = Some (latest (gc_vin cfg) (?ss @ [s])),
         gw_trace = snd (telemetry_turn cd W (gc_vin cfg) s (latest (gc_vin cfg) ?ss) (gw_trace ?g))\<rparr>"
      by (simp add: i st(1) telemetry_turn_def secs telemetry_update_latest)
    have out: "outbox_on sj (gw_trace (gw_turn cd W cfg i ?g)) = outbox_on sj (gw_trace ?g) @
        (if differs s ?ss then [telemetry_text (gj_ser cd) (gc_vin cfg) (?ss @ [s]) secs] else [])"
      by (simp add: turn telemetry_turn_trace secs telemetry_update_latest sj_def)
    show ?thesis
    proof (intro conjI exI)
      show "gw_telemetry (gateway_tasks cd W cfg (items @ [i]) t) =
          Some (latest (gc_vin cfg) (telemetry_signals (items @ [i])))"
        by (simp add: step turn ss)
      let ?stamps = "stamps @ (if differs s ?ss then [secs] else [])"
      show "length ?stamps = length (changes (telemetry_signals (items @ [i])))"
        by (simp add: ss changes_simps st(2))
      show "outbox_on sj (gw_trace (gateway_tasks cd W cfg (items @ [i]) t)) = outbox_on sj t @
          map2 (\<lambda>n. telemetry_text (gj_ser cd) (gc_vin cfg) (take (Suc n) (telemetry_signals (items @ [i]))))
            (changes (telemetry_signals (items @ [i]))) ?stamps"
        by (simp add: step out ss changes_simps st(2,3) take_snoc_changes del: take_append map_eq_conv)
    qed
  qed
qed

text \<open>
  C20: With a clock that works, over every interleaving, the telemetry state is the last value of
  each signal, and the telemetry messages that the gateway hands to NATS are exactly those at the
  signals that differ from the last value of their kind: in order, each with the latest values up to
  that signal, and without the fields that have never been set.
\<close>
theorem telemetry_published:
  assumes "\<And>u. w_clock W u \<noteq> None"
  shows "gw_telemetry (gateway_tasks cd W cfg items t) =
       Some (latest (gc_vin cfg) (telemetry_signals items)) \<and>
     (\<exists>stamps. length stamps = length (changes (telemetry_signals items)) \<and>
        outbox_on (subject (gc_vin cfg) ''telemetry'') (gw_trace (gateway_tasks cd W cfg items t)) =
          outbox_on (subject (gc_vin cfg) ''telemetry'') t @
          map2 (\<lambda>n. telemetry_text (gj_ser cd) (gc_vin cfg) (take (Suc n) (telemetry_signals items)))
            (changes (telemetry_signals items)) stamps)"
  by (rule telemetry_history [OF assms])

lemma telemetry_published_witness:
  "gw_telemetry (gateway_tasks demo_codec calm_world demo_config
     [TelemetryItem (IsLocked True), ResponseItem ''r'', TelemetryItem (ParkingActive False),
      TelemetryItem (IsLocked False)] []) =
   Some \<lparr>ts_vin = ''VIN1'', ts_is_locked = Some False, ts_latitude = None, ts_longitude = None,
     ts_parking_active = Some False\<rparr>"
proof -
  have "w_clock calm_world u \<noteq> None" for u by (simp add: calm_world_def)
  from telemetry_published [OF this, THEN conjunct1] show ?thesis
    by (simp add: latest_def last_of_def demo_config_def)
qed

section \<open>The telemetry subscription\<close>

definition entry_updates :: "entries \<Rightarrow> signal_update list" where
  "entry_updates es = List.map_filter (\<lambda>(path, dp). Option.bind (dp_value dp) (to_update path)) es"

definition stream_updates :: "(string + entries) list \<Rightarrow> signal_update list" where
  "stream_updates items = concat (map (\<lambda>i. entry_updates (projr i)) (takeWhile is_ok items))"

lemma entry_updates_Cons:
  "entry_updates [] = []"
  "entry_updates ((path, dp) # es) =
     (case Option.bind (dp_value dp) (to_update path) of None \<Rightarrow> [] | Some u \<Rightarrow> [u]) @ entry_updates es"
  by (simp_all add: entry_updates_def List.map_filter_def split: option.splits)

lemma forward_entries_take:
  "forward_entries room es =
     (take room (entry_updates es),
      if length (entry_updates es) \<le> room then Some (room - length (entry_updates es)) else None)"
  by (induction room es rule: forward_entries.induct)
    (auto simp: entry_updates_Cons split: option.splits nat.splits)

text \<open>
  The receiver of the telemetry subscription gets the updates of the stream in order, up to
  the first error of the stream or until the receiver goes away: nothing is lost, duplicated or
  reordered, and entries of other types or paths are passed over.
\<close>
lemma telemetry_stream:
  "forward_telemetry room items = take room (stream_updates items)"
  by (induction room items rule: forward_telemetry.induct)
    (simp_all add: stream_updates_def forward_entries_take)

section \<open>Start-up\<close>

lemma nats_loop_success:
  "nats_connect_loop W url is e t = (Inr u, t') \<Longrightarrow> \<exists>es. t' = t @ es @ [EvNatsConnect url (Inr u)]"
proof (induction "is" arbitrary: e t)
  case (Cons i "is")
  show ?case
  proof (cases "nats_connect_body W url i t")
    case (Pair r t1)
    show ?thesis
    proof (cases r)
      case (Inl e1)
      then obtain es1 where "t1 = t @ es1"
        using Pair by (auto simp: nats_connect_body_def io_simps Let_def split: sum.splits if_splits)
      then show ?thesis using Cons.IH [of e1 t1] Cons.prems Pair Inl by auto
    next
      case (Inr v)
      then show ?thesis using Cons.prems Pair
        by (auto simp: nats_connect_body_def io_simps Let_def split: sum.splits)
    qed
  qed
qed simp

text \<open>
  The service starts processing only after, in this order: the configuration was read, NATS
  was connected, DATA_BROKER was connected, the registration was published on the status subject,
  and the three subscriptions were made. When any of these fails it exits with code 1, or with
  the code of a panic when the clock is before 1970.
\<close>
lemma startup_order:
  "case gateway_start cd W t of
     (Inl code, _) \<Rightarrow> code = 1 \<or> code = 101 \<and> (\<exists>u. w_clock W u = None)
   | (Inr cfg, t') \<Rightarrow> from_env_gw W = Inr cfg \<and>
       (\<exists>es secs. t' = t @ es @
         [EvNatsConnect (gc_nats_url cfg) (Inr ()),
          EvConnect (gc_databroker_addr cfg) (Inr ()),
          EvNatsPublish (subject (gc_vin cfg) ''status'')
            (gj_ser cd (registration_json
               \<lparr>rm_vin = gc_vin cfg, rm_status = ''online'', rm_timestamp = secs\<rparr>)) (Inr ()),
          EvSubscribe \<lparr>sub_paths = [SIGNAL_RESPONSE_gw], sub_buffer_size = 0\<rparr> (Inr ()),
          EvSubscribe \<lparr>sub_paths = TELEMETRY_SIGNALS, sub_buffer_size = 0\<rparr> (Inr ()),
          EvNatsSubscribe (subject (gc_vin cfg) ''commands'') (Inr ())])"
proof (cases "from_env_gw W")
  case (Inl e)
  then show ?thesis by (simp add: gateway_start_def)
next
  case (Inr cfg)
  obtain r t1 where l: "nats_connect_loop W (gc_nats_url cfg) [0..<MAX_ATTEMPTS_nats] RetriesExhausted t = (r, t1)"
    by fastforce
  show ?thesis
  proof (cases r)
    case (Inl e)
    with l Inr show ?thesis by (simp add: gateway_start_def nats_connect_def)
  next
    case r: (Inr u)
    then obtain es where t1: "t1 = t @ es @ [EvNatsConnect (gc_nats_url cfg) (Inr ())]"
      using nats_loop_success l by fastforce
    have start: "gateway_start cd W t =
        (case connect_gw W cfg t1 of
           (Inl e, t2) \<Rightarrow> (Inl 1, t2)
         | (Inr _, t2) \<Rightarrow>
        (case publish_registration cd W (gc_vin cfg) t2 of
           (None, t3) \<Rightarrow> (Inl 101, t3)
         | (Some (Inl e), t3) \<Rightarrow> (Inl 1, t3)
         | (Some (Inr _), t3) \<Rightarrow>
        (case subscribe_responses W t3 of
           (Inl e, t4) \<Rightarrow> (Inl 1, t4)
         | (Inr _, t4) \<Rightarrow>
        (case subscribe_telemetry W t4 of
           (Inl e, t5) \<Rightarrow> (Inl 1, t5)
         | (Inr _, t5) \<Rightarrow>
        (case subscribe_commands W (gc_vin cfg) t5 of
           (Inl e, t6) \<Rightarrow> (Inl 1, t6)
         | (Inr _, t6) \<Rightarrow> (Inr cfg, t6))))))"
      by (simp add: gateway_start_def Inr nats_connect_def l r)
    show ?thesis
      using t1 Inr
      by (auto simp: start connect_gw_def publish_registration_def subscribe_responses_def
          subscribe_telemetry_def subscribe_commands_def map_err_def io_simps Let_def
          split: sum.splits option.splits)
  qed
qed

end
