(* ===== verification/Adapter_State.thy ===== *)
theory Adapter_State
  imports World
begin

text \<open>
  rhivos/update-service/src/adapter.rs and state.rs: adapter ids, lifecycle states, entries and
  events, and the state manager with each of its operations. Every operation holds the mutex from
  its first to its last statement, so it is one atomic function on the manager. The locale
  \<open>adapter_store\<close> is what the operations promise to their clients.
\<close>

section \<open>Adapters\<close>

definition derive_adapter_id :: "string \<Rightarrow> string" where
  "derive_adapter_id image_ref =
     (let last_segment = after_last (CHR ''/'') image_ref in replace_char (CHR '':'') ''-'' last_segment)"

datatype adapter_state =
  Unknown | Downloading | Installing | Running | Stopped | Error | Offloading

instantiation adapter_state :: enum
begin

definition enum_adapter_state :: "adapter_state list" where
  "enum_adapter_state = [Unknown, Downloading, Installing, Running, Stopped, Error, Offloading]"

definition enum_all_adapter_state :: "(adapter_state \<Rightarrow> bool) \<Rightarrow> bool" where
  "enum_all_adapter_state P = list_all P [Unknown, Downloading, Installing, Running, Stopped, Error, Offloading]"

definition enum_ex_adapter_state :: "(adapter_state \<Rightarrow> bool) \<Rightarrow> bool" where
  "enum_ex_adapter_state P = list_ex P [Unknown, Downloading, Installing, Running, Stopped, Error, Offloading]"

instance
proof
  show univ: "(UNIV :: adapter_state set) = set enum_class.enum"
    by (auto simp: enum_adapter_state_def intro: adapter_state.exhaust)
  show "distinct (enum_class.enum :: adapter_state list)" by (simp add: enum_adapter_state_def)
  show "enum_class.enum_all P = Ball UNIV P" for P :: "adapter_state \<Rightarrow> bool"
    by (simp add: univ enum_all_adapter_state_def enum_adapter_state_def)
  show "enum_class.enum_ex P = Bex UNIV P" for P :: "adapter_state \<Rightarrow> bool"
    by (simp add: univ enum_ex_adapter_state_def enum_adapter_state_def)
qed

end

text \<open>An \<open>Instant\<close> is a number of nanoseconds.\<close>

record adapter_entry =
  ae_adapter_id :: string
  ae_image_ref :: string
  ae_checksum_sha256 :: string
  ae_state :: adapter_state
  ae_job_id :: string
  ae_stopped_at :: "nat option"
  ae_error_message :: "string option"

record adapter_event =
  av_adapter_id :: string
  av_old_state :: adapter_state
  av_new_state :: adapter_state
  av_timestamp :: "64 word"

section \<open>The state manager\<close>

text \<open>
  \<open>sm_adapters\<close> is the hash map; \<open>sm_events\<close> lists every event handed to the broadcast channel,
  oldest first (what a subscriber sees is a suffix of it, Update_Grpc.thy).
\<close>

record state_manager =
  sm_adapters :: "(string \<times> adapter_entry) list"
  sm_events :: "adapter_event list"

datatype state_error = StateNotFound string | InvalidTransition string

fun show_state_error :: "state_error \<Rightarrow> string" where
  "show_state_error (StateNotFound msg) = ''not found: '' @ msg"
| "show_state_error (InvalidTransition msg) = ''invalid transition: '' @ msg"

definition sm_new :: state_manager where
  "sm_new = \<lparr>sm_adapters = [], sm_events = []\<rparr>"

definition create_adapter :: "adapter_entry \<Rightarrow> state_manager \<Rightarrow> state_manager" where
  "create_adapter entry sm =
     sm\<lparr>sm_adapters := AList.update (ae_adapter_id entry) entry (sm_adapters sm)\<rparr>"

text \<open>\<open>now\<close> is \<open>Instant::now()\<close>, \<open>secs\<close> the system clock (\<open>None\<close> before 1970).\<close>

definition move_entry :: "adapter_state \<Rightarrow> string option \<Rightarrow> nat \<Rightarrow> adapter_entry \<Rightarrow> adapter_entry" where
  "move_entry new_state error_msg now entry =
     (let e1 = entry\<lparr>ae_state := new_state\<rparr>;
          e2 = (if new_state = Stopped then e1\<lparr>ae_stopped_at := Some now\<rparr> else e1)
      in if new_state = Error then e2\<lparr>ae_error_message := error_msg\<rparr> else e2)"

definition transition ::
    "string \<Rightarrow> adapter_state \<Rightarrow> string option \<Rightarrow> nat \<Rightarrow> 64 word option \<Rightarrow> state_manager
     \<Rightarrow> (state_error + unit) \<times> state_manager" where
  "transition adapter_id new_state error_msg now secs sm =
     (case map_of (sm_adapters sm) adapter_id of
        None \<Rightarrow> (Inl (StateNotFound (''adapter not found: '' @ adapter_id)), sm)
      | Some entry \<Rightarrow>
          (let old_state = ae_state entry;
               event = \<lparr>av_adapter_id = adapter_id, av_old_state = old_state,
                        av_new_state = new_state, av_timestamp = unwrap_or 0 secs\<rparr>
           in (Inr (),
               \<lparr>sm_adapters = AList.update adapter_id (move_entry new_state error_msg now entry) (sm_adapters sm),
                sm_events = sm_events sm @ [event]\<rparr>)))"

definition get_adapter :: "string \<Rightarrow> state_manager \<Rightarrow> adapter_entry option" where
  "get_adapter adapter_id sm = map_of (sm_adapters sm) adapter_id"

definition list_adapters :: "state_manager \<Rightarrow> adapter_entry list" where
  "list_adapters sm = map snd (sm_adapters sm)"

definition remove_adapter_state :: "string \<Rightarrow> state_manager \<Rightarrow> (state_error + unit) \<times> state_manager" where
  "remove_adapter_state adapter_id sm =
     (case map_of (sm_adapters sm) adapter_id of
        None \<Rightarrow> (Inl (StateNotFound (''adapter not found: '' @ adapter_id)), sm)
      | Some _ \<Rightarrow> (Inr (), sm\<lparr>sm_adapters := AList.delete adapter_id (sm_adapters sm)\<rparr>))"

definition get_running_adapter :: "state_manager \<Rightarrow> adapter_entry option" where
  "get_running_adapter sm = List.find (\<lambda>a. ae_state a = Running) (map snd (sm_adapters sm))"

text \<open>\<open>elapsed\<close> saturates at zero, as the subtraction of naturals does.\<close>

definition get_offload_candidates :: "nat \<Rightarrow> nat \<Rightarrow> state_manager \<Rightarrow> adapter_entry list" where
  "get_offload_candidates timeout now sm =
     filter (\<lambda>a. ae_state a = Stopped \<and>
                 (case ae_stopped_at a of None \<Rightarrow> False | Some t \<Rightarrow> timeout \<le> now - t))
       (map snd (sm_adapters sm))"

section \<open>Well-formedness\<close>

definition wf_sm :: "state_manager \<Rightarrow> bool" where
  "wf_sm sm = (wf_map (sm_adapters sm) \<and> (\<forall>(k, e) \<in> set (sm_adapters sm). ae_adapter_id e = k))"

lemma move_entry_simps [simp]:
  "ae_adapter_id (move_entry st msg now e) = ae_adapter_id e"
  "ae_image_ref (move_entry st msg now e) = ae_image_ref e"
  "ae_checksum_sha256 (move_entry st msg now e) = ae_checksum_sha256 e"
  "ae_job_id (move_entry st msg now e) = ae_job_id e"
  "ae_state (move_entry st msg now e) = st"
  "st \<noteq> Error \<Longrightarrow> ae_error_message (move_entry st msg now e) = ae_error_message e"
  "ae_error_message (move_entry Error msg now e) = msg"
  "ae_stopped_at (move_entry Stopped msg now e) = Some now"
  "st \<noteq> Stopped \<Longrightarrow> ae_stopped_at (move_entry st msg now e) = ae_stopped_at e"
  by (auto simp: move_entry_def Let_def)

lemma wf_sm_alt:
  "wf_sm sm \<longleftrightarrow> wf_map (sm_adapters sm) \<and>
     (\<forall>k e. map_of (sm_adapters sm) k = Some e \<longrightarrow> ae_adapter_id e = k)"
  by (auto simp: wf_sm_def)

text \<open>
  \<open>goto\<close> is the effect of a transition on the map of entries, \<open>emitted\<close> its event.
\<close>

definition goto :: "adapter_state \<Rightarrow> string option \<Rightarrow> nat \<Rightarrow> adapter_entry option \<Rightarrow> adapter_entry option" where
  "goto st msg now = map_option (move_entry st msg now)"

definition emitted :: "string \<Rightarrow> adapter_state \<Rightarrow> 64 word option \<Rightarrow> adapter_entry option \<Rightarrow> adapter_event list" where
  "emitted i st secs e =
     (case e of None \<Rightarrow> []
      | Some x \<Rightarrow> [\<lparr>av_adapter_id = i, av_old_state = ae_state x, av_new_state = st,
                   av_timestamp = unwrap_or 0 secs\<rparr>])"

section \<open>The contract of the store\<close>

text \<open>
  A store of adapters as its clients see it: a partial map of entries and a log of events, with
  the effect of each operation on both.
\<close>

locale adapter_store =
  fixes lookup :: "'s \<Rightarrow> string \<Rightarrow> adapter_entry option"
    and events :: "'s \<Rightarrow> adapter_event list"
    and wf :: "'s \<Rightarrow> bool"
    and create :: "adapter_entry \<Rightarrow> 's \<Rightarrow> 's"
    and move :: "string \<Rightarrow> adapter_state \<Rightarrow> string option \<Rightarrow> nat \<Rightarrow> 64 word option \<Rightarrow> 's \<Rightarrow> 's"
    and erase :: "string \<Rightarrow> 's \<Rightarrow> 's"
    and running :: "'s \<Rightarrow> adapter_entry option"
  assumes lookup_create: "lookup (create e s) = (lookup s)(ae_adapter_id e \<mapsto> e)"
    and lookup_move: "lookup (move i st msg now secs s) = (lookup s)(i := goto st msg now (lookup s i))"
    and lookup_erase: "lookup (erase i s) = (lookup s)(i := None)"
    and events_create: "events (create e s) = events s"
    and events_move: "events (move i st msg now secs s) = events s @ emitted i st secs (lookup s i)"
    and events_erase: "events (erase i s) = events s"
    and wf_create: "wf s \<Longrightarrow> wf (create e s)"
    and wf_move: "wf s \<Longrightarrow> wf (move i st msg now secs s)"
    and wf_erase: "wf s \<Longrightarrow> wf (erase i s)"
    and wf_id: "wf s \<Longrightarrow> lookup s i = Some e \<Longrightarrow> ae_adapter_id e = i"
    and running_Some: "wf s \<Longrightarrow> running s = Some e \<Longrightarrow> lookup s (ae_adapter_id e) = Some e \<and> ae_state e = Running"
    and running_None: "wf s \<Longrightarrow> running s = None \<Longrightarrow> lookup s i = Some e \<Longrightarrow> ae_state e \<noteq> Running"
begin

text \<open>At most one adapter of the store is running.\<close>

definition single_running :: "'s \<Rightarrow> bool" where
  "single_running s =
     (\<forall>i j e f. lookup s i = Some e \<and> lookup s j = Some f \<and> ae_state e = Running \<and> ae_state f = Running \<longrightarrow> i = j)"

text \<open>Stopping the running adapter, as every installation does first.\<close>

definition stop_running :: "adapter_state \<Rightarrow> string option \<Rightarrow> nat \<Rightarrow> 64 word option \<Rightarrow> 's \<Rightarrow> 's" where
  "stop_running st msg now secs s =
     (case running s of None \<Rightarrow> s | Some e \<Rightarrow> move (ae_adapter_id e) st msg now secs s)"

lemma stop_running_none:
  assumes "wf s" "single_running s" "st \<noteq> Running" "lookup (stop_running st msg now secs s) i = Some e"
  shows "ae_state e \<noteq> Running"
proof (cases "running s")
  case None
  then show ?thesis using assms running_None by (simp add: stop_running_def)
next
  case (Some r)
  then have r: "lookup s (ae_adapter_id r) = Some r" "ae_state r = Running"
    using running_Some assms(1) by blast+
  show ?thesis
  proof (cases "i = ae_adapter_id r")
    case True
    then show ?thesis using assms(3,4) Some r by (auto simp: stop_running_def lookup_move goto_def)
  next
    case False
    then have "lookup s i = Some e" using assms(4) Some by (simp add: stop_running_def lookup_move)
    then show ?thesis using False assms(2) r unfolding single_running_def by blast
  qed
qed

text \<open>A store in which nothing runs may start one adapter.\<close>

lemma single_running_start:
  assumes "\<And>j e. lookup s j = Some e \<Longrightarrow> j \<noteq> i \<Longrightarrow> ae_state e \<noteq> Running"
  shows "single_running s"
  using assms unfolding single_running_def by blast

end

text \<open>The state manager of the code keeps the contract.\<close>

abbreviation sm_lookup :: "state_manager \<Rightarrow> string \<Rightarrow> adapter_entry option" where
  "sm_lookup sm \<equiv> map_of (sm_adapters sm)"

definition sm_move :: "string \<Rightarrow> adapter_state \<Rightarrow> string option \<Rightarrow> nat \<Rightarrow> 64 word option \<Rightarrow> state_manager \<Rightarrow> state_manager" where
  "sm_move i st msg now secs sm = snd (transition i st msg now secs sm)"

definition sm_erase :: "string \<Rightarrow> state_manager \<Rightarrow> state_manager" where
  "sm_erase i sm = snd (remove_adapter_state i sm)"

lemma find_running_Some:
  assumes "wf_sm sm" "get_running_adapter sm = Some e"
  shows "sm_lookup sm (ae_adapter_id e) = Some e \<and> ae_state e = Running"
proof -
  have "e \<in> snd ` set (sm_adapters sm)" and r: "ae_state e = Running"
    using assms(2) by (auto simp: get_running_adapter_def find_Some_iff intro!: imageI)
  then obtain k where "(k, e) \<in> set (sm_adapters sm)" by auto
  then show ?thesis using assms(1) r by (auto simp: wf_sm_def)
qed

lemma find_running_None:
  "wf_sm sm \<Longrightarrow> get_running_adapter sm = None \<Longrightarrow> sm_lookup sm i = Some e \<Longrightarrow> ae_state e \<noteq> Running"
  by (force simp: get_running_adapter_def find_None_iff wf_sm_def)

lemma lookup_fun_upd: "map_of (AList.update k v al) = (map_of al)(k \<mapsto> v)"
  by (rule update_conv')

lemma erase_fun_upd: "map_of (AList.delete k al) = (map_of al)(k := None)"
  by (rule delete_conv')

interpretation store: adapter_store sm_lookup sm_events wf_sm create_adapter sm_move sm_erase
  get_running_adapter
proof unfold_locales
  fix s :: state_manager and e :: adapter_entry and i st msg now secs
  show "sm_lookup (create_adapter e s) = (sm_lookup s)(ae_adapter_id e \<mapsto> e)"
    by (simp add: create_adapter_def lookup_fun_upd)
  show "sm_lookup (sm_move i st msg now secs s) = (sm_lookup s)(i := goto st msg now (sm_lookup s i))"
    by (auto simp: sm_move_def transition_def goto_def lookup_fun_upd Let_def fun_eq_iff split: option.splits)
  show "sm_lookup (sm_erase i s) = (sm_lookup s)(i := None)"
    by (auto simp: sm_erase_def remove_adapter_state_def erase_fun_upd fun_eq_iff split: option.splits)
  show "sm_events (create_adapter e s) = sm_events s" by (simp add: create_adapter_def)
  show "sm_events (sm_move i st msg now secs s) = sm_events s @ emitted i st secs (sm_lookup s i)"
    by (auto simp: sm_move_def transition_def emitted_def Let_def split: option.splits)
  show "sm_events (sm_erase i s) = sm_events s"
    by (auto simp: sm_erase_def remove_adapter_state_def split: option.splits)
  show "wf_sm s \<Longrightarrow> wf_sm (create_adapter e s)"
    by (auto simp: wf_sm_alt create_adapter_def simp del: map_of_eq_Some_iff)
  show "wf_sm s \<Longrightarrow> wf_sm (sm_move i st msg now secs s)"
    by (auto simp: wf_sm_alt sm_move_def transition_def Let_def simp del: map_of_eq_Some_iff split: option.splits)
  show "wf_sm s \<Longrightarrow> wf_sm (sm_erase i s)"
    by (auto simp: wf_sm_alt sm_erase_def remove_adapter_state_def simp del: map_of_eq_Some_iff split: option.splits)
  show "wf_sm s \<Longrightarrow> sm_lookup s i = Some e \<Longrightarrow> ae_adapter_id e = i" by (simp add: wf_sm_alt)
  show "wf_sm s \<Longrightarrow> get_running_adapter s = Some e \<Longrightarrow>
      sm_lookup s (ae_adapter_id e) = Some e \<and> ae_state e = Running"
    by (rule find_running_Some)
  show "wf_sm s \<Longrightarrow> get_running_adapter s = None \<Longrightarrow> sm_lookup s i = Some e \<Longrightarrow> ae_state e \<noteq> Running"
    by (rule find_running_None)
qed

lemmas store_laws [store_simps] =
  store.lookup_create store.lookup_move store.lookup_erase
  store.events_create store.events_move store.events_erase

lemmas store_wf [intro] = store.wf_create store.wf_move store.wf_erase

end
