(* ===== verification/Podman.thy ===== *)
theory Podman
  imports World
begin

text \<open>
  rhivos/update-service/src/podman.rs: the trait \<open>PodmanExecutor\<close> as a record of operations on a
  state, the executor that runs the podman CLI, and the mock executor of the unit tests.
\<close>

section \<open>The trait\<close>

datatype podman_error = PodmanError string

fun pe_message :: "podman_error \<Rightarrow> string" where
  "pe_message (PodmanError msg) = msg"

fun show_podman_error :: "podman_error \<Rightarrow> string" where
  "show_podman_error e = ''podman error: '' @ pe_message e"

text \<open>The exit code of \<open>wait\<close> is an \<open>i32\<close>.\<close>

record 'w podman_executor =
  px_pull :: "string \<Rightarrow> 'w \<Rightarrow> (podman_error + unit) \<times> 'w"
  px_inspect_digest :: "string \<Rightarrow> 'w \<Rightarrow> (podman_error + string) \<times> 'w"
  px_run :: "string \<Rightarrow> string \<Rightarrow> 'w \<Rightarrow> (podman_error + unit) \<times> 'w"
  px_stop :: "string \<Rightarrow> 'w \<Rightarrow> (podman_error + unit) \<times> 'w"
  px_rm :: "string \<Rightarrow> 'w \<Rightarrow> (podman_error + unit) \<times> 'w"
  px_rmi :: "string \<Rightarrow> 'w \<Rightarrow> (podman_error + unit) \<times> 'w"
  px_wait :: "string \<Rightarrow> 'w \<Rightarrow> (podman_error + int) \<times> 'w"

section \<open>The real executor\<close>

text \<open>
  Every operation runs \<open>podman\<close> with its arguments; a program that cannot be executed and an
  exit status other than success are errors, the latter with the trimmed standard error.
\<close>

definition podman_output :: "world \<Rightarrow> string \<Rightarrow> string list \<Rightarrow> trace \<Rightarrow> (podman_error + string) \<times> trace" where
  "podman_output W what args t =
     (case ask_exec W (''podman'' # args) t of
        (Inl e, t') \<Rightarrow> (Inl (PodmanError (''failed to execute podman '' @ what @ '': '' @ e)), t')
      | (Inr output, t') \<Rightarrow>
          if \<not> eo_success output
          then (let stderr = from_utf8_lossy (eo_stderr output) in (Inl (PodmanError (trim stderr)), t'))
          else (Inr (eo_stdout output), t'))"

definition podman_unit :: "world \<Rightarrow> string \<Rightarrow> string list \<Rightarrow> trace \<Rightarrow> (podman_error + unit) \<times> trace" where
  "podman_unit W what args t =
     (case podman_output W what args t of
        (Inl e, t') \<Rightarrow> (Inl e, t')
      | (Inr _, t') \<Rightarrow> (Inr (), t'))"

definition real_pull :: "world \<Rightarrow> string \<Rightarrow> trace \<Rightarrow> (podman_error + unit) \<times> trace" where
  "real_pull W image_ref = podman_unit W ''pull'' [''pull'', image_ref]"

definition real_inspect_digest :: "world \<Rightarrow> string \<Rightarrow> trace \<Rightarrow> (podman_error + string) \<times> trace" where
  "real_inspect_digest W image_ref t =
     (case podman_output W ''image inspect'' [''image'', ''inspect'', ''--format'', ''{{.Digest}}'', image_ref] t of
        (Inl e, t') \<Rightarrow> (Inl e, t')
      | (Inr stdout, t') \<Rightarrow> (let digest = trim (from_utf8_lossy stdout) in (Inr digest, t')))"

definition real_run :: "world \<Rightarrow> string \<Rightarrow> string \<Rightarrow> trace \<Rightarrow> (podman_error + unit) \<times> trace" where
  "real_run W adapter_id image_ref =
     podman_unit W ''run'' [''run'', ''-d'', ''--name'', adapter_id, ''--network=host'', image_ref]"

definition real_stop :: "world \<Rightarrow> string \<Rightarrow> trace \<Rightarrow> (podman_error + unit) \<times> trace" where
  "real_stop W adapter_id = podman_unit W ''stop'' [''stop'', adapter_id]"

definition real_rm :: "world \<Rightarrow> string \<Rightarrow> trace \<Rightarrow> (podman_error + unit) \<times> trace" where
  "real_rm W adapter_id = podman_unit W ''rm'' [''rm'', adapter_id]"

definition real_rmi :: "world \<Rightarrow> string \<Rightarrow> trace \<Rightarrow> (podman_error + unit) \<times> trace" where
  "real_rmi W image_ref = podman_unit W ''rmi'' [''rmi'', image_ref]"

definition real_wait :: "world \<Rightarrow> string \<Rightarrow> trace \<Rightarrow> (podman_error + int) \<times> trace" where
  "real_wait W adapter_id t =
     (case podman_output W ''wait'' [''wait'', adapter_id] t of
        (Inl e, t') \<Rightarrow> (Inl e, t')
      | (Inr stdout, t') \<Rightarrow>
          (let exit_code_str = trim (from_utf8_lossy stdout) in
           (map_err (\<lambda>e. PodmanError (''failed to parse exit code: '' @ show_int_error e))
              (parse_signed 32 exit_code_str), t')))"

definition real_podman :: "world \<Rightarrow> trace podman_executor" where
  "real_podman W =
     \<lparr>px_pull = real_pull W, px_inspect_digest = real_inspect_digest W, px_run = real_run W,
      px_stop = real_stop W, px_rm = real_rm W, px_rmi = real_rmi W, px_wait = real_wait W\<rparr>"

section \<open>The mock executor\<close>

text \<open>
  A configured result of \<open>None\<close> means the default. \<open>wait\<close> blocks until it is released unless
  \<open>mp_wait_immediate\<close> is set; the function gives what it returns when it returns.
\<close>

record mock_podman =
  mp_pull_result :: "(podman_error + unit) option"
  mp_inspect_result :: "(podman_error + string) option"
  mp_run_result :: "(podman_error + unit) option"
  mp_stop_result :: "(podman_error + unit) option"
  mp_rm_result :: "(podman_error + unit) option"
  mp_rmi_result :: "(podman_error + unit) option"
  mp_wait_result :: "(podman_error + int) option"
  mp_pull_calls :: "string list"
  mp_inspect_calls :: "string list"
  mp_run_calls :: "(string \<times> string) list"
  mp_stop_calls :: "string list"
  mp_rm_calls :: "string list"
  mp_rmi_calls :: "string list"
  mp_wait_calls :: "string list"
  mp_stop_results_by_id :: "(string \<times> (podman_error + unit)) list"
  mp_wait_immediate :: bool

definition mock_podman_new :: mock_podman where
  "mock_podman_new =
     \<lparr>mp_pull_result = None, mp_inspect_result = None, mp_run_result = None, mp_stop_result = None,
      mp_rm_result = None, mp_rmi_result = None, mp_wait_result = None, mp_pull_calls = [],
      mp_inspect_calls = [], mp_run_calls = [], mp_stop_calls = [], mp_rm_calls = [],
      mp_rmi_calls = [], mp_wait_calls = [], mp_stop_results_by_id = [], mp_wait_immediate = False\<rparr>"

definition set_stop_result_for :: "string \<Rightarrow> podman_error + unit \<Rightarrow> mock_podman \<Rightarrow> mock_podman" where
  "set_stop_result_for adapter_id result m =
     m\<lparr>mp_stop_results_by_id := AList.update adapter_id result (mp_stop_results_by_id m)\<rparr>"

definition mockp_pull :: "string \<Rightarrow> mock_podman \<Rightarrow> (podman_error + unit) \<times> mock_podman" where
  "mockp_pull image_ref m =
     (unwrap_or (Inr ()) (mp_pull_result m), m\<lparr>mp_pull_calls := mp_pull_calls m @ [image_ref]\<rparr>)"

definition mockp_inspect_digest :: "string \<Rightarrow> mock_podman \<Rightarrow> (podman_error + string) \<times> mock_podman" where
  "mockp_inspect_digest image_ref m =
     (unwrap_or (Inr ''sha256:default'') (mp_inspect_result m),
      m\<lparr>mp_inspect_calls := mp_inspect_calls m @ [image_ref]\<rparr>)"

definition mockp_run :: "string \<Rightarrow> string \<Rightarrow> mock_podman \<Rightarrow> (podman_error + unit) \<times> mock_podman" where
  "mockp_run adapter_id image_ref m =
     (unwrap_or (Inr ()) (mp_run_result m), m\<lparr>mp_run_calls := mp_run_calls m @ [(adapter_id, image_ref)]\<rparr>)"

definition mockp_stop :: "string \<Rightarrow> mock_podman \<Rightarrow> (podman_error + unit) \<times> mock_podman" where
  "mockp_stop adapter_id m =
     ((case map_of (mp_stop_results_by_id m) adapter_id of
         Some result \<Rightarrow> result
       | None \<Rightarrow> unwrap_or (Inr ()) (mp_stop_result m)),
      m\<lparr>mp_stop_calls := mp_stop_calls m @ [adapter_id]\<rparr>)"

definition mockp_rm :: "string \<Rightarrow> mock_podman \<Rightarrow> (podman_error + unit) \<times> mock_podman" where
  "mockp_rm adapter_id m =
     (unwrap_or (Inr ()) (mp_rm_result m), m\<lparr>mp_rm_calls := mp_rm_calls m @ [adapter_id]\<rparr>)"

definition mockp_rmi :: "string \<Rightarrow> mock_podman \<Rightarrow> (podman_error + unit) \<times> mock_podman" where
  "mockp_rmi image_ref m =
     (unwrap_or (Inr ()) (mp_rmi_result m), m\<lparr>mp_rmi_calls := mp_rmi_calls m @ [image_ref]\<rparr>)"

definition mockp_wait :: "string \<Rightarrow> mock_podman \<Rightarrow> (podman_error + int) \<times> mock_podman" where
  "mockp_wait adapter_id m =
     (unwrap_or (Inr 0) (mp_wait_result m), m\<lparr>mp_wait_calls := mp_wait_calls m @ [adapter_id]\<rparr>)"

definition mock_executor :: "mock_podman podman_executor" where
  "mock_executor =
     \<lparr>px_pull = mockp_pull, px_inspect_digest = mockp_inspect_digest, px_run = mockp_run,
      px_stop = mockp_stop, px_rm = mockp_rm, px_rmi = mockp_rmi, px_wait = mockp_wait\<rparr>"

lemmas mock_executor_defs = mock_executor_def mockp_pull_def mockp_inspect_digest_def mockp_run_def
  mockp_stop_def mockp_rm_def mockp_rmi_def mockp_wait_def

lemma mock_executor_simps [simp]:
  "px_pull mock_executor = mockp_pull" "px_inspect_digest mock_executor = mockp_inspect_digest"
  "px_run mock_executor = mockp_run" "px_stop mock_executor = mockp_stop"
  "px_rm mock_executor = mockp_rm" "px_rmi mock_executor = mockp_rmi"
  "px_wait mock_executor = mockp_wait"
  by (simp_all add: mock_executor_def)

section \<open>What the executor reads from the CLI\<close>

text \<open>
  When \<open>podman wait\<close> succeeds and prints an exit code on a line of its own, the executor
  returns exactly that code; no other command is run.
\<close>
lemma wait_reads_exit_code:
  assumes "w_exec W t [''podman'', ''wait'', adapter_id] = Inr out"
    and "eo_success out" and "eo_stdout out = show_nat n @ [CHR 0x0A]" and "n < 2 ^ 31"
  shows "real_wait W adapter_id t =
     (Inr (int n), t @ [EvExec [''podman'', ''wait'', adapter_id] (Inr out)])"
  using assms
  by (simp add: real_wait_def podman_output_def io_simps Let_def trim_line parse_signed_show
      from_utf8_lossy_valid [OF line_valid_utf8])

end
