(* ===== verification/Update_Tasks.thy ===== *)
theory Update_Tasks
  imports Adapter_State Podman
begin

text \<open>
  rhivos/update-service/src/install.rs, monitor.rs and offload.rs. The asynchronous functions are
  programs over the actions that other tasks can observe: the operations of the state manager,
  the podman calls and the spawning of a task. Between two actions any other task may run. A
  program is run alone by \<open>exec\<close>, and interleaved with others by the step relation of
  Update_Concurrent.thy.
\<close>

section \<open>Programs\<close>

datatype install_error = InvalidArgument string

fun show_install_error :: "install_error \<Rightarrow> string" where
  "show_install_error (InvalidArgument msg) = ''invalid argument: '' @ msg"

datatype remove_error = RemoveNotFound string | PodmanFailed string

fun show_remove_error :: "remove_error \<Rightarrow> string" where
  "show_remove_error (RemoveNotFound msg) = ''not found: '' @ msg"
| "show_remove_error (PodmanFailed msg) = ''podman failed: '' @ msg"

text \<open>What a task returns: the three functions of the RPCs, or nothing.\<close>

datatype reply =
    Installed "install_error + string \<times> string \<times> adapter_state"
  | Removed "remove_error + unit"
  | NoReply

text \<open>
  The results of \<open>transition\<close> and \<open>remove_adapter\<close> of the state manager are dropped by every
  caller (\<open>let _ = ..\<close>), so these two actions give none. \<open>Candidates\<close> reads the clock and the
  offload candidates, \<open>Uuid\<close> draws a job id.
\<close>

datatype task =
    Return reply
  | Uuid "string \<Rightarrow> task"
  | Get_Running "adapter_entry option \<Rightarrow> task"
  | Get_Adapter string "adapter_entry option \<Rightarrow> task"
  | Candidates nat "adapter_entry list \<Rightarrow> task"
  | Create adapter_entry task
  | Transition string adapter_state "string option" task
  | Erase string task
  | Pull string "podman_error + unit \<Rightarrow> task"
  | Inspect_Digest string "podman_error + string \<Rightarrow> task"
  | Run_Container string string "podman_error + unit \<Rightarrow> task"
  | Stop string "podman_error + unit \<Rightarrow> task"
  | Rm string "podman_error + unit \<Rightarrow> task"
  | Rmi string "podman_error + unit \<Rightarrow> task"
  | Wait string "podman_error + int \<Rightarrow> task"
  | Spawn task task

section \<open>The asynchronous functions\<close>

definition monitor_container :: "string \<Rightarrow> task" where
  "monitor_container adapter_id =
     Wait adapter_id (\<lambda>result.
       case result of
         Inr code \<Rightarrow>
           if code = 0 then Transition adapter_id Stopped None (Return NoReply)
           else Transition adapter_id Error (Some (''container exited with code '' @ show_int code)) (Return NoReply)
       | Inl e \<Rightarrow> Transition adapter_id Error (Some (pe_message e)) (Return NoReply))"

text \<open>The spawned part of \<open>install_adapter\<close>.\<close>

definition install_task :: "string \<Rightarrow> string \<Rightarrow> string \<Rightarrow> task" where
  "install_task aid img_ref checksum =
     Pull img_ref (\<lambda>pulled.
       case pulled of
         Inl e \<Rightarrow> Transition aid Error (Some (pe_message e)) (Return NoReply)
       | Inr _ \<Rightarrow>
           Inspect_Digest img_ref (\<lambda>inspected.
             case inspected of
               Inr digest \<Rightarrow>
                 if digest \<noteq> checksum then
                   Transition aid Error (Some ''checksum_mismatch'')
                     (Rmi img_ref (\<lambda>_. Return NoReply))
                 else
                   Transition aid Installing None
                     (Run_Container aid img_ref (\<lambda>started.
                        case started of
                          Inl e \<Rightarrow> Transition aid Error (Some (pe_message e)) (Return NoReply)
                        | Inr _ \<Rightarrow>
                            Transition aid Running None
                              (Spawn (monitor_container aid) (Return NoReply))))
             | Inl e \<Rightarrow> Transition aid Error (Some (pe_message e)) (Return NoReply)))"

definition new_entry :: "string \<Rightarrow> string \<Rightarrow> string \<Rightarrow> string \<Rightarrow> adapter_entry" where
  "new_entry adapter_id image_ref checksum_sha256 job_id =
     \<lparr>ae_adapter_id = adapter_id, ae_image_ref = image_ref, ae_checksum_sha256 = checksum_sha256,
      ae_state = Unknown, ae_job_id = job_id, ae_stopped_at = None, ae_error_message = None\<rparr>"

definition install_rest :: "string \<Rightarrow> string \<Rightarrow> string \<Rightarrow> string \<Rightarrow> task" where
  "install_rest adapter_id image_ref checksum_sha256 job_id =
     Create (new_entry adapter_id image_ref checksum_sha256 job_id)
       (Transition adapter_id Downloading None
         (Spawn (install_task adapter_id image_ref checksum_sha256)
           (Return (Installed (Inr (job_id, adapter_id, Downloading))))))"

definition install_adapter :: "string \<Rightarrow> string \<Rightarrow> task" where
  "install_adapter image_ref checksum_sha256 =
     (if image_ref = [] then Return (Installed (Inl (InvalidArgument ''image_ref is required'')))
      else if checksum_sha256 = [] then
        Return (Installed (Inl (InvalidArgument ''checksum_sha256 is required'')))
      else
        (let adapter_id = derive_adapter_id image_ref in
         Uuid (\<lambda>job_id.
           Get_Running (\<lambda>found.
             case found of
               Some running \<Rightarrow>
                 Stop (ae_adapter_id running) (\<lambda>stopped.
                   case stopped of
                     Inr _ \<Rightarrow>
                       Transition (ae_adapter_id running) Stopped None
                         (install_rest adapter_id image_ref checksum_sha256 job_id)
                   | Inl e \<Rightarrow>
                       Transition (ae_adapter_id running) Error (Some (pe_message e))
                         (install_rest adapter_id image_ref checksum_sha256 job_id))
             | None \<Rightarrow> install_rest adapter_id image_ref checksum_sha256 job_id))))"

definition remove_failed :: "string \<Rightarrow> podman_error \<Rightarrow> task" where
  "remove_failed adapter_id e =
     Transition adapter_id Error (Some (pe_message e)) (Return (Removed (Inl (PodmanFailed (pe_message e)))))"

definition remove_rest :: "string \<Rightarrow> adapter_entry \<Rightarrow> task" where
  "remove_rest adapter_id adapter =
     Rm adapter_id (\<lambda>r. case r of
         Inl e \<Rightarrow> remove_failed adapter_id e
       | Inr _ \<Rightarrow>
           Rmi (ae_image_ref adapter) (\<lambda>r. case r of
               Inl e \<Rightarrow> remove_failed adapter_id e
             | Inr _ \<Rightarrow> Erase adapter_id (Return (Removed (Inr ())))))"

definition remove_adapter :: "string \<Rightarrow> task" where
  "remove_adapter adapter_id =
     Get_Adapter adapter_id (\<lambda>found. case found of
         None \<Rightarrow> Return (Removed (Inl (RemoveNotFound (''adapter not found: '' @ adapter_id))))
       | Some adapter \<Rightarrow>
           if ae_state adapter = Running then
             Stop adapter_id (\<lambda>r. case r of
                 Inl e \<Rightarrow> remove_failed adapter_id e
               | Inr _ \<Rightarrow> remove_rest adapter_id adapter)
           else remove_rest adapter_id adapter)"

fun offload_each :: "adapter_entry list \<Rightarrow> task" where
  "offload_each [] = Return NoReply"
| "offload_each (adapter # rest) =
     Transition (ae_adapter_id adapter) Offloading None
       (Rm (ae_adapter_id adapter) (\<lambda>r. case r of
           Inl e \<Rightarrow> Transition (ae_adapter_id adapter) Error (Some (pe_message e)) (offload_each rest)
         | Inr _ \<Rightarrow>
             Rmi (ae_image_ref adapter) (\<lambda>r. case r of
                 Inl e \<Rightarrow> Transition (ae_adapter_id adapter) Error (Some (pe_message e)) (offload_each rest)
               | Inr _ \<Rightarrow> Erase (ae_adapter_id adapter) (offload_each rest))))"

definition run_offload_cycle :: "nat \<Rightarrow> task" where
  "run_offload_cycle inactivity_timeout = Candidates inactivity_timeout offload_each"

section \<open>Running a task alone\<close>

text \<open>
  What a task runs on: the podman executor and the clocks, all functions of a state \<open>'w\<close>.
\<close>

record 'w host =
  ho_podman :: "'w podman_executor"
  ho_uuid :: "'w \<Rightarrow> string \<times> 'w"
  ho_instant :: "'w \<Rightarrow> nat"
  ho_secs :: "'w \<Rightarrow> 64 word option"

text \<open>\<open>exec\<close> runs a task to its end; the tasks it spawned are collected, not run.\<close>

primrec exec :: "'w host \<Rightarrow> task \<Rightarrow> 'w \<Rightarrow> state_manager \<Rightarrow> reply \<times> task list \<times> 'w \<times> state_manager" where
  "exec H (Return r) w sm = (r, [], w, sm)"
| "exec H (Uuid k) w sm = (let x = ho_uuid H w in exec H (k (fst x)) (snd x) sm)"
| "exec H (Get_Running k) w sm = exec H (k (get_running_adapter sm)) w sm"
| "exec H (Get_Adapter i k) w sm = exec H (k (get_adapter i sm)) w sm"
| "exec H (Candidates timeout k) w sm =
     exec H (k (get_offload_candidates timeout (ho_instant H w) sm)) w sm"
| "exec H (Create e k) w sm = exec H k w (create_adapter e sm)"
| "exec H (Transition i st msg k) w sm =
     exec H k w (snd (transition i st msg (ho_instant H w) (ho_secs H w) sm))"
| "exec H (Erase i k) w sm = exec H k w (snd (remove_adapter_state i sm))"
| "exec H (Pull img k) w sm = (let x = px_pull (ho_podman H) img w in exec H (k (fst x)) (snd x) sm)"
| "exec H (Inspect_Digest img k) w sm =
     (let x = px_inspect_digest (ho_podman H) img w in exec H (k (fst x)) (snd x) sm)"
| "exec H (Run_Container i img k) w sm =
     (let x = px_run (ho_podman H) i img w in exec H (k (fst x)) (snd x) sm)"
| "exec H (Stop i k) w sm = (let x = px_stop (ho_podman H) i w in exec H (k (fst x)) (snd x) sm)"
| "exec H (Rm i k) w sm = (let x = px_rm (ho_podman H) i w in exec H (k (fst x)) (snd x) sm)"
| "exec H (Rmi img k) w sm = (let x = px_rmi (ho_podman H) img w in exec H (k (fst x)) (snd x) sm)"
| "exec H (Wait i k) w sm = (let x = px_wait (ho_podman H) i w in exec H (k (fst x)) (snd x) sm)"
| "exec H (Spawn p k) w sm =
     (let x = exec H k w sm in (fst x, p # fst (snd x), snd (snd x)))"

text \<open>
  \<open>install_all\<close> is an installation on its own: the call, then its background task. The monitor
  that the task spawns blocks in \<open>podman wait\<close> until the container ends; it is returned.
\<close>

fun exec_all :: "'w host \<Rightarrow> task list \<Rightarrow> 'w \<Rightarrow> state_manager \<Rightarrow> task list \<times> 'w \<times> state_manager" where
  "exec_all H [] w sm = ([], w, sm)"
| "exec_all H (p # ps) w sm =
     (let x = exec H p w sm; y = exec_all H ps (fst (snd (snd x))) (snd (snd (snd x)))
      in (fst (snd x) @ fst y, snd y))"

definition install_all ::
    "'w host \<Rightarrow> string \<Rightarrow> string \<Rightarrow> 'w \<Rightarrow> state_manager \<Rightarrow> reply \<times> task list \<times> 'w \<times> state_manager" where
  "install_all H image_ref checksum w sm =
     (let x = exec H (install_adapter image_ref checksum) w sm;
          y = exec_all H (fst (snd x)) (fst (snd (snd x))) (snd (snd (snd x)))
      in (fst x, y))"

end
