(* ===== verification/Update_Properties.thy ===== *)
theory Update_Properties
  imports Update_Tasks
begin

text \<open>
  The properties of the update service when its operations run one at a time: adapter ids, the
  outcome of an installation, the single running adapter, removal and offloading. The
  interleavings are the subject of Update_Concurrent.thy.
\<close>

section \<open>Adapter ids\<close>

text \<open>
  The id of \<open>path/name:tag\<close> is \<open>name-tag\<close>, whatever the registry path is; no id has a slash
  or a colon in it.
\<close>
lemma adapter_id_format:
  assumes "CHR ''/'' \<notin> set name" "CHR '':'' \<notin> set name" "CHR ''/'' \<notin> set tag" "CHR '':'' \<notin> set tag"
  shows "derive_adapter_id (path @ ''/'' @ name @ '':'' @ tag) = name @ ''-'' @ tag \<and>
     set (derive_adapter_id image_ref) \<inter> {CHR ''/'', CHR '':''} = {}"
proof
  have "after_last (CHR ''/'') (path @ CHR ''/'' # (name @ '':'' @ tag)) = name @ '':'' @ tag"
    by (rule after_last_append) (use assms in simp)
  then show "derive_adapter_id (path @ ''/'' @ name @ '':'' @ tag) = name @ ''-'' @ tag"
    using assms by (simp add: derive_adapter_id_def replace_char_append replace_char_none)
      (simp add: replace_char_def replace_char_none [unfolded replace_char_def])
  have "CHR ''/'' \<notin> set (replace_char (CHR '':'') ''-'' (after_last (CHR ''/'') image_ref))"
    using after_last_notin set_replace_char by fastforce
  moreover have "CHR '':'' \<notin> set (replace_char (CHR '':'') ''-'' (after_last (CHR ''/'') image_ref))"
    using set_replace_char by fastforce
  ultimately show "set (derive_adapter_id image_ref) \<inter> {CHR ''/'', CHR '':''} = {}"
    by (simp add: derive_adapter_id_def Let_def)
qed

text \<open>
  Two images with different names and tags can have the same adapter id: \<open>a:b-c\<close> and
  \<open>a-b:c\<close> are both \<open>a-b-c\<close>.
\<close>
lemma adapter_ids_collide:
  "derive_adapter_id ''reg/a:b-c'' = derive_adapter_id ''reg/a-b:c''"
  by (simp add: derive_adapter_id_def after_last_def replace_char_def)

section \<open>Running a task\<close>

lemma exec_store [simp]:
  "exec H (Transition i st msg k) w sm = exec H k w (sm_move i st msg (ho_instant H w) (ho_secs H w) sm)"
  "exec H (Erase i k) w sm = exec H k w (sm_erase i sm)"
  by (simp_all add: sm_move_def sm_erase_def)

declare exec.simps(7,8) [simp del]

text \<open>The result of an installation by the answers that podman gives.\<close>

definition install_outcome :: "'w podman_executor \<Rightarrow> string \<Rightarrow> string \<Rightarrow> string \<Rightarrow> 'w \<Rightarrow> adapter_state \<times> string option" where
  "install_outcome P aid img checksum w =
     (case px_pull P img w of
        (Inl e, w1) \<Rightarrow> (Error, Some (pe_message e))
      | (Inr _, w1) \<Rightarrow>
     (case px_inspect_digest P img w1 of
        (Inl e, w2) \<Rightarrow> (Error, Some (pe_message e))
      | (Inr digest, w2) \<Rightarrow>
          if digest \<noteq> checksum then (Error, Some ''checksum_mismatch'')
          else (case px_run P aid img w2 of
                  (Inl e, w3) \<Rightarrow> (Error, Some (pe_message e))
                | (Inr _, w3) \<Rightarrow> (Running, None))))"

text \<open>A change of the store that touches one adapter, and leaves it there if it was there.\<close>

definition only_moved :: "string \<Rightarrow> state_manager \<Rightarrow> state_manager \<Rightarrow> bool" where
  "only_moved i sm sm' =
     ((\<forall>j. j \<noteq> i \<longrightarrow> sm_lookup sm' j = sm_lookup sm j) \<and>
      (sm_lookup sm' i = None \<longleftrightarrow> sm_lookup sm i = None) \<and> (wf_sm sm \<longrightarrow> wf_sm sm'))"

lemma only_moved_refl [simp]: "only_moved i sm sm"
  by (simp add: only_moved_def)

lemma only_moved_move: "only_moved i sm sm' \<Longrightarrow> only_moved i sm (sm_move i st msg now secs sm')"
  by (simp add: only_moved_def store_simps goto_def store.wf_move)

lemma install_task_effect:
  assumes "exec H (install_task aid img cs) w sm = (r, ps, w', sm')"
  shows "\<exists>sm0 now secs. only_moved aid sm sm0 \<and>
      sm' = sm_move aid (fst (install_outcome (ho_podman H) aid img cs w))
              (snd (install_outcome (ho_podman H) aid img cs w)) now secs sm0 \<and>
      ps = (if fst (install_outcome (ho_podman H) aid img cs w) = Running then [monitor_container aid] else [])"
proof -
  obtain a w1 where p: "px_pull (ho_podman H) img w = (a, w1)" by fastforce
  obtain b w2 where i: "px_inspect_digest (ho_podman H) img w1 = (b, w2)" by fastforce
  obtain c w3 where r: "px_run (ho_podman H) aid img w2 = (c, w3)" by fastforce
  note facts = install_task_def install_outcome_def Let_def p i r
  show ?thesis
  proof (cases a)
    case (Inl e)
    then show ?thesis using assms by (simp add: facts) (metis only_moved_refl)
  next
    case a: (Inr u)
    show ?thesis
    proof (cases b)
      case (Inl e)
      then show ?thesis using assms a by (simp add: facts) (metis only_moved_refl)
    next
      case b: (Inr digest)
      show ?thesis
      proof (cases "digest = cs")
        case False
        then show ?thesis using assms a b by (simp add: facts) (metis only_moved_refl)
      next
        case True
        have m: "only_moved aid sm (sm_move aid Installing None n s sm)" for n s
          by (simp add: only_moved_move)
        show ?thesis
        proof (cases c)
          case (Inl e)
          with assms a b True show ?thesis by (simp add: facts) (blast intro: m)
        next
          case (Inr v)
          with assms a b True show ?thesis by (simp add: facts) (blast intro: m)
        qed
      qed
    qed
  qed
qed

section \<open>One adapter at a time\<close>

text \<open>No two different adapters are running.\<close>

definition single_adapter :: "state_manager \<Rightarrow> bool" where
  "single_adapter sm =
     list_all (\<lambda>e. list_all (\<lambda>f. ae_state e = Running \<longrightarrow> ae_state f = Running \<longrightarrow>
        ae_adapter_id e = ae_adapter_id f) (list_adapters sm)) (list_adapters sm)"

lemma listed_iff: "wf_sm sm \<Longrightarrow> e \<in> set (list_adapters sm) \<longleftrightarrow> sm_lookup sm (ae_adapter_id e) = Some e"
  using in_values_map_of [of "sm_adapters sm" e] store.wf_id [of sm _ e]
  by (auto simp: list_adapters_def wf_sm_def)

lemma single_adapter_iff:
  assumes "wf_sm sm"
  shows "single_adapter sm \<longleftrightarrow> store.single_running sm"
proof
  assume l: "single_adapter sm"
  show "store.single_running sm"
    unfolding store.single_running_def
  proof (intro allI impI, elim conjE)
    fix i j e f
    assume e: "sm_lookup sm i = Some e" "sm_lookup sm j = Some f" "ae_state e = Running" "ae_state f = Running"
    then have "i = ae_adapter_id e" "j = ae_adapter_id f" using store.wf_id [OF assms] by metis+
    then have "e \<in> set (list_adapters sm)" "f \<in> set (list_adapters sm)"
      unfolding listed_iff [OF assms] using e(1,2) by blast+
    with l e(3,4) have "ae_adapter_id e = ae_adapter_id f"
      unfolding single_adapter_def list_all_iff by blast
    then show "i = j" using \<open>i = ae_adapter_id e\<close> \<open>j = ae_adapter_id f\<close> by metis
  qed
next
  assume "store.single_running sm"
  then show "single_adapter sm"
    unfolding single_adapter_def list_all_iff store.single_running_def
    using listed_iff [OF assms] by blast
qed

definition prepared ::
    "adapter_state \<Rightarrow> string option \<Rightarrow> nat \<Rightarrow> 64 word option \<Rightarrow> nat \<Rightarrow> 64 word option \<Rightarrow> string
     \<Rightarrow> string \<Rightarrow> string \<Rightarrow> state_manager \<Rightarrow> state_manager" where
  "prepared st msg n0 s0 n s job img cs sm =
     sm_move (derive_adapter_id img) Downloading None n s
       (create_adapter (new_entry (derive_adapter_id img) img cs job) (store.stop_running st msg n0 s0 sm))"

lemma install_adapter_effect:
  assumes "img \<noteq> []" "cs \<noteq> []"
  obtains job w' st msg n0 s0 n s where "st \<in> {Stopped, Error}"
    and "exec H (install_adapter img cs) w sm =
       (Installed (Inr (job, derive_adapter_id img, Downloading)),
        [install_task (derive_adapter_id img) img cs], w', prepared st msg n0 s0 n s job img cs sm)"
proof -
  obtain job w1 where u: "ho_uuid H w = (job, w1)" by fastforce
  note unfold = install_adapter_def install_rest_def Let_def store.stop_running_def prepared_def
  show ?thesis
  proof (cases "get_running_adapter sm")
    case None
    have "exec H (install_adapter img cs) w sm =
       (Installed (Inr (job, derive_adapter_id img, Downloading)),
        [install_task (derive_adapter_id img) img cs], w1,
        prepared Stopped None 0 None (ho_instant H w1) (ho_secs H w1) job img cs sm)"
      using assms u None by (simp add: unfold)
    then show ?thesis by (rule that [rotated]) simp
  next
    case (Some e)
    obtain r w2 where st: "px_stop (ho_podman H) (ae_adapter_id e) w1 = (r, w2)" by fastforce
    define st msg where "st = (if is_ok r then Stopped else Error)"
      and "msg = (case r of Inl x \<Rightarrow> Some (pe_message x) | Inr _ \<Rightarrow> None)"
    have "exec H (install_adapter img cs) w sm =
       (Installed (Inr (job, derive_adapter_id img, Downloading)),
        [install_task (derive_adapter_id img) img cs], w2,
        prepared st msg (ho_instant H w2) (ho_secs H w2) (ho_instant H w2) (ho_secs H w2) job img cs sm)"
      using assms u Some st by (cases r) (simp_all add: unfold st_def msg_def)
    then show ?thesis by (rule that [rotated]) (simp add: st_def)
  qed
qed

text \<open>What is left of the store when the new entry is in place: nothing runs.\<close>

lemma before_start_none_running:
  assumes "wf_sm sm" "store.single_running sm" "st \<in> {Stopped, Error}"
  shows "wf_sm (prepared st msg n0 s0 n s job img cs sm)"
    and "sm_lookup (prepared st msg n0 s0 n s job img cs sm) j = Some e \<Longrightarrow> ae_state e \<noteq> Running"
proof -
  show "wf_sm (prepared st msg n0 s0 n s job img cs sm)"
    using assms(1) by (auto simp: prepared_def store.stop_running_def split: option.splits)
  show "sm_lookup (prepared st msg n0 s0 n s job img cs sm) j = Some e \<Longrightarrow> ae_state e \<noteq> Running"
    using assms(3) store.stop_running_none [OF assms(1,2), of st msg n0 s0 j e]
    by (auto simp: prepared_def store_simps goto_def new_entry_def split: if_splits)
qed

lemma install_all_effect:
  assumes "img \<noteq> []" "cs \<noteq> []" "install_all H img cs w sm = (r, ps, w', sm')"
  obtains job st msg n0 s0 n s w1 sm0 now secs out where "st \<in> {Stopped, Error}"
    and "out = install_outcome (ho_podman H) (derive_adapter_id img) img cs w1"
    and "r = Installed (Inr (job, derive_adapter_id img, Downloading))"
    and "only_moved (derive_adapter_id img) (prepared st msg n0 s0 n s job img cs sm) sm0"
    and "sm' = sm_move (derive_adapter_id img) (fst out) (snd out) now secs sm0"
    and "ps = (if fst out = Running then [monitor_container (derive_adapter_id img)] else [])"
proof -
  obtain job w1 st msg n0 s0 n s where st: "st \<in> {Stopped, Error}" and e:
    "exec H (install_adapter img cs) w sm =
       (Installed (Inr (job, derive_adapter_id img, Downloading)),
        [install_task (derive_adapter_id img) img cs], w1, prepared st msg n0 s0 n s job img cs sm)"
    by (rule install_adapter_effect [OF assms(1,2), of H w sm])
  obtain r2 ps2 w2 sm2 where t: "exec H (install_task (derive_adapter_id img) img cs) w1
      (prepared st msg n0 s0 n s job img cs sm) = (r2, ps2, w2, sm2)" by (metis prod_cases4)
  have "r = Installed (Inr (job, derive_adapter_id img, Downloading))" "ps = ps2" "sm' = sm2"
    using assms(3) e t by (simp_all add: install_all_def Let_def)
  then show ?thesis using install_task_effect [OF t] st that by (elim exE conjE) metis
qed

text \<open>
  C18: Installations made one after the other keep the single adapter constraint: if at most one
  adapter is running before, at most one is running when the installation and its background
  task have ended, whatever podman answers to any of the calls.
\<close>
theorem installation_keeps_single_adapter:
  assumes "wf_sm sm" "single_adapter sm"
  shows "case install_all H img cs w sm of (r, ps, w', sm') \<Rightarrow> wf_sm sm' \<and> single_adapter sm'"
proof (cases "img = [] \<or> cs = []")
  case True
  then show ?thesis using assms by (auto simp: install_all_def install_adapter_def)
next
  case False
  obtain r ps w' sm' where i: "install_all H img cs w sm = (r, ps, w', sm')" by (metis prod_cases4)
  define aid where "aid = derive_adapter_id img"
  from False have "img \<noteq> []" "cs \<noteq> []" by auto
  then obtain job st msg n0 s0 n s w1 sm0 now secs out where x: "st \<in> {Stopped, Error}"
    "only_moved aid (prepared st msg n0 s0 n s job img cs sm) sm0"
    "sm' = sm_move aid (fst out) (snd out) now secs sm0"
    using install_all_effect [OF _ _ i, folded aid_def] by metis
  have single: "store.single_running sm" using assms by (simp add: single_adapter_iff)
  note before = before_start_none_running [OF assms(1) single x(1), of msg n0 s0 n s job img cs]
  have wf: "wf_sm sm'" using x(2,3) before(1) by (auto simp: only_moved_def)
  have "ae_state e \<noteq> Running" if "sm_lookup sm' j = Some e" "j \<noteq> aid" for j e
    using that x(2,3) before(2) [of j e] by (simp add: store_simps only_moved_def)
  then have "store.single_running sm'" by (rule store.single_running_start)
  with wf i show ?thesis by (simp add: single_adapter_iff)
qed

definition mock_host :: "mock_podman host" where
  "mock_host =
     \<lparr>ho_podman = mock_executor, ho_uuid = (\<lambda>m. (''job'', m)), ho_instant = (\<lambda>_. 0), ho_secs = (\<lambda>_. Some 0)\<rparr>"

lemma installation_keeps_single_adapter_witness:
  "case install_all mock_host ''r/a:1'' ''sha256:default'' mock_podman_new sm_new of
     (r, ps, w', sm') \<Rightarrow> wf_sm sm' \<and> single_adapter sm'"
  by (rule installation_keeps_single_adapter)
    (simp_all add: sm_new_def wf_sm_def single_adapter_def list_adapters_def)

text \<open>
  C17: An installation with an image and a checksum answers at once with the derived id and the
  state DOWNLOADING; when its task has ended, the adapter is RUNNING exactly when the pull, the
  inspection and the start succeeded and the digest is the requested checksum, and otherwise in
  ERROR; only a running adapter gets a monitor.
\<close>
theorem installation_outcome:
  assumes "img \<noteq> []" "cs \<noteq> []"
  shows "case exec H (install_adapter img cs) w sm of (r, tasks, w1, sm1) \<Rightarrow>
     (\<exists>job. r = Installed (Inr (job, derive_adapter_id img, Downloading))) \<and>
     (\<exists>task. tasks = [task] \<and>
        (case exec H task w1 sm1 of (done, ps, w2, sm2) \<Rightarrow>
          let aid = derive_adapter_id img; out = install_outcome (ho_podman H) aid img cs w1 in
            map_option ae_state (sm_lookup sm2 aid) = Some (fst out) \<and>
            ps = (if fst out = Running then [monitor_container aid] else [])))"
proof -
  define aid where "aid = derive_adapter_id img"
  obtain job w1 st msg n0 s0 n s where e:
    "exec H (install_adapter img cs) w sm =
       (Installed (Inr (job, aid, Downloading)), [install_task aid img cs], w1, prepared st msg n0 s0 n s job img cs sm)"
    by (rule install_adapter_effect [OF assms, of H w sm, folded aid_def])
  let ?sm1 = "prepared st msg n0 s0 n s job img cs sm"
  obtain r2 ps w2 sm2 where t: "exec H (install_task aid img cs) w1 ?sm1 = (r2, ps, w2, sm2)"
    by (metis prod_cases4)
  define out where "out = install_outcome (ho_podman H) aid img cs w1"
  obtain sm0 now secs where x: "only_moved aid ?sm1 sm0" "sm2 = sm_move aid (fst out) (snd out) now secs sm0"
    "ps = (if fst out = Running then [monitor_container aid] else [])"
    using install_task_effect [OF t] unfolding out_def by (elim exE conjE) metis
  have "sm_lookup sm0 aid \<noteq> None"
    using x(1) by (simp add: only_moved_def prepared_def aid_def [symmetric] store_simps goto_def new_entry_def)
  then have "map_option ae_state (sm_lookup sm2 aid) = Some (fst out)"
    by (auto simp: x(2) store_simps goto_def)
  then show ?thesis using e t x(3) by (auto simp: Let_def out_def aid_def)
qed

lemma installation_outcome_witness:
  "\<exists>job. fst (exec mock_host (install_adapter ''r/a:1'' ''sha256:other'') mock_podman_new sm_new) =
     Installed (Inr (job, ''a-1'', Downloading))"
  using installation_outcome [of "''r/a:1''" "''sha256:other''" mock_host mock_podman_new sm_new]
  by (cases "exec mock_host (install_adapter ''r/a:1'' ''sha256:other'') mock_podman_new sm_new")
    (simp add: derive_adapter_id_def after_last_def replace_char_def)

section \<open>The transitions that are emitted\<close>

text \<open>The state machine of the design, as the property tests of the service list it.\<close>

definition VALID_TRANSITIONS :: "(adapter_state \<times> adapter_state) list" where
  "VALID_TRANSITIONS =
     [(Unknown, Downloading), (Downloading, Installing), (Downloading, Error),
      (Installing, Running), (Installing, Error), (Running, Stopped), (Running, Error),
      (Stopped, Offloading), (Offloading, Error)]"

definition event_edge :: "adapter_event \<Rightarrow> adapter_state \<times> adapter_state" where
  "event_edge ev = (av_old_state ev, av_new_state ev)"

text \<open>From one store to another only transitions of the machine were emitted.\<close>

definition proper_log :: "state_manager \<Rightarrow> state_manager \<Rightarrow> bool" where
  "proper_log sm sm' =
     (\<exists>new. sm_events sm' = sm_events sm @ new \<and> event_edge ` set new \<subseteq> set VALID_TRANSITIONS)"

lemma proper_log_refl [simp]: "proper_log sm sm"
  by (simp add: proper_log_def)

lemma proper_log_move:
  assumes "proper_log sm sm1"
    and "\<And>e. sm_lookup sm1 i = Some e \<Longrightarrow> (ae_state e, st) \<in> set VALID_TRANSITIONS"
  shows "proper_log sm (sm_move i st msg now secs sm1)"
proof -
  obtain new where n: "sm_events sm1 = sm_events sm @ new" "event_edge ` set new \<subseteq> set VALID_TRANSITIONS"
    using assms(1) by (auto simp: proper_log_def)
  show ?thesis unfolding proper_log_def
    by (rule exI [of _ "new @ emitted i st secs (sm_lookup sm1 i)"])
      (use n assms(2) in \<open>auto simp: store_simps emitted_def event_edge_def split: option.splits\<close>)
qed

lemma proper_log_create [simp]: "proper_log sm (create_adapter e sm1) \<longleftrightarrow> proper_log sm sm1"
  by (simp add: proper_log_def store_simps)

lemma proper_log_erase [simp]: "proper_log sm (sm_erase i sm1) \<longleftrightarrow> proper_log sm sm1"
  by (simp add: proper_log_def store_simps)

lemma install_task_log:
  assumes "exec H (install_task aid img cs) w sm1 = (r, ps, w', sm')"
    and "proper_log sm sm1" and "map_option ae_state (sm_lookup sm1 aid) = Some Downloading"
  shows "proper_log sm sm'"
proof -
  obtain a w1 where p: "px_pull (ho_podman H) img w = (a, w1)" by fastforce
  obtain b w2 where i: "px_inspect_digest (ho_podman H) img w1 = (b, w2)" by fastforce
  obtain c w3 where r: "px_run (ho_podman H) aid img w2 = (c, w3)" by fastforce
  have down: "proper_log sm (sm_move aid st msg n s sm1)" if "st \<in> {Error, Installing}" for st msg n s
    using that assms(3) by (intro proper_log_move assms(2)) (auto simp: VALID_TRANSITIONS_def)
  have inst: "proper_log sm (sm_move aid st msg n s (sm_move aid Installing None n' s' sm1))"
    if "st \<in> {Error, Running}" for st msg n s n' s'
    using that assms(3)
    by (intro proper_log_move [OF down]) (auto simp: VALID_TRANSITIONS_def store_simps goto_def)
  show ?thesis
    using assms(1) p i r
    by (cases a; cases b; cases c; cases "projr b = cs")
      (auto simp: install_task_def Let_def down inst)
qed

text \<open>
  When installations run one at a time, every event that they emit is a transition of the
  state machine: the adapter that had to make room goes from RUNNING to STOPPED or ERROR, the new
  one from UNKNOWN to DOWNLOADING and on.
\<close>
lemma installation_emits_valid_transitions:
  assumes "wf_sm sm"
  shows "case install_all H img cs w sm of
     (r, ps, w', sm') \<Rightarrow>
       \<exists>new. sm_events sm' = sm_events sm @ new \<and> event_edge ` set new \<subseteq> set VALID_TRANSITIONS"
proof (cases "img = [] \<or> cs = []")
  case True
  then show ?thesis by (auto simp: install_all_def install_adapter_def)
next
  case False
  then have ne: "img \<noteq> []" "cs \<noteq> []" by auto
  obtain job w1 st msg n0 s0 n s where st: "st \<in> {Stopped, Error}" and e:
    "exec H (install_adapter img cs) w sm =
       (Installed (Inr (job, derive_adapter_id img, Downloading)),
        [install_task (derive_adapter_id img) img cs], w1, prepared st msg n0 s0 n s job img cs sm)"
    by (rule install_adapter_effect [OF ne, of H w sm])
  obtain r2 ps2 w2 sm2 where t: "exec H (install_task (derive_adapter_id img) img cs) w1
      (prepared st msg n0 s0 n s job img cs sm) = (r2, ps2, w2, sm2)" by (metis prod_cases4)
  have "proper_log sm (store.stop_running st msg n0 s0 sm)"
    using st store.running_Some [OF assms]
    by (auto simp: store.stop_running_def VALID_TRANSITIONS_def split: option.splits
        intro!: proper_log_move)
  then have "proper_log sm (prepared st msg n0 s0 n s job img cs sm)"
    unfolding prepared_def
    by (intro proper_log_move) (auto simp: store_simps new_entry_def VALID_TRANSITIONS_def)
  moreover have "map_option ae_state (sm_lookup (prepared st msg n0 s0 n s job img cs sm) (derive_adapter_id img)) = Some Downloading"
    by (simp add: prepared_def store_simps goto_def new_entry_def)
  ultimately have "proper_log sm sm2" by (rule install_task_log [OF t])
  then show ?thesis using e t by (auto simp: install_all_def Let_def proper_log_def)
qed

section \<open>Monitoring, removal and offloading\<close>

text \<open>
  The monitor moves the adapter to STOPPED when the container ended with exit code 0, and to
  ERROR otherwise, with the exit code or the error of \<open>podman wait\<close> as the message; other
  adapters are left alone.
\<close>
lemma monitor_outcome:
  "case exec H (monitor_container aid) w sm of
     (r, ps, w', sm') \<Rightarrow>
       sm_lookup sm' = (sm_lookup sm)(aid :=
         (case fst (px_wait (ho_podman H) aid w) of
            Inr code \<Rightarrow>
              if code = 0 then goto Stopped None (ho_instant H w') (sm_lookup sm aid)
              else goto Error (Some (''container exited with code '' @ show_int code)) (ho_instant H w') (sm_lookup sm aid)
          | Inl e \<Rightarrow> goto Error (Some (pe_message e)) (ho_instant H w') (sm_lookup sm aid)))"
  by (auto simp: monitor_container_def Let_def store_simps split: sum.splits)

text \<open>
  C21: Removing an adapter that is known calls \<open>podman stop\<close> exactly when it is running, then
  \<open>rm\<close>, then \<open>rmi\<close>; it succeeds when all of them do, and then the entry is gone. The first
  call that fails ends the removal with its message and leaves the adapter in ERROR. An unknown
  adapter is reported and nothing changes.
\<close>
theorem removal_outcome:
  "case exec H (remove_adapter aid) w sm of
     (r, ps, w', sm') \<Rightarrow>
       (case sm_lookup sm aid of
          None \<Rightarrow> r = Removed (Inl (RemoveNotFound (''adapter not found: '' @ aid))) \<and> sm' = sm \<and> w' = w
        | Some e \<Rightarrow>
            (case (if ae_state e = Running then px_stop (ho_podman H) aid w else (Inr (), w)) of
               (Inl x, w1) \<Rightarrow> r = Removed (Inl (PodmanFailed (pe_message x))) \<and> w' = w1 \<and>
                 sm_lookup sm' = (sm_lookup sm)(aid \<mapsto> move_entry Error (Some (pe_message x)) (ho_instant H w1) e)
             | (Inr _, w1) \<Rightarrow>
            (case px_rm (ho_podman H) aid w1 of
               (Inl x, w2) \<Rightarrow> r = Removed (Inl (PodmanFailed (pe_message x))) \<and> w' = w2 \<and>
                 sm_lookup sm' = (sm_lookup sm)(aid \<mapsto> move_entry Error (Some (pe_message x)) (ho_instant H w2) e)
             | (Inr _, w2) \<Rightarrow>
            (case px_rmi (ho_podman H) (ae_image_ref e) w2 of
               (Inl x, w3) \<Rightarrow> r = Removed (Inl (PodmanFailed (pe_message x))) \<and> w' = w3 \<and>
                 sm_lookup sm' = (sm_lookup sm)(aid \<mapsto> move_entry Error (Some (pe_message x)) (ho_instant H w3) e)
             | (Inr _, w3) \<Rightarrow> r = Removed (Inr ()) \<and> w' = w3 \<and> sm_lookup sm' = (sm_lookup sm)(aid := None)))))"
proof (cases "sm_lookup sm aid")
  case None
  then show ?thesis by (simp add: remove_adapter_def get_adapter_def)
next
  case (Some e)
  obtain a w1 where a: "(if ae_state e = Running then px_stop (ho_podman H) aid w else (Inr (), w)) = (a, w1)"
    by fastforce
  obtain b w2 where b: "px_rm (ho_podman H) aid w1 = (b, w2)" by fastforce
  obtain c w3 where c: "px_rmi (ho_podman H) (ae_image_ref e) w2 = (c, w3)" by fastforce
  have rest: "case exec H (remove_rest aid e) w1 sm of (r, ps, w', sm') \<Rightarrow>
      (case b of
         Inl x \<Rightarrow> r = Removed (Inl (PodmanFailed (pe_message x))) \<and> w' = w2 \<and>
           sm_lookup sm' = (sm_lookup sm)(aid \<mapsto> move_entry Error (Some (pe_message x)) (ho_instant H w2) e)
       | Inr _ \<Rightarrow>
      (case c of
         Inl x \<Rightarrow> r = Removed (Inl (PodmanFailed (pe_message x))) \<and> w' = w3 \<and>
           sm_lookup sm' = (sm_lookup sm)(aid \<mapsto> move_entry Error (Some (pe_message x)) (ho_instant H w3) e)
       | Inr _ \<Rightarrow> r = Removed (Inr ()) \<and> w' = w3 \<and> sm_lookup sm' = (sm_lookup sm)(aid := None)))"
    using b c Some by (cases b; cases c) (simp_all add: remove_rest_def remove_failed_def store_simps goto_def)
  show ?thesis
  proof (cases "ae_state e = Running")
    case True
    then show ?thesis using Some a b c rest
      by (cases a) (auto simp: remove_adapter_def get_adapter_def remove_failed_def store_simps goto_def
          split: sum.splits)
  next
    case False
    then show ?thesis using Some a b c rest
      by (auto simp: remove_adapter_def get_adapter_def split: sum.splits)
  qed
qed

definition gone_or_error :: "adapter_entry option \<Rightarrow> bool" where
  "gone_or_error e = (case e of None \<Rightarrow> True | Some x \<Rightarrow> ae_state x = Error)"

lemma gone_or_error_simps [simp]:
  "gone_or_error None" "gone_or_error (goto Error msg now e)"
  by (auto simp: gone_or_error_def goto_def split: option.splits)

lemma offload_each_effect:
  "case exec H (offload_each as) w sm of
     (r, ps, w', sm') \<Rightarrow>
       (wf_sm sm \<longrightarrow> wf_sm sm') \<and>
       (\<forall>i. if i \<in> ae_adapter_id ` set as then gone_or_error (sm_lookup sm' i)
            else sm_lookup sm' i = sm_lookup sm i)"
proof (induction "as" arbitrary: w sm)
  case (Cons a "as")
  define sm1 where "sm1 = sm_move (ae_adapter_id a) Offloading None (ho_instant H w) (ho_secs H w) sm"
  obtain x w1 where x: "px_rm (ho_podman H) (ae_adapter_id a) w = (x, w1)" by fastforce
  obtain y w2 where y: "px_rmi (ho_podman H) (ae_image_ref a) w1 = (y, w2)" by fastforce
  obtain sm2 w3 where sm2: "exec H (offload_each (a # as)) w sm = exec H (offload_each as) w3 sm2"
    and wf: "wf_sm sm \<longrightarrow> wf_sm sm2" and at: "gone_or_error (sm_lookup sm2 (ae_adapter_id a))"
    and off: "\<forall>i. i \<noteq> ae_adapter_id a \<longrightarrow> sm_lookup sm2 i = sm_lookup sm i"
  proof (cases x)
    case (Inl e)
    show ?thesis
      by (rule that [of w1 "sm_move (ae_adapter_id a) Error (Some (pe_message e)) (ho_instant H w1) (ho_secs H w1) sm1"])
        (use Inl x in \<open>auto simp: sm1_def store_simps\<close>)
  next
    case x': (Inr u)
    show ?thesis
    proof (cases y)
      case (Inl e)
      show ?thesis
        by (rule that [of w2 "sm_move (ae_adapter_id a) Error (Some (pe_message e)) (ho_instant H w2) (ho_secs H w2) sm1"])
          (use Inl x x' y in \<open>auto simp: sm1_def store_simps\<close>)
    next
      case (Inr v)
      show ?thesis
        by (rule that [of w2 "sm_erase (ae_adapter_id a) sm1"])
          (use Inr x x' y in \<open>auto simp: sm1_def store_simps\<close>)
    qed
  qed
  show ?case
    using Cons.IH [where w = w3 and sm = sm2] wf at off unfolding sm2 by (auto split: prod.splits if_splits)
qed simp

definition offloadable :: "nat \<Rightarrow> nat \<Rightarrow> adapter_entry \<Rightarrow> bool" where
  "offloadable timeout now e =
     (ae_state e = Stopped \<and> (\<exists>t. ae_stopped_at e = Some t \<and> timeout \<le> now - t))"

text \<open>
  C22: An offload cycle takes exactly the adapters that have been STOPPED for the timeout or
  longer: each of them is gone afterwards, or in ERROR when a podman call failed; one failure
  does not keep the others from being offloaded, and all other adapters are left as they were.
\<close>
theorem offload_cycle_outcome:
  assumes "wf_sm sm"
  shows "case exec H (run_offload_cycle timeout) w sm of
     (r, ps, w', sm') \<Rightarrow> wf_sm sm' \<and>
       (\<forall>i. if \<exists>e. sm_lookup sm i = Some e \<and> offloadable timeout (ho_instant H w) e
            then gone_or_error (sm_lookup sm' i)
            else sm_lookup sm' i = sm_lookup sm i)"
proof -
  let ?as = "get_offload_candidates timeout (ho_instant H w) sm"
  have "e \<in> set ?as \<longleftrightarrow> e \<in> set (list_adapters sm) \<and> offloadable timeout (ho_instant H w) e" for e
    by (auto simp: get_offload_candidates_def list_adapters_def offloadable_def split: option.splits)
  then have "i \<in> ae_adapter_id ` set ?as \<longleftrightarrow> (\<exists>e. sm_lookup sm i = Some e \<and> offloadable timeout (ho_instant H w) e)" for i
    using listed_iff [OF assms] store.wf_id [OF assms] by (metis (no_types, lifting) image_iff)
  then show ?thesis
    using offload_each_effect [where H = H and ?as = ?as and w = w and sm = sm] assms by (simp add: run_offload_cycle_def)
qed

definition parked :: state_manager where
  "parked = \<lparr>sm_adapters = [(''a'', (new_entry ''a'' ''r/a'' ''c'' ''j'')
     \<lparr>ae_state := Stopped, ae_stopped_at := Some 0\<rparr>)], sm_events = []\<rparr>"

lemma offload_cycle_outcome_witness:
  "gone_or_error (sm_lookup (snd (snd (snd (exec mock_host (run_offload_cycle 0) mock_podman_new parked)))) ''a'')"
proof -
  have "wf_sm parked" by (simp add: wf_sm_def parked_def new_entry_def)
  moreover have "\<exists>e. sm_lookup parked ''a'' = Some e \<and> offloadable 0 (ho_instant mock_host mock_podman_new) e"
    by (simp add: parked_def offloadable_def)
  ultimately show ?thesis
    using offload_cycle_outcome [where sm = parked and H = mock_host and timeout = 0 and w = mock_podman_new]
    by (auto split: prod.splits)
qed

end
