(* ===== verification/Update_Concurrent.thy ===== *)
theory Update_Concurrent
  imports Update_Properties
begin

text \<open>
  The tasks of the update service under every interleaving: requests arrive at any time, the
  actions of the running tasks alternate in any order, the offload timer ticks, and podman, the
  clocks and the job ids answer anything. A ghost log records the requests and the podman calls
  with their answers. The step relation has an invariant from which the safety properties
  follow; schedules show what it does not promise.
\<close>

section \<open>One action of a task\<close>

datatype call =
    CInstall string string
  | CRemove string
  | CPull string "podman_error + unit"
  | CInspect string "podman_error + string"
  | CRun string string "podman_error + unit"
  | CStop string "podman_error + unit"
  | CRm string "podman_error + unit"
  | CRmi string "podman_error + unit"
  | CWait string "podman_error + int"

text \<open>What the outside may answer to the next action.\<close>

record answer =
  an_uuid :: string
  an_unit :: "podman_error + unit"
  an_digest :: "podman_error + string"
  an_code :: "podman_error + int"
  an_now :: nat
  an_secs :: "64 word option"

fun act :: "answer \<Rightarrow> task \<Rightarrow> state_manager \<Rightarrow> (task \<times> task list \<times> call list \<times> state_manager) option" where
  "act a (Return r) sm = None"
| "act a (Uuid k) sm = Some (k (an_uuid a), [], [], sm)"
| "act a (Get_Running k) sm = Some (k (get_running_adapter sm), [], [], sm)"
| "act a (Get_Adapter i k) sm = Some (k (get_adapter i sm), [], [], sm)"
| "act a (Candidates timeout k) sm = Some (k (get_offload_candidates timeout (an_now a) sm), [], [], sm)"
| "act a (Create e k) sm = Some (k, [], [], create_adapter e sm)"
| "act a (Transition i st msg k) sm = Some (k, [], [], snd (transition i st msg (an_now a) (an_secs a) sm))"
| "act a (Erase i k) sm = Some (k, [], [], snd (remove_adapter_state i sm))"
| "act a (Pull img k) sm = Some (k (an_unit a), [], [CPull img (an_unit a)], sm)"
| "act a (Inspect_Digest img k) sm = Some (k (an_digest a), [], [CInspect img (an_digest a)], sm)"
| "act a (Run_Container i img k) sm = Some (k (an_unit a), [], [CRun i img (an_unit a)], sm)"
| "act a (Stop i k) sm = Some (k (an_unit a), [], [CStop i (an_unit a)], sm)"
| "act a (Rm i k) sm = Some (k (an_unit a), [], [CRm i (an_unit a)], sm)"
| "act a (Rmi img k) sm = Some (k (an_unit a), [], [CRmi img (an_unit a)], sm)"
| "act a (Wait i k) sm = Some (k (an_code a), [], [CWait i (an_code a)], sm)"
| "act a (Spawn p k) sm = Some (k, [p], [], sm)"

section \<open>The system\<close>

text \<open>
  \<open>us_timer\<close> is the offload cycle that the timer task is running, \<open>None\<close> while it sleeps: cycles
  never overlap each other. \<open>rehash\<close> lets the hash map be iterated in another order.
\<close>

record update_system =
  us_tasks :: "task list"
  us_timer :: "task option"
  us_sm :: state_manager
  us_log :: "call list"

definition us_init :: update_system where
  "us_init = \<lparr>us_tasks = [], us_timer = None, us_sm = sm_new, us_log = []\<rparr>"

text \<open>
  A removal may start at any time. The handler of grpc.rs looks the adapter up before it starts one
  and answers NOT_FOUND itself; the step leaves that out and so admits more runs.
\<close>

inductive sys_step :: "nat \<Rightarrow> update_system \<Rightarrow> update_system \<Rightarrow> bool" for timeout :: nat where
  install: "sys_step timeout s (s\<lparr>us_tasks := us_tasks s @ [install_adapter img cs],
     us_log := us_log s @ [CInstall img cs]\<rparr>)"
| remove: "sys_step timeout s (s\<lparr>us_tasks := us_tasks s @ [remove_adapter i],
     us_log := us_log s @ [CRemove i]\<rparr>)"
| turn: "us_tasks s = xs @ p # ys \<Longrightarrow> act a p (us_sm s) = Some (q, new, calls, sm') \<Longrightarrow>
     sys_step timeout s (s\<lparr>us_tasks := xs @ q # ys @ new, us_sm := sm', us_log := us_log s @ calls\<rparr>)"
| tick: "us_timer s = None \<Longrightarrow> sys_step timeout s (s\<lparr>us_timer := Some (run_offload_cycle timeout)\<rparr>)"
| timer_turn: "us_timer s = Some p \<Longrightarrow> act a p (us_sm s) = Some (q, new, calls, sm') \<Longrightarrow>
     sys_step timeout s (s\<lparr>us_timer := Some q, us_tasks := us_tasks s @ new, us_sm := sm',
       us_log := us_log s @ calls\<rparr>)"
| timer_sleep: "us_timer s = Some (Return r) \<Longrightarrow> sys_step timeout s (s\<lparr>us_timer := None\<rparr>)"
| rehash: "distinct (map fst al) \<Longrightarrow> set al = set (sm_adapters (us_sm s)) \<Longrightarrow>
     sys_step timeout s (s\<lparr>us_sm := (us_sm s)\<lparr>sm_adapters := al\<rparr>\<rparr>)"

inductive_cases act_returned: "sys_step timeout s t"

text \<open>Schedules: the same steps as a function, to compute reachable states.\<close>

datatype choice = DoInstall string string | DoRemove string | DoTurn nat answer | DoTick | DoTimer answer

fun obey :: "nat \<Rightarrow> choice \<Rightarrow> update_system \<Rightarrow> update_system option" where
  "obey timeout (DoInstall img cs) s =
     Some (s\<lparr>us_tasks := us_tasks s @ [install_adapter img cs], us_log := us_log s @ [CInstall img cs]\<rparr>)"
| "obey timeout (DoRemove i) s =
     Some (s\<lparr>us_tasks := us_tasks s @ [remove_adapter i], us_log := us_log s @ [CRemove i]\<rparr>)"
| "obey timeout (DoTurn n a) s =
     (if n < length (us_tasks s) then
        (case act a (us_tasks s ! n) (us_sm s) of
           None \<Rightarrow> None
         | Some (q, new, calls, sm') \<Rightarrow>
             Some (s\<lparr>us_tasks := (us_tasks s)[n := q] @ new, us_sm := sm', us_log := us_log s @ calls\<rparr>))
      else None)"
| "obey timeout DoTick s =
     (case us_timer s of None \<Rightarrow> Some (s\<lparr>us_timer := Some (run_offload_cycle timeout)\<rparr>) | Some _ \<Rightarrow> None)"
| "obey timeout (DoTimer a) s =
     (case us_timer s of
        None \<Rightarrow> None
      | Some p \<Rightarrow>
          (case act a p (us_sm s) of
             None \<Rightarrow> Some (s\<lparr>us_timer := None\<rparr>)
           | Some (q, new, calls, sm') \<Rightarrow>
               Some (s\<lparr>us_timer := Some q, us_tasks := us_tasks s @ new, us_sm := sm',
                 us_log := us_log s @ calls\<rparr>)))"

fun follow :: "nat \<Rightarrow> choice list \<Rightarrow> update_system \<Rightarrow> update_system option" where
  "follow timeout [] s = Some s"
| "follow timeout (c # cs) s = Option.bind (obey timeout c s) (follow timeout cs)"

lemma act_None: "act a p sm = None \<Longrightarrow> \<exists>r. p = Return r"
  by (cases p) auto

lemma obey_step: "obey timeout c s = Some t \<Longrightarrow> sys_step timeout s t"
proof (induction timeout c s rule: obey.induct)
  case (3 timeout n a s)
  obtain q new calls sm' where n: "n < length (us_tasks s)"
    and a: "act a (us_tasks s ! n) (us_sm s) = Some (q, new, calls, sm')"
    and t: "t = s\<lparr>us_tasks := (us_tasks s)[n := q] @ new, us_sm := sm', us_log := us_log s @ calls\<rparr>"
    using 3 by (auto split: if_splits option.splits)
  have "us_tasks s = take n (us_tasks s) @ us_tasks s ! n # drop (Suc n) (us_tasks s)"
    using n by (simp add: id_take_nth_drop)
  from sys_step.turn [OF this a] show ?case
    using n by (simp add: t upd_conv_take_nth_drop)
next
  case (5 timeout a s)
  then show ?case
    by (auto split: option.splits dest!: act_None intro: timer_sleep timer_turn)
qed (auto split: option.splits intro: install remove tick)

lemma follow_steps: "follow timeout cs s = Some t \<Longrightarrow> (sys_step timeout)\<^sup>*\<^sup>* s t"
proof (induction timeout cs s rule: follow.induct)
  case (2 timeout c cs s)
  then obtain s1 where "obey timeout c s = Some s1" "follow timeout cs s1 = Some t"
    by (cases "obey timeout c s") auto
  then show ?case using 2 obey_step by (meson converse_rtranclp_into_rtranclp)
qed simp

section \<open>The invariant of the tasks\<close>

text \<open>
  \<open>verified T i img\<close>: by the log \<open>T\<close>, an installation of \<open>img\<close> with some checksum was requested and an
  inspection of the image answered that checksum. \<open>guarded p T\<close>: from here, whatever is answered,
  the task creates entries in UNKNOWN only, starts verified containers only, and moves an
  adapter to RUNNING only after its container was started.
\<close>

definition verified :: "call list \<Rightarrow> string \<Rightarrow> string \<Rightarrow> bool" where
  "verified T i img =
     (i = derive_adapter_id img \<and> (\<exists>cs. CInstall img cs \<in> set T \<and> CInspect img (Inr cs) \<in> set T))"

definition started :: "call list \<Rightarrow> string \<Rightarrow> bool" where
  "started T i = (\<exists>img. CRun i img (Inr ()) \<in> set T)"

primrec guarded :: "task \<Rightarrow> call list \<Rightarrow> bool" where
  "guarded (Return r) T = True"
| "guarded (Uuid k) T = (\<forall>u. guarded (k u) T)"
| "guarded (Get_Running k) T = (\<forall>x. guarded (k x) T)"
| "guarded (Get_Adapter i k) T = (\<forall>x. guarded (k x) T)"
| "guarded (Candidates timeout k) T = (\<forall>x. guarded (k x) T)"
| "guarded (Create e k) T = (ae_state e = Unknown \<and> guarded k T)"
| "guarded (Transition i st msg k) T = ((st = Running \<longrightarrow> started T i) \<and> guarded k T)"
| "guarded (Erase i k) T = guarded k T"
| "guarded (Pull img k) T = (\<forall>r. guarded (k r) (T @ [CPull img r]))"
| "guarded (Inspect_Digest img k) T = (\<forall>r. guarded (k r) (T @ [CInspect img r]))"
| "guarded (Run_Container i img k) T = (verified T i img \<and> (\<forall>r. guarded (k r) (T @ [CRun i img r])))"
| "guarded (Stop i k) T = (\<forall>r. guarded (k r) (T @ [CStop i r]))"
| "guarded (Rm i k) T = (\<forall>r. guarded (k r) (T @ [CRm i r]))"
| "guarded (Rmi img k) T = (\<forall>r. guarded (k r) (T @ [CRmi img r]))"
| "guarded (Wait i k) T = (\<forall>r. guarded (k r) (T @ [CWait i r]))"
| "guarded (Spawn p k) T = (guarded p T \<and> guarded k T)"

lemma verified_mono: "verified T i img \<Longrightarrow> set T \<subseteq> set T' \<Longrightarrow> verified T' i img"
  by (auto simp: verified_def)

lemma started_mono: "started T i \<Longrightarrow> set T \<subseteq> set T' \<Longrightarrow> started T' i"
  by (auto simp: started_def)

lemma guarded_mono_call:
  assumes "\<And>x T T'. x \<in> range k \<Longrightarrow> guarded x T \<Longrightarrow> set T \<subseteq> set T' \<Longrightarrow> guarded x T'"
    and "\<forall>r. guarded (k r) (T @ [c r])" and "set T \<subseteq> set T'"
  shows "\<forall>r. guarded (k r) (T' @ [c r])"
proof
  fix r
  show "guarded (k r) (T' @ [c r])"
    by (rule assms(1) [OF rangeI, of r "T @ [c r]"]) (use assms(2,3) in auto)
qed

lemma guarded_mono: "guarded p T \<Longrightarrow> set T \<subseteq> set T' \<Longrightarrow> guarded p T'"
proof (induction p arbitrary: T T')
  case (Uuid k)
  then show ?case unfolding guarded.simps by (metis rangeI)
next
  case (Get_Running k)
  then show ?case unfolding guarded.simps by (metis rangeI)
next
  case (Get_Adapter i k)
  then show ?case unfolding guarded.simps by (metis rangeI)
next
  case (Candidates d k)
  then show ?case unfolding guarded.simps by (metis rangeI)
next
  case (Pull img k)
  show ?case using Pull.prems guarded_mono_call [where c = "CPull img" and T = T and T' = T', OF Pull.IH] by simp
next
  case (Inspect_Digest img k)
  show ?case using Inspect_Digest.prems guarded_mono_call [where c = "CInspect img" and T = T and T' = T', OF Inspect_Digest.IH] by simp
next
  case (Run_Container i img k)
  show ?case using Run_Container.prems guarded_mono_call [where c = "CRun i img" and T = T and T' = T', OF Run_Container.IH] verified_mono [of T i img T'] by simp
next
  case (Stop i k)
  show ?case using Stop.prems guarded_mono_call [where c = "CStop i" and T = T and T' = T', OF Stop.IH] by simp
next
  case (Rm i k)
  show ?case using Rm.prems guarded_mono_call [where c = "CRm i" and T = T and T' = T', OF Rm.IH] by simp
next
  case (Rmi i k)
  show ?case using Rmi.prems guarded_mono_call [where c = "CRmi i" and T = T and T' = T', OF Rmi.IH] by simp
next
  case (Wait i k)
  show ?case using Wait.prems guarded_mono_call [where c = "CWait i" and T = T and T' = T', OF Wait.IH] by simp
qed (auto intro: started_mono)

lemma guarded_monitor: "guarded (monitor_container i) T"
  by (simp add: monitor_container_def split: sum.split)

lemma guarded_install_task:
  "CInstall img cs \<in> set T \<Longrightarrow> guarded (install_task (derive_adapter_id img) img cs) T"
  by (auto simp: install_task_def verified_def started_def guarded_monitor split: sum.splits)

lemma guarded_install_rest:
  "CInstall img cs \<in> set T \<Longrightarrow> guarded (install_rest (derive_adapter_id img) img cs job) T"
  by (simp add: install_rest_def new_entry_def guarded_install_task)

lemma guarded_install: "CInstall img cs \<in> set T \<Longrightarrow> guarded (install_adapter img cs) T"
  by (auto simp: install_adapter_def Let_def intro!: guarded_install_rest split: option.splits sum.splits)

lemma guarded_remove_rest: "guarded (remove_rest i e) T"
  by (simp add: remove_rest_def remove_failed_def split: sum.split)

lemma guarded_remove: "guarded (remove_adapter i) T"
  by (auto simp: remove_adapter_def remove_failed_def guarded_remove_rest split: option.splits sum.splits)

lemma guarded_offload_each: "guarded (offload_each as) T"
  by (induction "as" arbitrary: T) (auto split: sum.splits)

lemma guarded_offload: "guarded (run_offload_cycle timeout) T"
  by (simp add: run_offload_cycle_def guarded_offload_each)

text \<open>The log itself: every start of a container comes after its verification.\<close>

definition log_verified :: "call list \<Rightarrow> bool" where
  "log_verified T = (\<forall>n i img r. n < length T \<and> T ! n = CRun i img r \<longrightarrow> verified (take n T) i img)"

lemma log_verified_append:
  assumes "log_verified T" "\<And>i img r. calls = [CRun i img r] \<Longrightarrow> verified T i img" "length calls \<le> 1"
  shows "log_verified (T @ calls)"
  unfolding log_verified_def
proof (intro allI impI, elim conjE)
  fix n i img r
  assume n: "n < length (T @ calls)" and c: "(T @ calls) ! n = CRun i img r"
  show "verified (take n (T @ calls)) i img"
  proof (cases "n < length T")
    case True
    then show ?thesis using assms(1) c by (auto simp: log_verified_def nth_append)
  next
    case False
    then obtain x where "calls = [x]" "n = length T" using n assms(3) by (cases calls) auto
    then show ?thesis using assms(2) c by (simp add: nth_append)
  qed
qed

section \<open>The invariant of the events\<close>

text \<open>The state in which the events have left an adapter.\<close>

definition last_state :: "string \<Rightarrow> adapter_event list \<Rightarrow> adapter_state" where
  "last_state i evs = fold (\<lambda>ev st. if av_adapter_id ev = i then av_new_state ev else st) evs Unknown"

lemma last_state_simps [simp]:
  "last_state i [] = Unknown"
  "last_state i (evs @ [ev]) = (if av_adapter_id ev = i then av_new_state ev else last_state i evs)"
  by (simp_all add: last_state_def)

text \<open>
  Each event starts in the state where the last event of its adapter ended, or in UNKNOWN when
  the adapter was created since.
\<close>

definition chained :: "adapter_event list \<Rightarrow> bool" where
  "chained evs =
     (\<forall>n < length evs. av_old_state (evs ! n) \<in> {Unknown, last_state (av_adapter_id (evs ! n)) (take n evs)})"

lemma chained_snoc:
  "chained (evs @ [ev]) \<longleftrightarrow>
     chained evs \<and> av_old_state ev \<in> {Unknown, last_state (av_adapter_id ev) evs}"
  by (auto simp: chained_def nth_append less_Suc_eq)

definition events_ok :: "call list \<Rightarrow> state_manager \<Rightarrow> bool" where
  "events_ok T sm =
     (chained (sm_events sm) \<and>
      (\<forall>i e. sm_lookup sm i = Some e \<longrightarrow> ae_state e \<in> {Unknown, last_state i (sm_events sm)}) \<and>
      (\<forall>ev \<in> set (sm_events sm). av_new_state ev = Running \<longrightarrow> started T (av_adapter_id ev)))"

lemma events_ok_mono: "events_ok T sm \<Longrightarrow> set T \<subseteq> set T' \<Longrightarrow> events_ok T' sm"
  by (auto simp: events_ok_def intro: started_mono)

lemma events_ok_create: "events_ok T sm \<Longrightarrow> ae_state e = Unknown \<Longrightarrow> events_ok T (create_adapter e sm)"
  by (simp add: events_ok_def store_simps)

lemma events_ok_erase: "events_ok T sm \<Longrightarrow> events_ok T (sm_erase i sm)"
  by (simp add: events_ok_def store_simps)

lemma events_ok_move:
  assumes "events_ok T sm" "st = Running \<longrightarrow> started T i"
  shows "events_ok T (sm_move i st msg now secs sm)"
proof (cases "sm_lookup sm i")
  case None
  then have "sm_move i st msg now secs sm = sm" by (simp add: sm_move_def transition_def)
  then show ?thesis using assms by simp
next
  case (Some e)
  then show ?thesis
    using assms by (auto simp: events_ok_def store_simps emitted_def goto_def chained_snoc)
qed

section \<open>The invariant of the system\<close>

definition update_inv :: "update_system \<Rightarrow> bool" where
  "update_inv s =
     (wf_sm (us_sm s) \<and> events_ok (us_log s) (us_sm s) \<and> log_verified (us_log s) \<and>
      (\<forall>p \<in> set (us_tasks s). guarded p (us_log s)) \<and>
      (\<forall>p. us_timer s = Some p \<longrightarrow> guarded p (us_log s)))"

lemma act_inv:
  assumes "act a p sm = Some (q, new, calls, sm')" "guarded p T" "wf_sm sm" "events_ok T sm" "log_verified T"
  shows "guarded q (T @ calls)" "\<forall>p' \<in> set new. guarded p' (T @ calls)"
    "wf_sm sm'" "events_ok (T @ calls) sm'" "log_verified (T @ calls)"
proof -
  show "guarded q (T @ calls)" using assms(1,2) by (cases p) auto
  show "\<forall>p' \<in> set new. guarded p' (T @ calls)" using assms(1,2) by (cases p) auto
  have "sm' = sm \<or> (\<exists>i. sm' = sm_erase i sm) \<or> (\<exists>e. sm' = create_adapter e sm \<and> ae_state e = Unknown) \<or>
      (\<exists>i st msg now secs. sm' = sm_move i st msg now secs sm \<and> (st = Running \<longrightarrow> started T i))"
  proof (cases p)
    case (Transition i st msg k)
    then have "sm' = sm_move i st msg (an_now a) (an_secs a) sm" "st = Running \<longrightarrow> started T i"
      using assms(1,2) by (auto simp: sm_move_def)
    then show ?thesis by blast
  qed (use assms(1,2) in \<open>auto simp: sm_erase_def\<close>)
  then show "wf_sm sm'" "events_ok (T @ calls) sm'"
    using assms(3,4) events_ok_mono [of T sm' "T @ calls"]
    by (auto intro: events_ok_erase events_ok_create events_ok_move)
  show "log_verified (T @ calls)"
    using assms(1,2) by (intro log_verified_append [OF assms(5)]) (cases p; auto)+
qed

lemma update_inv_step:
  assumes "sys_step timeout s t" "update_inv s"
  shows "update_inv t"
  using assms
proof cases
  case (install img cs)
  have "guarded (install_adapter img cs) (us_log s @ [CInstall img cs])" by (simp add: guarded_install)
  then show ?thesis using install assms(2)
    by (auto simp: update_inv_def intro: guarded_mono events_ok_mono log_verified_append)
next
  case (remove i)
  then show ?thesis using assms(2)
    by (auto simp: update_inv_def guarded_remove intro: guarded_mono events_ok_mono log_verified_append)
next
  case (turn xs p ys a q new calls sm')
  then have "guarded p (us_log s)" using assms(2) by (simp add: update_inv_def)
  from act_inv [OF turn(3) this] turn assms(2) show ?thesis
    by (auto simp: update_inv_def intro: guarded_mono)
next
  case tick
  then show ?thesis using assms(2) by (simp add: update_inv_def guarded_offload)
next
  case (timer_turn p a q new calls sm')
  then have "guarded p (us_log s)" using assms(2) by (simp add: update_inv_def)
  from act_inv [OF timer_turn(3) this] timer_turn assms(2) show ?thesis
    by (auto simp: update_inv_def intro: guarded_mono)
next
  case (timer_sleep r)
  then show ?thesis using assms(2) by (simp add: update_inv_def)
next
  case (rehash al)
  then have "map_of al = sm_lookup (us_sm s)"
    using assms(2) by (intro map_of_rehash) (auto simp: update_inv_def wf_sm_def)
  then show ?thesis using rehash assms(2) by (simp add: update_inv_def wf_sm_def events_ok_def)
qed

lemma update_inv_init: "update_inv us_init"
  by (simp add: update_inv_def us_init_def sm_new_def wf_sm_def events_ok_def chained_def log_verified_def)

interpretation update: safe_system "\<lambda>s. s = us_init" "sys_step timeout" update_inv
proof unfold_locales
  show "s = us_init \<Longrightarrow> update_inv s" for s by (simp add: update_inv_init)
  show "sys_step timeout s t \<Longrightarrow> update_inv s \<Longrightarrow> update_inv t" for s t by (rule update_inv_step)
qed

end
