(* ===== verification/Update_Safety.thy ===== *)
theory Update_Safety
  imports Update_Concurrent
begin

text \<open>
  What holds of the update service in every reachable state of the interleaved system, the
  refinement of sequential runs by schedules, and three schedules in which the service leaves its
  own state machine or loses track of a container: two adapters running, a stopped adapter moved to
  ERROR by its monitor, an adapter installed again while it is offloaded.
\<close>

section \<open>Reachable states\<close>

definition reachable :: "nat \<Rightarrow> update_system \<Rightarrow> bool" where
  "reachable timeout s = (sys_step timeout)\<^sup>*\<^sup>* us_init s"

lemma reachable_update_inv: "reachable timeout s \<Longrightarrow> update_inv s"
  unfolding reachable_def by (rule update.reachable_inv [OF refl])

lemma follow_reachable: "follow timeout cs us_init = Some s \<Longrightarrow> reachable timeout s"
  unfolding reachable_def by (rule follow_steps)

definition fine :: answer where
  "fine = \<lparr>an_uuid = ''j'', an_unit = Inr (), an_digest = Inr ''c'', an_code = Inr 143, an_now = 0,
     an_secs = Some 0\<rparr>"

text \<open>An installation that runs on its own to the end of its background task.\<close>

definition one_install :: "choice list" where
  "one_install = DoInstall ''r/a:1'' ''c'' # replicate 5 (DoTurn 0 fine) @ replicate 6 (DoTurn 1 fine)"

lemma one_install_reaches: "\<exists>s. reachable 5 s \<and> length (us_log s) > 3 \<and>
    us_log s ! 3 = CRun ''a-1'' ''r/a:1'' (Inr ()) \<and> us_sm s \<noteq> sm_new"
proof -
  have "map_option (\<lambda>s. (us_log s, sm_events (us_sm s) \<noteq> [])) (follow 5 one_install us_init) =
    Some ([CInstall ''r/a:1'' ''c'', CPull ''r/a:1'' (Inr ()), CInspect ''r/a:1'' (Inr ''c''),
           CRun ''a-1'' ''r/a:1'' (Inr ())], True)"
    by code_simp
  then show ?thesis using follow_reachable by (fastforce simp: sm_new_def)
qed

text \<open>
  C10: Under every interleaving, a container is started only under the id derived from its image,
  and only after an installation of that image was requested with a checksum that a digest
  inspection of the image has answered since the service started.
\<close>
theorem containers_verified:
  assumes "reachable timeout s" "n < length (us_log s)" "us_log s ! n = CRun i img r"
  shows "i = derive_adapter_id img \<and>
     (\<exists>cs. CInstall img cs \<in> set (take n (us_log s)) \<and> CInspect img (Inr cs) \<in> set (take n (us_log s)))"
proof -
  have "log_verified (us_log s)" using reachable_update_inv [OF assms(1)] by (simp add: update_inv_def)
  then show ?thesis using assms(2,3) unfolding log_verified_def verified_def by blast
qed

lemma containers_verified_witness:
  "\<exists>s. reachable 5 s \<and>
     (\<exists>cs. CInstall ''r/a:1'' cs \<in> set (take 3 (us_log s)) \<and> CInspect ''r/a:1'' (Inr cs) \<in> set (take 3 (us_log s)))"
  using one_install_reaches containers_verified by blast

text \<open>
  What one step of the system does to the store: nothing, a new entry in UNKNOWN, one transition or
  one removal.
\<close>

lemma store_step:
  assumes "sys_step timeout s t" and "update_inv s"
  shows "sm_lookup (us_sm t) = sm_lookup (us_sm s) \<and> sm_events (us_sm t) = sm_events (us_sm s) \<or>
     (\<exists>e. us_sm t = create_adapter e (us_sm s) \<and> ae_state e = Unknown) \<or>
     (\<exists>i st msg now secs. us_sm t = sm_move i st msg now secs (us_sm s)) \<or> (\<exists>i. us_sm t = sm_erase i (us_sm s))"
proof -
  have act: "sm' = sm \<or> (\<exists>e. sm' = create_adapter e sm \<and> ae_state e = Unknown) \<or>
      (\<exists>i st msg now secs. sm' = sm_move i st msg now secs sm) \<or> (\<exists>i. sm' = sm_erase i sm)"
    if "act a p sm = Some (q, new, calls, sm')" "guarded p (us_log s)" for a p sm q new calls sm'
  proof (cases p)
    case (Transition i st msg k)
    then have "sm' = sm_move i st msg (an_now a) (an_secs a) sm" using that by (simp add: sm_move_def)
    then show ?thesis by blast
  qed (use that in \<open>auto simp: sm_erase_def\<close>)
  show ?thesis using assms(1)
  proof cases
    case (turn xs p ys a q new calls sm')
    then show ?thesis using act [OF turn(3)] assms(2) by (auto simp: update_inv_def)
  next
    case (timer_turn p a q new calls sm')
    then show ?thesis using act [OF timer_turn(3)] assms(2) by (auto simp: update_inv_def)
  next
    case (rehash al)
    then have "map_of al = sm_lookup (us_sm s)"
      using assms(2) by (intro map_of_rehash) (auto simp: update_inv_def wf_sm_def)
    then show ?thesis using rehash by simp
  qed auto
qed

text \<open>
  C16: Under every interleaving, a step of the service adds at most one event, and the events tell
  every change of state: an event carries as old state the state that the entry of its adapter had
  before the step and as new state the one it has after it, and RUNNING is announced only once the
  container of the adapter was started; and an adapter whose state differs after the step is the one
  of the event, unless its entry was just created in UNKNOWN or is gone.
\<close>
theorem state_changes_are_announced:
  assumes "reachable timeout s" and "sys_step timeout s t"
  shows "\<exists>new. sm_events (us_sm t) = sm_events (us_sm s) @ new \<and> length new \<le> 1 \<and>
     (\<forall>ev \<in> set new.
        map_option ae_state (sm_lookup (us_sm s) (av_adapter_id ev)) = Some (av_old_state ev) \<and>
        map_option ae_state (sm_lookup (us_sm t) (av_adapter_id ev)) = Some (av_new_state ev) \<and>
        (av_new_state ev = Running \<longrightarrow> started (us_log t) (av_adapter_id ev))) \<and>
     (\<forall>i. map_option ae_state (sm_lookup (us_sm t) i) = map_option ae_state (sm_lookup (us_sm s) i) \<or>
        i \<in> av_adapter_id ` set new \<or>
        map_option ae_state (sm_lookup (us_sm t) i) \<in> {None, Some Unknown})"
proof -
  have t: "update_inv t" using update_inv_step [OF assms(2)] reachable_update_inv [OF assms(1)] by blast
  then have run: "av_new_state ev = Running \<Longrightarrow> started (us_log t) (av_adapter_id ev)" if "ev \<in> set (sm_events (us_sm t))" for ev
    using that by (simp add: update_inv_def events_ok_def)
  consider "sm_lookup (us_sm t) = sm_lookup (us_sm s)" "sm_events (us_sm t) = sm_events (us_sm s)"
    | e where "us_sm t = create_adapter e (us_sm s)" "ae_state e = Unknown"
    | i st msg now secs where "us_sm t = sm_move i st msg now secs (us_sm s)" | i where "us_sm t = sm_erase i (us_sm s)"
    using store_step [OF assms(2) reachable_update_inv [OF assms(1)]] by blast
  then show ?thesis
  proof cases
    case (3 i st msg now secs)
    show ?thesis using run unfolding 3
      by (intro exI [of _ "emitted i st secs (sm_lookup (us_sm s) i)"])
        (auto simp: store_simps emitted_def goto_def split: option.split)
  qed (intro exI [of _ "[]"], auto simp: store_simps)+
qed

lemma state_changes_are_announced_witness:
  "\<exists>s t ev. sys_step 5 s t \<and> sm_events (us_sm t) = sm_events (us_sm s) @ [ev] \<and>
     map_option ae_state (sm_lookup (us_sm s) ''a-1'') = Some Installing \<and>
     map_option ae_state (sm_lookup (us_sm t) ''a-1'') = Some Running"
proof -
  have "map_option (\<lambda>s. (map_option ae_state (sm_lookup (us_sm s) ''a-1''),
      map_option (\<lambda>t. (map_option ae_state (sm_lookup (us_sm t) ''a-1''))) (obey 5 (DoTurn 1 fine) s)))
      (follow 5 (take 10 one_install) us_init) = Some (Some Installing, Some (Some Running))"
    by code_simp
  then obtain s t where s: "follow 5 (take 10 one_install) us_init = Some s" "obey 5 (DoTurn 1 fine) s = Some t"
    "map_option ae_state (sm_lookup (us_sm s) ''a-1'') = Some Installing"
    "map_option ae_state (sm_lookup (us_sm t) ''a-1'') = Some Running" by fastforce
  note st = obey_step [OF s(2)]
  obtain new where new: "sm_events (us_sm t) = sm_events (us_sm s) @ new" "length new \<le> 1"
    and told: "\<forall>i. map_option ae_state (sm_lookup (us_sm t) i) = map_option ae_state (sm_lookup (us_sm s) i) \<or>
      i \<in> av_adapter_id ` set new \<or> map_option ae_state (sm_lookup (us_sm t) i) \<in> {None, Some Unknown}"
    using state_changes_are_announced [OF follow_reachable [OF s(1)] st] by blast
  have "''a-1'' \<in> av_adapter_id ` set new" using told [rule_format, of "''a-1''"] s(3,4) by simp
  then obtain ev where "new = [ev]" using new(2) by (cases new) auto
  then show ?thesis using st new(1) s(3,4) by blast
qed

section \<open>Sequential runs are schedules\<close>

text \<open>The system with a task in a given place, and a turn of that task.\<close>

definition at_task :: "task list \<Rightarrow> task \<Rightarrow> task list \<Rightarrow> task option \<Rightarrow> state_manager \<Rightarrow> call list \<Rightarrow> update_system" where
  "at_task xs p ys tm sm T = \<lparr>us_tasks = xs @ p # ys, us_timer = tm, us_sm = sm, us_log = T\<rparr>"

lemma at_task_turn:
  assumes "act a p sm = Some (q, new, calls, sm')"
    and "\<exists>T'. (sys_step timeout)\<^sup>*\<^sup>* (at_task xs q (ys @ new) tm sm' (T @ calls)) (at_task xs r zs tm sm'' T')"
  shows "\<exists>T'. (sys_step timeout)\<^sup>*\<^sup>* (at_task xs p ys tm sm T) (at_task xs r zs tm sm'' T')"
proof -
  have "sys_step timeout (at_task xs p ys tm sm T) (at_task xs q (ys @ new) tm sm' (T @ calls))"
    using sys_step.turn [of "at_task xs p ys tm sm T" xs p ys a q new calls sm' timeout] assms(1)
    by (simp add: at_task_def)
  then show ?thesis using assms(2) by (meson converse_rtranclp_into_rtranclp)
qed

definition given :: "string \<Rightarrow> podman_error + unit \<Rightarrow> podman_error + string \<Rightarrow> podman_error + int
    \<Rightarrow> nat \<Rightarrow> 64 word option \<Rightarrow> answer" where
  "given u r d c now secs = \<lparr>an_uuid = u, an_unit = r, an_digest = d, an_code = c, an_now = now, an_secs = secs\<rparr>"

lemma given_simps [simp]:
  "an_uuid (given u r d c now secs) = u" "an_unit (given u r d c now secs) = r"
  "an_digest (given u r d c now secs) = d" "an_code (given u r d c now secs) = c"
  "an_now (given u r d c now secs) = now" "an_secs (given u r d c now secs) = secs"
  by (simp_all add: given_def)

lemma exec_schedule:
  "exec H p w sm = (r, ps, w', sm') \<Longrightarrow>
     \<exists>T'. (sys_step timeout)\<^sup>*\<^sup>* (at_task xs p ys tm sm T) (at_task xs (Return r) (ys @ ps) tm sm' T')"
proof (induction p arbitrary: w sm r ps w' sm' ys T)
  case (Return x)
  then show ?case by auto
next
  case (Uuid k)
  show ?case
    by (rule at_task_turn [where a = "given (fst (ho_uuid H w)) (Inr ()) (Inr []) (Inr 0) 0 None"], simp)
      (use Uuid in \<open>simp add: Let_def\<close>)
next
  case (Get_Running k)
  show ?case by (rule at_task_turn [where a = fine], simp) (use Get_Running in simp)
next
  case (Get_Adapter i k)
  show ?case by (rule at_task_turn [where a = fine], simp) (use Get_Adapter in simp)
next
  case (Candidates d k)
  show ?case
    by (rule at_task_turn [where a = "given [] (Inr ()) (Inr []) (Inr 0) (ho_instant H w) None"], simp)
      (use Candidates in simp)
next
  case (Create e k)
  show ?case by (rule at_task_turn [where a = fine], simp) (use Create in simp)
next
  case (Transition i st msg k)
  show ?case
    by (rule at_task_turn [where a = "given [] (Inr ()) (Inr []) (Inr 0) (ho_instant H w) (ho_secs H w)"], simp)
      (use Transition in \<open>simp add: sm_move_def\<close>)
next
  case (Erase i k)
  show ?case by (rule at_task_turn [where a = fine], simp) (use Erase in \<open>simp add: sm_erase_def\<close>)
next
  case (Pull img k)
  show ?case
    by (rule at_task_turn [where a = "given [] (fst (px_pull (ho_podman H) img w)) (Inr []) (Inr 0) 0 None"], simp)
      (use Pull in \<open>simp add: Let_def\<close>)
next
  case (Inspect_Digest img k)
  show ?case
    by (rule at_task_turn [where a = "given [] (Inr ()) (fst (px_inspect_digest (ho_podman H) img w)) (Inr 0) 0 None"], simp)
      (use Inspect_Digest in \<open>simp add: Let_def\<close>)
next
  case (Run_Container i img k)
  show ?case
    by (rule at_task_turn [where a = "given [] (fst (px_run (ho_podman H) i img w)) (Inr []) (Inr 0) 0 None"], simp)
      (use Run_Container in \<open>simp add: Let_def\<close>)
next
  case (Stop i k)
  show ?case
    by (rule at_task_turn [where a = "given [] (fst (px_stop (ho_podman H) i w)) (Inr []) (Inr 0) 0 None"], simp)
      (use Stop in \<open>simp add: Let_def\<close>)
next
  case (Rm i k)
  show ?case
    by (rule at_task_turn [where a = "given [] (fst (px_rm (ho_podman H) i w)) (Inr []) (Inr 0) 0 None"], simp)
      (use Rm in \<open>simp add: Let_def\<close>)
next
  case (Rmi img k)
  show ?case
    by (rule at_task_turn [where a = "given [] (fst (px_rmi (ho_podman H) img w)) (Inr []) (Inr 0) 0 None"], simp)
      (use Rmi in \<open>simp add: Let_def\<close>)
next
  case (Wait i k)
  show ?case
    by (rule at_task_turn [where a = "given [] (Inr ()) (Inr []) (fst (px_wait (ho_podman H) i w)) 0 None"], simp)
      (use Wait in \<open>simp add: Let_def\<close>)
next
  case (Spawn p k)
  obtain qs where "exec H k w sm = (r, qs, w', sm')" "ps = p # qs"
    using Spawn.prems by (cases "exec H k w sm") (auto simp: Let_def)
  then show ?case
    by (intro at_task_turn [where a = fine, OF act.simps(16)])
      (use Spawn.IH(2) [of w sm r qs w' sm' "ys @ [p]"] in simp)
qed

text \<open>
  Running a task alone is one of the schedules of the system: from any state in which the
  task stands anywhere among the others, the system can reach the state that \<open>exec\<close> computes,
  with the tasks it spawned added and the others untouched.
\<close>
lemma exec_is_a_schedule:
  "case exec H p w sm of
     (r, ps, w', sm') \<Rightarrow>
       \<exists>T'. (sys_step timeout)\<^sup>*\<^sup>*
         \<lparr>us_tasks = xs @ p # ys, us_timer = tm, us_sm = sm, us_log = T\<rparr>
         \<lparr>us_tasks = xs @ Return r # ys @ ps, us_timer = tm, us_sm = sm', us_log = T'\<rparr>"
  using exec_schedule [where H = H and p = p and w = w and sm = sm]
  by (auto simp: at_task_def split: prod.splits)

section \<open>What the interleavings break\<close>

definition two_installs :: "choice list" where
  "two_installs =
     [DoInstall ''r/a:1'' ''c'', DoInstall ''r/b:1'' ''c''] @ replicate 5 (DoTurn 0 fine) @
     replicate 5 (DoTurn 1 fine) @ replicate 6 (DoTurn 2 fine) @ replicate 6 (DoTurn 3 fine)"

text \<open>
  C32: Two installations whose calls both precede the background task of the first end with two
  adapters in RUNNING: the constraint is checked only when an installation is requested.
\<close>
theorem two_adapters_running:
  "\<exists>s. reachable timeout s \<and> \<not> single_adapter (us_sm s)"
proof -
  have "map_option (\<lambda>s. single_adapter (us_sm s)) (follow timeout two_installs us_init) = Some False"
    by code_simp
  then show ?thesis using follow_reachable by fastforce
qed

definition replaced_install :: "choice list" where
  "replaced_install = one_install @ [DoInstall ''r/b:1'' ''c''] @ replicate 4 (DoTurn 3 fine)"

lemma monitor_turns:
  assumes "us_tasks s = xs @ monitor_container i # ys" and "sm_lookup (us_sm s) i = Some e"
  shows "\<exists>t. (sys_step timeout)\<^sup>*\<^sup>* s t \<and> us_log t = us_log s @ [CWait i (Inr code)] \<and>
     sm_events (us_sm t) = sm_events (us_sm s) @
       [\<lparr>av_adapter_id = i, av_old_state = ae_state e, av_new_state = (if code = 0 then Stopped else Error),
         av_timestamp = 0\<rparr>] \<and>
     map_option ae_state (sm_lookup (us_sm t) i) = Some (if code = 0 then Stopped else Error)"
proof -
  define st where "st = (if code = 0 then Stopped else Error)"
  define msg where "msg = (if code = 0 then None else Some (''container exited with code '' @ show_int code))"
  define a where "a = fine\<lparr>an_code := Inr code\<rparr>"
  define s1 where "s1 = s\<lparr>us_tasks := xs @ Transition i st msg (Return NoReply) # ys @ [], us_sm := us_sm s,
    us_log := us_log s @ [CWait i (Inr code)]\<rparr>"
  define t where "t = s1\<lparr>us_tasks := xs @ Return NoReply # (ys @ []) @ [], us_sm := sm_move i st msg 0 (Some 0) (us_sm s1),
    us_log := us_log s1 @ []\<rparr>"
  have "sys_step timeout s s1"
    unfolding s1_def by (rule sys_step.turn [where a = a, OF assms(1)])
      (simp add: monitor_container_def a_def st_def msg_def)
  moreover have "sys_step timeout s1 t"
    unfolding t_def by (rule sys_step.turn [where a = fine and p = "Transition i st msg (Return NoReply)"])
      (simp_all add: s1_def sm_move_def fine_def)
  ultimately have "(sys_step timeout)\<^sup>*\<^sup>* s t" by (meson r_into_rtranclp rtranclp_trans)
  moreover have "us_log t = us_log s @ [CWait i (Inr code)]" "us_sm t = sm_move i st msg 0 (Some 0) (us_sm s)"
    by (simp_all add: t_def s1_def)
  ultimately show ?thesis using assms(2)
    by (intro exI [of _ t]) (simp add: store_simps emitted_def goto_def st_def)
qed

text \<open>
  C33: When an adapter is STOPPED while its monitor still waits for the container, as it is after it
  was stopped to make room for another, the monitor can go on, whatever exit code podman reports: if
  the code is not zero, as that of a container that was ended by a signal, the adapter is then in
  ERROR, where it is no candidate for offloading at any time and for any timeout; and the event that
  the monitor sends is no transition of the state machine.
\<close>
theorem stopped_adapter_becomes_error:
  assumes "reachable timeout s" and "us_tasks s = xs @ monitor_container i # ys"
    and "sm_lookup (us_sm s) i = Some e" and "ae_state e = Stopped" and "code \<noteq> 0"
  shows "\<exists>t e'. reachable timeout t \<and> (sys_step timeout)\<^sup>*\<^sup>* s t \<and> us_log t = us_log s @ [CWait i (Inr code)] \<and>
     map event_edge (sm_events (us_sm t)) = map event_edge (sm_events (us_sm s)) @ [(Stopped, Error)] \<and>
     (Stopped, Error) \<notin> set VALID_TRANSITIONS \<and>
     sm_lookup (us_sm t) i = Some e' \<and> ae_state e' = Error \<and> (\<forall>d now. \<not> offloadable d now e')"
proof -
  obtain t where t: "(sys_step timeout)\<^sup>*\<^sup>* s t" "us_log t = us_log s @ [CWait i (Inr code)]"
    "sm_events (us_sm t) = sm_events (us_sm s) @
       [\<lparr>av_adapter_id = i, av_old_state = Stopped, av_new_state = Error, av_timestamp = 0\<rparr>]"
    "map_option ae_state (sm_lookup (us_sm t) i) = Some Error"
    using monitor_turns [OF assms(2,3), of timeout code] assms(4,5) by auto
  obtain e' where e': "sm_lookup (us_sm t) i = Some e'" "ae_state e' = Error" using t(4) by auto
  have "reachable timeout t" using assms(1) t(1) unfolding reachable_def by (rule rtranclp_trans)
  moreover have "(Stopped, Error) \<notin> set VALID_TRANSITIONS" by (simp add: VALID_TRANSITIONS_def)
  moreover have "map event_edge (sm_events (us_sm t)) = map event_edge (sm_events (us_sm s)) @ [(Stopped, Error)]"
    by (simp add: t(3) event_edge_def)
  ultimately show ?thesis using t(1,2) e' by (auto simp: offloadable_def)
qed

lemma monitor_of_install:
  "\<exists>s. follow 5 replaced_install us_init = Some s \<and> us_tasks s ! 2 = monitor_container ''a-1''"
  by (simp add: replaced_install_def one_install_def us_init_def sm_new_def fine_def install_adapter_def install_rest_def
    install_task_def numeral_eq_Suc derive_adapter_id_def after_last_def replace_char_def get_running_adapter_def
    create_adapter_def transition_def new_entry_def move_entry_def Let_def)

lemma stopped_adapter_becomes_error_witness:
  "\<exists>t. reachable 5 t \<and> {CStop ''a-1'' (Inr ()), CWait ''a-1'' (Inr 143)} \<subseteq> set (us_log t) \<and>
     (Stopped, Error) \<in> event_edge ` set (sm_events (us_sm t)) \<and>
     map_option ae_state (sm_lookup (us_sm t) ''a-1'') = Some Error"
proof -
  have "map_option (\<lambda>s. (CStop ''a-1'' (Inr ()) \<in> set (us_log s), length (us_tasks s),
      map_option ae_state (sm_lookup (us_sm s) ''a-1''))) (follow 5 replaced_install us_init) =
    Some (True, 4, Some Stopped)"
    by code_simp
  then obtain s where s: "follow 5 replaced_install us_init = Some s" "CStop ''a-1'' (Inr ()) \<in> set (us_log s)"
    "length (us_tasks s) = 4" "map_option ae_state (sm_lookup (us_sm s) ''a-1'') = Some Stopped"
    by fastforce
  obtain e where e: "sm_lookup (us_sm s) ''a-1'' = Some e" "ae_state e = Stopped" using s(4) by auto
  have m: "us_tasks s = take 2 (us_tasks s) @ monitor_container ''a-1'' # drop 3 (us_tasks s)"
    using id_take_nth_drop [of 2 "us_tasks s"] monitor_of_install s(1,3) by simp
  obtain t e' where "reachable 5 t" "us_log t = us_log s @ [CWait ''a-1'' (Inr 143)]"
    "map event_edge (sm_events (us_sm t)) = map event_edge (sm_events (us_sm s)) @ [(Stopped, Error)]"
    "sm_lookup (us_sm t) ''a-1'' = Some e'" "ae_state e' = Error"
    using stopped_adapter_becomes_error [OF follow_reachable [OF s(1)] m e, of 143] by auto
  moreover from this(3) have "(Stopped, Error) \<in> event_edge ` set (sm_events (us_sm t))"
    by (metis in_set_conv_decomp list.set_map)
  ultimately show ?thesis using s(2) by (intro exI [of _ t]) auto
qed




end
