(* ===== verification/Update_Grpc.thy ===== *)
theory Update_Grpc
  imports Update_Safety
begin

text \<open>
  rhivos/update-service/src/grpc.rs, config.rs and main.rs: the protobuf view of states and
  events, the five RPCs, the configuration and the exit code of the service.
\<close>

section \<open>Protobuf messages\<close>

text \<open>
  The enumeration of proto/update/update_service.proto; its numbers are those of the file.
\<close>

datatype proto_state =
  P_UNKNOWN | P_DOWNLOADING | P_INSTALLING | P_RUNNING | P_STOPPED | P_ERROR | P_OFFLOADING

fun proto_number :: "proto_state \<Rightarrow> int" where
  "proto_number P_UNKNOWN = 0"
| "proto_number P_DOWNLOADING = 1"
| "proto_number P_INSTALLING = 2"
| "proto_number P_RUNNING = 3"
| "proto_number P_STOPPED = 4"
| "proto_number P_ERROR = 5"
| "proto_number P_OFFLOADING = 6"

fun state_to_proto :: "adapter_state \<Rightarrow> int" where
  "state_to_proto Unknown = proto_number P_UNKNOWN"
| "state_to_proto Downloading = proto_number P_DOWNLOADING"
| "state_to_proto Installing = proto_number P_INSTALLING"
| "state_to_proto Running = proto_number P_RUNNING"
| "state_to_proto Stopped = proto_number P_STOPPED"
| "state_to_proto Error = proto_number P_ERROR"
| "state_to_proto Offloading = proto_number P_OFFLOADING"

record adapter_info =
  ai_adapter_id :: string
  ai_image_ref :: string
  ai_state :: int

record proto_event =
  pv_adapter_id :: string
  pv_old_state :: int
  pv_new_state :: int
  pv_timestamp :: int

record install_response =
  ir_job_id :: string
  ir_adapter_id :: string
  ir_state :: int

record remove_response =
  rr_adapter_id :: string
  rr_state :: int

section \<open>The RPCs\<close>

text \<open>
  The RPCs that wait for podman are continued by the reply of the task that they run.
\<close>

definition install_reply :: "reply \<Rightarrow> status + install_response" where
  "install_reply r =
     (case r of
        Installed (Inr (job_id, adapter_id, initial_state)) \<Rightarrow>
          Inr \<lparr>ir_job_id = job_id, ir_adapter_id = adapter_id, ir_state = state_to_proto initial_state\<rparr>
      | Installed (Inl (InvalidArgument msg)) \<Rightarrow> Inl (Status GInvalidArgument msg)
      | _ \<Rightarrow> Inl (Status GInternal []))"

definition rpc_install_adapter ::
    "'w host \<Rightarrow> string \<Rightarrow> string \<Rightarrow> 'w \<Rightarrow> state_manager
     \<Rightarrow> (status + install_response) \<times> task list \<times> 'w \<times> state_manager" where
  "rpc_install_adapter H image_ref checksum_sha256 w sm =
     (case exec H (install_adapter image_ref checksum_sha256) w sm of
        (r, rest) \<Rightarrow> (install_reply r, rest))"

definition remove_reply :: "string \<Rightarrow> reply \<Rightarrow> status + remove_response" where
  "remove_reply adapter_id r =
     (case r of
        Removed (Inr _) \<Rightarrow> Inr \<lparr>rr_adapter_id = adapter_id, rr_state = proto_number P_UNKNOWN\<rparr>
      | Removed (Inl (RemoveNotFound msg)) \<Rightarrow> Inl (Status GNotFound msg)
      | Removed (Inl (PodmanFailed msg)) \<Rightarrow> Inl (Status GInternal msg)
      | _ \<Rightarrow> Inl (Status GInternal []))"

definition rpc_remove_adapter ::
    "'w host \<Rightarrow> string \<Rightarrow> 'w \<Rightarrow> state_manager
     \<Rightarrow> (status + remove_response) \<times> task list \<times> 'w \<times> state_manager" where
  "rpc_remove_adapter H req_adapter_id w sm =
     (case get_adapter req_adapter_id sm of
        None \<Rightarrow> (Inl (Status GNotFound ''adapter not found''), [], w, sm)
      | Some adapter \<Rightarrow>
          (let adapter_id = ae_adapter_id adapter in
           case exec H (remove_adapter req_adapter_id) w sm of
             (r, rest) \<Rightarrow> (remove_reply adapter_id r, rest)))"

definition info_of :: "adapter_entry \<Rightarrow> adapter_info" where
  "info_of a = \<lparr>ai_adapter_id = ae_adapter_id a, ai_image_ref = ae_image_ref a, ai_state = state_to_proto (ae_state a)\<rparr>"

definition rpc_list_adapters :: "state_manager \<Rightarrow> adapter_info list" where
  "rpc_list_adapters sm = map info_of (list_adapters sm)"

definition rpc_get_adapter_status :: "string \<Rightarrow> state_manager \<Rightarrow> status + adapter_info" where
  "rpc_get_adapter_status adapter_id sm =
     (case get_adapter adapter_id sm of
        None \<Rightarrow> Inl (Status GNotFound ''adapter not found'')
      | Some entry \<Rightarrow> Inr (info_of entry))"

text \<open>
  The stream of \<open>WatchAdapterStates\<close> over what the broadcast receiver gives: an event, or the
  number of events it missed when it lagged (\<open>Inl\<close>), which is dropped silently.
\<close>

definition event_to_proto :: "adapter_event \<Rightarrow> proto_event" where
  "event_to_proto ev =
     \<lparr>pv_adapter_id = av_adapter_id ev, pv_old_state = state_to_proto (av_old_state ev),
      pv_new_state = state_to_proto (av_new_state ev), pv_timestamp = sint (av_timestamp ev)\<rparr>"

definition watch_adapter_states :: "(nat + adapter_event) list \<Rightarrow> proto_event list" where
  "watch_adapter_states results =
     List.map_filter (\<lambda>result. case result of Inr ev \<Rightarrow> Some (event_to_proto ev) | Inl _ \<Rightarrow> None) results"

section \<open>Configuration and main\<close>

record config_us =
  uc_grpc_port :: "16 word"
  uc_registry_url :: string
  uc_inactivity_timeout_secs :: "64 word"
  uc_container_storage_path :: string

definition default_config :: config_us where
  "default_config =
     \<lparr>uc_grpc_port = 50052, uc_registry_url = [], uc_inactivity_timeout_secs = 86400,
      uc_container_storage_path = ''/var/lib/containers/adapters/''\<rparr>"

datatype config_error_us = ConfigIo string | ConfigParse serde_error

fun show_config_error_us :: "config_error_us \<Rightarrow> string" where
  "show_config_error_us (ConfigIo e) = ''config I/O error: '' @ e"
| "show_config_error_us (ConfigParse e) = ''config parse error: '' @ se_text e"

text \<open>\<open>de\<close> is \<open>serde_json::from_str::<Config>\<close>.\<close>

definition load_config_us :: "(string \<Rightarrow> serde_error + config_us) \<Rightarrow> world \<Rightarrow> string \<Rightarrow> config_error_us + config_us" where
  "load_config_us de W path =
     (case w_read_file W path of
        FileContents contents \<Rightarrow> map_err ConfigParse (de contents)
      | FileNotFound \<Rightarrow> Inr default_config
      | FileError e \<Rightarrow> Inl (ConfigIo e))"

text \<open>
  \<open>main\<close>: the address, the offload timeout in nanoseconds and the check interval in seconds
  with which the service runs, or its exit code; \<open>served\<close> is how the gRPC server ended.
\<close>

definition update_main ::
    "(string \<Rightarrow> serde_error + config_us) \<Rightarrow> world \<Rightarrow> string + unit \<Rightarrow> nat \<times> (string \<times> nat \<times> nat) option" where
  "update_main de W served =
     (let config_path = unwrap_or ''config.json'' (w_env W ''CONFIG_PATH'') in
      case load_config_us de W config_path of
        Inl e \<Rightarrow> (1, None)
      | Inr config \<Rightarrow>
          (let inactivity_timeout = 1000000000 * unat (uc_inactivity_timeout_secs config);
               check_interval = 60;
               addr = ''0.0.0.0:'' @ show_nat (unat (uc_grpc_port config))
           in ((case served of Inl e \<Rightarrow> 1 | Inr _ \<Rightarrow> 0), Some (addr, inactivity_timeout, check_interval))))"

text \<open>After the signal, \<open>shutdown_signal\<close> sleeps ten seconds before it returns.\<close>

definition shutdown_signal_us :: "trace \<Rightarrow> trace" where
  "shutdown_signal_us t = sleep_ms 10000 t"

section \<open>Properties\<close>

lemma state_to_proto_inj: "state_to_proto a = state_to_proto b \<longleftrightarrow> a = b"
  by (cases a; cases b) simp_all

text \<open>
  The states on the wire are the numbers 0 to 6 of the protocol, one for each state of the
  service: no two states are confused.
\<close>
lemma states_on_the_wire:
  "inj state_to_proto \<and> range state_to_proto = {0..6}"
proof
  show "inj state_to_proto" by (simp add: inj_def state_to_proto_inj)
  have u: "(UNIV :: adapter_state set) = {Unknown, Downloading, Installing, Running, Stopped, Error, Offloading}"
    by (auto intro: adapter_state.exhaust)
  have "{0..6 :: int} = {0, 1, 2, 3, 4, 5, 6}" by auto
  then show "range state_to_proto = {0..6}" by (simp only: u image_insert image_empty state_to_proto.simps proto_number.simps)
qed

text \<open>
  A subscriber that never lags sees exactly the events emitted after it subscribed, in order,
  each once, whatever subset of the tasks emitted them; events missed by one that lags are left
  out without a trace.
\<close>
lemma watch_sees_new_events:
  "watch_adapter_states (map Inr (drop subscribed (sm_events sm))) =
     map event_to_proto (drop subscribed (sm_events sm)) \<and>
   watch_adapter_states (results @ Inl lagged # results') =
     watch_adapter_states (results @ results')"
proof
  show "watch_adapter_states (map Inr (drop subscribed (sm_events sm))) =
     map event_to_proto (drop subscribed (sm_events sm))"
    by (simp add: watch_adapter_states_def List.map_filter_def comp_def)
  show "watch_adapter_states (results @ Inl lagged # results') = watch_adapter_states (results @ results')"
    by (simp add: watch_adapter_states_def List.map_filter_def)
qed

text \<open>
  InstallAdapter is refused with INVALID_ARGUMENT exactly when the image or the checksum is
  empty, with the message that names the first one missing and without touching podman or the
  store; otherwise it returns the derived id and the number of DOWNLOADING.
\<close>
lemma install_rpc_reply:
  "case rpc_install_adapter H img cs w sm of
     (r, ps, w', sm') \<Rightarrow>
       if img = [] then r = Inl (Status GInvalidArgument ''image_ref is required'') \<and> w' = w \<and> sm' = sm
       else if cs = [] then r = Inl (Status GInvalidArgument ''checksum_sha256 is required'') \<and> w' = w \<and> sm' = sm
       else \<exists>job. r = Inr \<lparr>ir_job_id = job, ir_adapter_id = derive_adapter_id img, ir_state = 1\<rparr>"
proof (cases "img = [] \<or> cs = []")
  case True
  then show ?thesis by (auto simp: rpc_install_adapter_def install_reply_def install_adapter_def)
next
  case False
  then have ne: "img \<noteq> []" "cs \<noteq> []" by auto
  obtain job w1 st msg n0 s0 n s where
    "exec H (install_adapter img cs) w sm =
       (Installed (Inr (job, derive_adapter_id img, Downloading)),
        [install_task (derive_adapter_id img) img cs], w1, prepared st msg n0 s0 n s job img cs sm)"
    by (rule install_adapter_effect [OF ne, of H w sm])
  with False show ?thesis by (simp add: rpc_install_adapter_def install_reply_def)
qed

text \<open>
  In a well-formed store, listing the adapters and asking for the status of each tell the same:
  an adapter is listed exactly when its status is found, with the same information, and the
  status of any other is NOT_FOUND.
\<close>
lemma list_and_status_agree:
  assumes "wf_sm sm"
  shows "rpc_get_adapter_status i sm =
     (case List.find (\<lambda>a. ai_adapter_id a = i) (rpc_list_adapters sm) of
        None \<Rightarrow> Inl (Status GNotFound ''adapter not found'')
      | Some a \<Rightarrow> Inr a)"
proof -
  have "List.find (\<lambda>a. ai_adapter_id a = i) (map info_of (map snd al)) = map_option info_of (map_of al i)"
    if "\<forall>(k, e) \<in> set al. ae_adapter_id e = k" for al :: "(string \<times> adapter_entry) list"
    using that by (induction al) (auto simp: info_of_def)
  with assms show ?thesis
    by (auto simp: rpc_get_adapter_status_def rpc_list_adapters_def list_adapters_def get_adapter_def wf_sm_def
        split: option.split)
qed

end
