(* ===== verification/Parking_Session.thy ===== *)
theory Parking_Session
  imports World
begin

text \<open>
  rhivos/parking-operator-adaptor/src/session.rs, event_loop.rs and the data of operator.rs: the
  session manager, the traits of the operator and of the broker as records of operations on a
  state, the processing of lock events and manual requests, and the event loop. The locale
  \<open>parking_contract\<close> is what the loop relies on.
\<close>

section \<open>The session manager\<close>

text \<open>\<open>start_time\<close> is an \<open>i64\<close> held as its 64 bits.\<close>

record rate =
  rt_rate_type :: string
  rt_amount :: f64
  rt_currency :: string

record session_state =
  ss_session_id :: string
  ss_zone_id :: string
  ss_start_time :: "64 word"
  ss_rate :: rate
  ss_active :: bool

type_synonym session = "session_state option"

definition session_new :: session where "session_new = None"

definition is_active :: "session \<Rightarrow> bool" where
  "is_active session = (case session of None \<Rightarrow> False | Some s \<Rightarrow> ss_active s)"

definition session_start :: "string \<Rightarrow> string \<Rightarrow> 64 word \<Rightarrow> rate \<Rightarrow> session \<Rightarrow> session" where
  "session_start session_id zone_id start_time r session =
     Some \<lparr>ss_session_id = session_id, ss_zone_id = zone_id, ss_start_time = start_time, ss_rate = r,
           ss_active = True\<rparr>"

definition session_stop :: "session \<Rightarrow> string option \<times> session" where
  "session_stop session =
     ((case session of None \<Rightarrow> None | Some s \<Rightarrow> if ss_active s then Some (ss_session_id s) else None), None)"

definition session_status :: "session \<Rightarrow> session_state option" where
  "session_status session = session"

definition session_rate :: "session \<Rightarrow> rate option" where
  "session_rate session = map_option ss_rate session"

lemma is_active_simps [simp]:
  "is_active None = False" "is_active (Some s) = ss_active s"
  by (simp_all add: is_active_def)

section \<open>The operator's answers\<close>

record rate_response =
  rp_rate_type :: string
  rp_amount :: f64
  rp_currency :: string

record start_response =
  sr_session_id :: string
  sr_status :: string
  sr_rate :: rate_response

record stop_response =
  pr_session_id :: string
  pr_status :: string
  pr_duration_seconds :: "64 word"
  pr_total_amount :: f64
  pr_currency :: string

datatype operator_error = RequestFailed string | ParseError string

fun show_operator_error :: "operator_error \<Rightarrow> string" where
  "show_operator_error (RequestFailed msg) = ''operator request failed: '' @ msg"
| "show_operator_error (ParseError msg) = ''operator response parse error: '' @ msg"

section \<open>The traits\<close>

text \<open>A result of \<open>None\<close> is a panic of the operation.\<close>

record 'w operator_ops =
  op_start_session :: "string \<Rightarrow> string \<Rightarrow> 'w \<Rightarrow> (operator_error + start_response) option \<times> 'w"
  op_stop_session :: "string \<Rightarrow> 'w \<Rightarrow> (operator_error + stop_response) option \<times> 'w"

record 'w broker_ops =
  bo_set_bool :: "string \<Rightarrow> bool \<Rightarrow> 'w \<Rightarrow> (string + unit) \<times> 'w"

definition SIGNAL_IS_LOCKED_pa :: string where
  "SIGNAL_IS_LOCKED_pa = ''Vehicle.Cabin.Door.Row1.DriverSide.IsLocked''"
definition SIGNAL_SESSION_ACTIVE :: string where
  "SIGNAL_SESSION_ACTIVE = ''Vehicle.Parking.SessionActive''"

text \<open>What the loop runs on: the two clients, the clock, and the vehicle and zone of the configuration.\<close>

record 'w adaptor =
  pa_operator :: "'w operator_ops"
  pa_broker :: "'w broker_ops"
  pa_clock :: "'w \<Rightarrow> 64 word option"
  pa_vehicle_id :: string
  pa_zone_id :: string

definition unix_timestamp :: "'w adaptor \<Rightarrow> 'w \<Rightarrow> 64 word" where
  "unix_timestamp A w = unwrap_or 0 (pa_clock A w)"

section \<open>Processing one event\<close>

datatype manual_error = AlreadyExists string | FailedPrecondition | OperatorUnavailable string

definition rate_of :: "start_response \<Rightarrow> rate" where
  "rate_of resp =
     \<lparr>rt_rate_type = rp_rate_type (sr_rate resp), rt_amount = rp_amount (sr_rate resp),
      rt_currency = rp_currency (sr_rate resp)\<rparr>"

text \<open>The first component is \<open>None\<close> when the task panicked; it carries the new session.\<close>

definition process_lock_event :: "'w adaptor \<Rightarrow> string \<Rightarrow> bool \<Rightarrow> session \<Rightarrow> 'w \<Rightarrow> session option \<times> 'w" where
  "process_lock_event A zone_id is_locked session w =
     (if is_locked then
        (if is_active session then (Some session, w)
         else
           (case op_start_session (pa_operator A) (pa_vehicle_id A) zone_id w of
              (None, w1) \<Rightarrow> (None, w1)
            | (Some (Inr resp), w1) \<Rightarrow>
                (let start_time = unix_timestamp A w1;
                     session' = session_start (sr_session_id resp) zone_id start_time (rate_of resp) session
                 in case bo_set_bool (pa_broker A) SIGNAL_SESSION_ACTIVE True w1 of
                      (_, w2) \<Rightarrow> (Some session', w2))
            | (Some (Inl e), w1) \<Rightarrow> (Some session, w1)))
      else
        (if \<not> is_active session then (Some session, w)
         else
           (case session_status session of
              None \<Rightarrow> (None, w)
            | Some s \<Rightarrow>
                (case op_stop_session (pa_operator A) (ss_session_id s) w of
                   (None, w1) \<Rightarrow> (None, w1)
                 | (Some (Inr resp), w1) \<Rightarrow>
                     (case bo_set_bool (pa_broker A) SIGNAL_SESSION_ACTIVE False w1 of
                        (_, w2) \<Rightarrow> (Some (snd (session_stop session)), w2))
                 | (Some (Inl e), w1) \<Rightarrow> (Some session, w1)))))"

definition process_manual_start ::
    "'w adaptor \<Rightarrow> string \<Rightarrow> session \<Rightarrow> 'w \<Rightarrow> ((manual_error + start_response) \<times> session) option \<times> 'w" where
  "process_manual_start A zone_id session w =
     (if is_active session then
        (case session_status session of
           None \<Rightarrow> (None, w)
         | Some s \<Rightarrow> (Some (Inl (AlreadyExists (ss_session_id s)), session), w))
      else
        (case op_start_session (pa_operator A) (pa_vehicle_id A) zone_id w of
           (None, w1) \<Rightarrow> (None, w1)
         | (Some (Inr resp), w1) \<Rightarrow>
             (let start_time = unix_timestamp A w1;
                  session' = session_start (sr_session_id resp) zone_id start_time (rate_of resp) session
              in case bo_set_bool (pa_broker A) SIGNAL_SESSION_ACTIVE True w1 of
                   (_, w2) \<Rightarrow> (Some (Inr resp, session'), w2))
         | (Some (Inl e), w1) \<Rightarrow> (Some (Inl (OperatorUnavailable (show_operator_error e)), session), w1)))"

definition process_manual_stop ::
    "'w adaptor \<Rightarrow> session \<Rightarrow> 'w \<Rightarrow> ((manual_error + stop_response) \<times> session) option \<times> 'w" where
  "process_manual_stop A session w =
     (if \<not> is_active session then (Some (Inl FailedPrecondition, session), w)
      else
        (case session_status session of
           None \<Rightarrow> (None, w)
         | Some s \<Rightarrow>
             (case op_stop_session (pa_operator A) (ss_session_id s) w of
                (None, w1) \<Rightarrow> (None, w1)
              | (Some (Inr resp), w1) \<Rightarrow>
                  (case bo_set_bool (pa_broker A) SIGNAL_SESSION_ACTIVE False w1 of
                     (_, w2) \<Rightarrow> (Some (Inr resp, snd (session_stop session)), w2))
              | (Some (Inl e), w1) \<Rightarrow>
                  (Some (Inl (OperatorUnavailable (show_operator_error e)), session), w1))))"

section \<open>The event loop\<close>

datatype session_event =
  LockChanged bool | ManualStart string | ManualStop | QueryStatus | QueryRate

datatype session_reply =
    NoReplyEvent
  | StartReply "manual_error + start_response"
  | StopReply "manual_error + stop_response"
  | StatusReply "session_state option"
  | RateReply "rate option"

fun handle_event :: "'w adaptor \<Rightarrow> session_event \<Rightarrow> session \<Rightarrow> 'w \<Rightarrow> (session_reply \<times> session) option \<times> 'w" where
  "handle_event A (LockChanged is_locked) session w =
     (case process_lock_event A (pa_zone_id A) is_locked session w of
        (r, w') \<Rightarrow> (map_option (\<lambda>s. (NoReplyEvent, s)) r, w'))"
| "handle_event A (ManualStart z) session w =
     (case process_manual_start A z session w of
        (r, w') \<Rightarrow> (map_option (\<lambda>(res, s). (StartReply res, s)) r, w'))"
| "handle_event A ManualStop session w =
     (case process_manual_stop A session w of
        (r, w') \<Rightarrow> (map_option (\<lambda>(res, s). (StopReply res, s)) r, w'))"
| "handle_event A QueryStatus session w = (Some (StatusReply (session_status session), session), w)"
| "handle_event A QueryRate session w = (Some (RateReply (session_rate session), session), w)"

text \<open>
  The loop over the events of the channel: the replies so far, the session (\<open>None\<close> when the loop
  panicked) and the state.
\<close>

fun event_loop :: "'w adaptor \<Rightarrow> session_event list \<Rightarrow> session \<Rightarrow> 'w \<Rightarrow> session_reply list \<times> session option \<times> 'w" where
  "event_loop A [] session w = ([], Some session, w)"
| "event_loop A (ev # evs) session w =
     (case handle_event A ev session w of
        (None, w1) \<Rightarrow> ([], None, w1)
      | (Some (reply, session'), w1) \<Rightarrow>
          (case event_loop A evs session' w1 of
             (replies, end, w2) \<Rightarrow> (reply # replies, end, w2)))"

definition run_event_loop :: "'w adaptor \<Rightarrow> session_event list \<Rightarrow> 'w \<Rightarrow> session_reply list \<times> session option \<times> 'w" where
  "run_event_loop A evs w = event_loop A evs session_new w"

section \<open>The contract of the clients\<close>

text \<open>
  \<open>calls\<close> lists the starts and stops that the operator confirmed, \<open>shown\<close> the values of the
  session signal that DATA_BROKER accepted.
\<close>

datatype operator_call = Started string | Ended string

fun kind_of :: "operator_call \<Rightarrow> bool" where
  "kind_of (Started _) = True"
| "kind_of (Ended _) = False"

text \<open>
  \<open>replay open cs\<close> follows the calls from the session that is open: a start needs none, a stop
  needs the one it names. The result is \<open>None\<close> for calls out of step.
\<close>

fun replay :: "string option \<Rightarrow> operator_call list \<Rightarrow> string option option" where
  "replay open [] = Some open"
| "replay open (Started i # cs) = (if open = None then replay (Some i) cs else None)"
| "replay open (Ended i # cs) = (if open = Some i then replay None cs else None)"

lemma replay_append: "replay o1 (cs @ ds) = Option.bind (replay o1 cs) (\<lambda>o2. replay o2 ds)"
  by (induction o1 cs rule: replay.induct) simp_all

definition open_id :: "session \<Rightarrow> string option" where
  "open_id s = map_option ss_session_id s"

text \<open>A session that the manager holds is active: stopping it forgets it.\<close>

definition valid_session :: "session \<Rightarrow> bool" where
  "valid_session s = (case s of None \<Rightarrow> True | Some x \<Rightarrow> ss_active x)"

lemma open_id_simps [simp]:
  "open_id None = None" "open_id (Some x) = Some (ss_session_id x)"
  by (simp_all add: open_id_def)

lemma valid_session_simps [simp]: "valid_session None" "valid_session (Some x) = ss_active x"
  by (simp_all add: valid_session_def)

locale parking_contract =
  fixes A :: "'w adaptor"
    and calls :: "'w \<Rightarrow> operator_call list"
    and shown :: "'w \<Rightarrow> bool list"
  assumes start_calls: "op_start_session (pa_operator A) v z w = (r, w') \<Longrightarrow>
      shown w' = shown w \<and>
      calls w' = calls w @ (case r of Some (Inr resp) \<Rightarrow> [Started (sr_session_id resp)] | _ \<Rightarrow> [])"
    and stop_calls: "op_stop_session (pa_operator A) i w = (q, w') \<Longrightarrow>
      shown w' = shown w \<and> calls w' = calls w @ (case q of Some (Inr resp) \<Rightarrow> [Ended i] | _ \<Rightarrow> [])"
    and set_bool_shown: "bo_set_bool (pa_broker A) SIGNAL_SESSION_ACTIVE b w = (u, w') \<Longrightarrow>
      calls w' = calls w \<and> shown w' = shown w @ (if is_ok u then [b] else [])"
begin

text \<open>
  What one event does: the confirmed calls it adds are in step with the session before and after
  it, and when DATA_BROKER takes the writes they are shown one for one.
\<close>

definition writes_ok :: bool where
  "writes_ok = (\<forall>b u. is_ok (fst (bo_set_bool (pa_broker A) SIGNAL_SESSION_ACTIVE b u)))"

lemma writes_okD: "writes_ok \<Longrightarrow> bo_set_bool (pa_broker A) SIGNAL_SESSION_ACTIVE b u = (r, u') \<Longrightarrow> is_ok r"
  unfolding writes_ok_def by (metis fst_conv)

definition effect :: "session \<Rightarrow> 'w \<Rightarrow> session option \<Rightarrow> 'w \<Rightarrow> bool" where
  "effect s w s' w' =
     (\<exists>cs. calls w' = calls w @ cs \<and>
        (writes_ok \<longrightarrow> shown w' = shown w @ map kind_of cs) \<and>
        (case s' of None \<Rightarrow> cs = []
         | Some x \<Rightarrow> valid_session x \<and> replay (open_id s) cs = Some (open_id x)))"

lemma effect_same: "valid_session s \<Longrightarrow> effect s w (Some s) w"
  by (simp add: effect_def)

lemma effect_none: "calls w' = calls w \<Longrightarrow> shown w' = shown w \<Longrightarrow> effect s w None w'"
  by (simp add: effect_def)

lemma effect_kept: "valid_session s \<Longrightarrow> calls w' = calls w \<Longrightarrow> shown w' = shown w \<Longrightarrow> effect s w (Some s) w'"
  by (simp add: effect_def)

lemma effect_start:
  assumes "op_start_session (pa_operator A) v z w = (Some (Inr resp), w1)"
    and "bo_set_bool (pa_broker A) SIGNAL_SESSION_ACTIVE True w1 = (u, w2)"
    and "s = None" "ss_active x" "ss_session_id x = sr_session_id resp"
  shows "effect s w (Some (Some x)) w2"
  unfolding effect_def
  by (rule exI [of _ "[Started (sr_session_id resp)]"])
    (use start_calls [OF assms(1)] set_bool_shown [OF assms(2)] writes_okD [OF _ assms(2)] assms in auto)

lemma effect_stop:
  assumes "op_stop_session (pa_operator A) (ss_session_id x) w = (Some (Inr resp), w1)"
    and "bo_set_bool (pa_broker A) SIGNAL_SESSION_ACTIVE False w1 = (u, w2)"
  shows "effect (Some x) w (Some None) w2"
  unfolding effect_def
  by (rule exI [of _ "[Ended (ss_session_id x)]"])
    (use stop_calls [OF assms(1)] set_bool_shown [OF assms(2)] writes_okD [OF _ assms(2)] in auto)

lemmas session_ops = session_start_def session_stop_def session_status_def session_rate_def

lemma start_failed:
  "op_start_session (pa_operator A) v z w = (r, w1) \<Longrightarrow> \<not> (\<exists>resp. r = Some (Inr resp)) \<Longrightarrow>
     calls w1 = calls w \<and> shown w1 = shown w"
  by (drule start_calls) (auto split: option.splits sum.splits)

lemma stop_failed:
  "op_stop_session (pa_operator A) i w = (r, w1) \<Longrightarrow> \<not> (\<exists>resp. r = Some (Inr resp)) \<Longrightarrow>
     calls w1 = calls w \<and> shown w1 = shown w"
  by (drule stop_calls) (auto split: option.splits sum.splits)

lemma start_event_effect:
  assumes "valid_session s"
  shows "case process_manual_start A z s w of (r, w') \<Rightarrow> effect s w (map_option snd r) w'"
    and "case process_lock_event A z True s w of (r, w') \<Rightarrow> effect s w r w'"
proof -
  obtain r w1 where o: "op_start_session (pa_operator A) (pa_vehicle_id A) z w = (r, w1)" by fastforce
  obtain u w2 where b: "bo_set_bool (pa_broker A) SIGNAL_SESSION_ACTIVE True w1 = (u, w2)" by fastforce
  have none: "effect s w (Some (Some x)) w2"
    if "s = None" "r = Some (Inr resp)" "ss_active x" "ss_session_id x = sr_session_id resp" for x resp
    using effect_start [OF _ b] o that by blast
  have failed: "effect s w (Some s) w1" "effect s w None w1" if "\<not> (\<exists>resp. r = Some (Inr resp))"
    using start_failed [OF o that] assms by (simp_all add: effect_none effect_kept)
  show "case process_manual_start A z s w of (r, w') \<Rightarrow> effect s w (map_option snd r) w'"
    using assms o b none failed effect_same [OF assms]
    by (cases s) (auto simp: process_manual_start_def session_ops Let_def split: option.splits sum.splits)
  show "case process_lock_event A z True s w of (r, w') \<Rightarrow> effect s w r w'"
    using assms o b none failed effect_same [OF assms]
    by (cases s) (auto simp: process_lock_event_def session_ops Let_def split: option.splits sum.splits)
qed

lemma stop_event_effect:
  assumes "valid_session s"
  shows "case process_manual_stop A s w of (r, w') \<Rightarrow> effect s w (map_option snd r) w'"
    and "case process_lock_event A z False s w of (r, w') \<Rightarrow> effect s w r w'"
proof -
  have active: "\<exists>x. s = Some x \<and> ss_active x" if "is_active s" using that by (cases s) auto
  have main: "effect (Some x) w (Some None) w2" if "op_stop_session (pa_operator A) (ss_session_id x) w = (Some (Inr resp), w1)"
    "bo_set_bool (pa_broker A) SIGNAL_SESSION_ACTIVE False w1 = (u, w2)" for x resp w1 u w2
    using effect_stop that by blast
  have failed: "effect s w (Some s) w1" "effect s w None w1"
    if "op_stop_session (pa_operator A) i w = (r, w1)" "\<not> (\<exists>resp. r = Some (Inr resp))" for i r w1
    using stop_failed [OF that] assms by (simp_all add: effect_none effect_kept)
  show "case process_manual_stop A s w of (r, w') \<Rightarrow> effect s w (map_option snd r) w'"
    using assms main failed effect_same [OF assms]
    by (cases s) (auto simp: process_manual_stop_def session_ops split: option.splits sum.splits prod.splits)
  show "case process_lock_event A z False s w of (r, w') \<Rightarrow> effect s w r w'"
    using assms main failed effect_same [OF assms]
    by (cases s) (auto simp: process_lock_event_def session_ops split: option.splits sum.splits prod.splits)
qed

lemma event_effect:
  assumes "valid_session s"
  shows "case handle_event A ev s w of (r, w') \<Rightarrow> effect s w (map_option snd r) w'"
proof (cases ev)
  case (LockChanged b)
  then show ?thesis
    using start_event_effect(2) [OF assms, where z = "pa_zone_id A" and w = w]
      stop_event_effect(2) [OF assms, where z = "pa_zone_id A" and w = w]
    by (cases b) (auto simp: option.map_comp comp_def option.map_ident split: prod.splits)
next
  case (ManualStart z)
  then show ?thesis using start_event_effect(1) [OF assms, where z = z and w = w]
    by (auto simp: option.map_comp comp_def case_prod_beta split: prod.splits)
next
  case ManualStop
  then show ?thesis using stop_event_effect(1) [OF assms, where w = w]
    by (auto simp: option.map_comp comp_def case_prod_beta split: prod.splits)
qed (use effect_same [OF assms] in \<open>simp_all add: session_ops\<close>)

text \<open>The same for a run of the loop.\<close>

definition run_effect :: "session \<Rightarrow> 'w \<Rightarrow> session option \<Rightarrow> 'w \<Rightarrow> bool" where
  "run_effect s w s' w' =
     (\<exists>cs. calls w' = calls w @ cs \<and> (writes_ok \<longrightarrow> shown w' = shown w @ map kind_of cs) \<and>
        (case s' of None \<Rightarrow> replay (open_id s) cs \<noteq> None
         | Some x \<Rightarrow> valid_session x \<and> replay (open_id s) cs = Some (open_id x)))"

lemma run_effect_none: "effect s w None w' \<Longrightarrow> run_effect s w None w'"
  by (auto simp: effect_def run_effect_def)

lemma run_effect_step:
  assumes "effect s w (Some s1) w1" "run_effect s1 w1 s2 w2"
  shows "run_effect s w s2 w2"
proof -
  obtain cs where c: "calls w1 = calls w @ cs" "writes_ok \<longrightarrow> shown w1 = shown w @ map kind_of cs"
    "replay (open_id s) cs = Some (open_id s1)"
    using assms(1) unfolding effect_def by auto
  obtain ds where d: "calls w2 = calls w1 @ ds" "writes_ok \<longrightarrow> shown w2 = shown w1 @ map kind_of ds"
    "case s2 of None \<Rightarrow> replay (open_id s1) ds \<noteq> None
      | Some x \<Rightarrow> valid_session x \<and> replay (open_id s1) ds = Some (open_id x)"
    using assms(2) unfolding run_effect_def by auto
  show ?thesis unfolding run_effect_def
    by (rule exI [of _ "cs @ ds"]) (use c d in \<open>auto simp: replay_append split: option.splits\<close>)
qed

lemma loop_effect:
  "valid_session s \<Longrightarrow> event_loop A evs s w = (rs, s', w') \<Longrightarrow> run_effect s w s' w'"
proof (induction evs arbitrary: s w rs)
  case Nil
  then show ?case by (auto simp: run_effect_def)
next
  case (Cons ev evs)
  obtain r w1 where h: "handle_event A ev s w = (r, w1)" by fastforce
  have e: "effect s w (map_option snd r) w1" using event_effect [OF Cons.prems(1), where ev = ev and w = w] h by simp
  show ?case
  proof (cases r)
    case None
    then show ?thesis using Cons.prems(2) h e by (auto intro: run_effect_none)
  next
    case (Some p)
    then obtain rep s1 where p: "r = Some (rep, s1)" by (cases p) auto
    obtain rs1 s2 w2 where l: "event_loop A evs s1 w1 = (rs1, s2, w2)" by (metis prod_cases3)
    have "effect s w (Some s1) w1" using e p by simp
    moreover have "valid_session s1" using calculation by (auto simp: effect_def)
    moreover have "event_loop A evs s1 w1 = (rs1, s', w')" using Cons.prems(2) h p l by simp
    ultimately show ?thesis using Cons.IH run_effect_step by blast
  qed
qed

end

end
