(* ===== verification/Parking_Clients.thy ===== *)
theory Parking_Clients
  imports Parking_Session
begin

text \<open>
  rhivos/parking-operator-adaptor/src/operator.rs, broker.rs and testing.rs: the REST client of
  the parking operator with its retries, the DATA_BROKER client, and the mock clients of the
  unit tests. Both pairs of clients satisfy the contract of the event loop.
\<close>

section \<open>The operator client\<close>

definition MAX_RETRIES :: nat where "MAX_RETRIES = 3"
definition RETRY_DELAYS_MS :: "nat list" where "RETRY_DELAYS_MS = [1000, 2000, 4000]"

record operator_client =
  oc_base_url :: string
  oc_de_start :: "string \<Rightarrow> serde_error + start_response"
  oc_de_stop :: "string \<Rightarrow> serde_error + stop_response"

definition start_request_json :: "string \<Rightarrow> string \<Rightarrow> 64 word \<Rightarrow> json" where
  "start_request_json vehicle_id zone_id timestamp =
     JObj [(''vehicle_id'', JStr vehicle_id), (''zone_id'', JStr zone_id), (''timestamp'', JInt (sint timestamp))]"

definition stop_request_json :: "string \<Rightarrow> 64 word \<Rightarrow> json" where
  "stop_request_json session_id timestamp =
     JObj [(''session_id'', JStr session_id), (''timestamp'', JInt (sint timestamp))]"

text \<open>\<open>response.json::<Resp>()\<close>.\<close>

definition response_json_as :: "(string \<Rightarrow> serde_error + 'r) \<Rightarrow> http_response \<Rightarrow> operator_error + 'r" where
  "response_json_as de response =
     (case hr_body response of
        Inl e \<Rightarrow> Inl (ParseError e)
      | Inr body \<Rightarrow> map_err (\<lambda>e. ParseError (se_text e)) (de body))"

text \<open>
  One iteration of the retry loop: \<open>Inr\<close> is what the function returns, \<open>Inl\<close> the new
  \<open>last_error\<close>.
\<close>

definition post_attempt ::
    "world \<Rightarrow> (string \<Rightarrow> serde_error + 'r) \<Rightarrow> string \<Rightarrow> json \<Rightarrow> nat \<Rightarrow> trace
     \<Rightarrow> (string + (operator_error + 'r)) \<times> trace" where
  "post_attempt W de url body attempt t =
     (let t1 = (if attempt > 0 then sleep_ms (RETRY_DELAYS_MS ! (attempt - 1)) t else t) in
      case ask_post W url body t1 of
        (Inr response, t2) \<Rightarrow>
          if hr_success response then (Inr (response_json_as de response), t2)
          else (Inl (''HTTP '' @ hr_status_text response), t2)
      | (Inl e, t2) \<Rightarrow> (Inl e, t2))"

fun post_loop ::
    "world \<Rightarrow> (string \<Rightarrow> serde_error + 'r) \<Rightarrow> string \<Rightarrow> json \<Rightarrow> nat list \<Rightarrow> string \<Rightarrow> trace
     \<Rightarrow> (string + (operator_error + 'r)) \<times> trace" where
  "post_loop W de url body [] last_error t = (Inl last_error, t)"
| "post_loop W de url body (attempt # rest) last_error t =
     (case post_attempt W de url body attempt t of
        (Inr r, t') \<Rightarrow> (Inr r, t')
      | (Inl e, t') \<Rightarrow> post_loop W de url body rest e t')"

definition post_with_retry ::
    "world \<Rightarrow> (string \<Rightarrow> serde_error + 'r) \<Rightarrow> string \<Rightarrow> json \<Rightarrow> trace \<Rightarrow> (operator_error + 'r) \<times> trace" where
  "post_with_retry W de url body t =
     (case post_loop W de url body [0..<Suc MAX_RETRIES] [] t of
        (Inr r, t') \<Rightarrow> (r, t')
      | (Inl last_error, t') \<Rightarrow> (Inl (RequestFailed last_error), t'))"

text \<open>The timestamps panic when the clock is before 1970.\<close>

definition oc_start_session ::
    "operator_client \<Rightarrow> world \<Rightarrow> string \<Rightarrow> string \<Rightarrow> trace \<Rightarrow> (operator_error + start_response) option \<times> trace" where
  "oc_start_session oc W vehicle_id zone_id t =
     (let url = oc_base_url oc @ ''/parking/start'' in
      case w_clock W t of
        None \<Rightarrow> (None, t)
      | Some timestamp \<Rightarrow>
          (case post_with_retry W (oc_de_start oc) url (start_request_json vehicle_id zone_id timestamp) t of
             (r, t') \<Rightarrow> (Some r, t')))"

definition oc_stop_session ::
    "operator_client \<Rightarrow> world \<Rightarrow> string \<Rightarrow> trace \<Rightarrow> (operator_error + stop_response) option \<times> trace" where
  "oc_stop_session oc W session_id t =
     (let url = oc_base_url oc @ ''/parking/stop'' in
      case w_clock W t of
        None \<Rightarrow> (None, t)
      | Some timestamp \<Rightarrow>
          (case post_with_retry W (oc_de_stop oc) url (stop_request_json session_id timestamp) t of
             (r, t') \<Rightarrow> (Some r, t')))"

section \<open>The DATA_BROKER client\<close>

definition CONNECT_MAX_ATTEMPTS :: nat where "CONNECT_MAX_ATTEMPTS = 5"
definition CONNECT_DELAYS_MS :: "nat list" where "CONNECT_DELAYS_MS = [1000, 2000, 4000, 8000]"

datatype broker_error_pa = PaConnectionFailed string | PaRpcError string

fun show_broker_error_pa :: "broker_error_pa \<Rightarrow> string" where
  "show_broker_error_pa (PaConnectionFailed msg) = ''DATA_BROKER connection failed: '' @ msg"
| "show_broker_error_pa (PaRpcError msg) = ''DATA_BROKER RPC error: '' @ msg"

definition connect_attempt_pa :: "world \<Rightarrow> string \<Rightarrow> nat \<Rightarrow> trace \<Rightarrow> (string + unit) \<times> trace" where
  "connect_attempt_pa W addr attempt t =
     (case ask_connect W addr t of
        (Inr client, t') \<Rightarrow> (Inr client, t')
      | (Inl e, t') \<Rightarrow>
          (Inl e, if attempt < CONNECT_MAX_ATTEMPTS - 1 then sleep_ms (CONNECT_DELAYS_MS ! attempt) t' else t'))"

fun connect_loop_pa :: "world \<Rightarrow> string \<Rightarrow> nat list \<Rightarrow> string \<Rightarrow> trace \<Rightarrow> (string + unit) \<times> trace" where
  "connect_loop_pa W addr [] last_error t = (Inl last_error, t)"
| "connect_loop_pa W addr (attempt # rest) last_error t =
     (case connect_attempt_pa W addr attempt t of
        (Inr client, t') \<Rightarrow> (Inr client, t')
      | (Inl e, t') \<Rightarrow> connect_loop_pa W addr rest e t')"

definition connect_pa :: "world \<Rightarrow> string \<Rightarrow> trace \<Rightarrow> (broker_error_pa + unit) \<times> trace" where
  "connect_pa W addr t =
     (case connect_loop_pa W addr [0..<CONNECT_MAX_ATTEMPTS] [] t of
        (r, t') \<Rightarrow> (map_err PaConnectionFailed r, t'))"

definition subscribe_bool :: "world \<Rightarrow> string \<Rightarrow> trace \<Rightarrow> (broker_error_pa + unit) \<times> trace" where
  "subscribe_bool W signal t =
     (case ask_subscribe W \<lparr>sub_paths = [signal], sub_buffer_size = 0\<rparr> t of
        (r, t') \<Rightarrow> (map_err (\<lambda>e. PaRpcError (''subscribe('' @ signal @ ''): '' @ e)) r, t'))"

text \<open>
  The spawned task of \<open>subscribe_bool\<close> over the items of the stream; \<open>room\<close> is the number of sends
  for which the receiver is still there.
\<close>

fun forward_bools :: "string \<Rightarrow> nat \<Rightarrow> (string + entries) list \<Rightarrow> bool list" where
  "forward_bools signal_path room [] = []"
| "forward_bools signal_path room (Inl e # items) = []"
| "forward_bools signal_path room (Inr es # items) =
     (case map_of es signal_path of
        Some dp \<Rightarrow>
          (case dp_value dp of
             Some (Some (TBool b)) \<Rightarrow>
               (case room of 0 \<Rightarrow> [] | Suc room' \<Rightarrow> b # forward_bools signal_path room' items)
           | _ \<Rightarrow> forward_bools signal_path room items)
      | None \<Rightarrow> forward_bools signal_path room items)"

definition publish_bool :: "world \<Rightarrow> string \<Rightarrow> bool \<Rightarrow> trace \<Rightarrow> (broker_error_pa + unit) \<times> trace" where
  "publish_bool W signal value t =
     (case ask_publish_value W (publish_request signal (TBool value)) t of
        (r, t') \<Rightarrow> (map_err (\<lambda>e. PaRpcError (''publish_bool('' @ signal @ ''): '' @ e)) r, t'))"

definition broker_set_bool :: "world \<Rightarrow> string \<Rightarrow> bool \<Rightarrow> trace \<Rightarrow> (string + unit) \<times> trace" where
  "broker_set_bool W signal value t =
     (case publish_bool W signal value t of (r, t') \<Rightarrow> (map_err show_broker_error_pa r, t'))"

definition real_adaptor :: "operator_client \<Rightarrow> world \<Rightarrow> string \<Rightarrow> string \<Rightarrow> trace adaptor" where
  "real_adaptor oc W vehicle_id zone_id =
     \<lparr>pa_operator = \<lparr>op_start_session = oc_start_session oc W, op_stop_session = oc_stop_session oc W\<rparr>,
      pa_broker = \<lparr>bo_set_bool = broker_set_bool W\<rparr>, pa_clock = w_clock W,
      pa_vehicle_id = vehicle_id, pa_zone_id = zone_id\<rparr>"

section \<open>The mock clients\<close>

record mock_parking =
  mk_start_response :: "(operator_error + start_response) option"
  mk_stop_response :: "(operator_error + stop_response) option"
  mk_start_calls :: "(string \<times> string) list"
  mk_stop_calls :: "string list"
  mk_set_bool_calls :: "(string \<times> bool) list"
  mk_fail_set_bool :: bool
  mk_confirmed :: "operator_call list"

text \<open>\<open>mk_confirmed\<close> is a ghost: the calls that the mock answered with success.\<close>

definition mock_parking_new :: mock_parking where
  "mock_parking_new =
     \<lparr>mk_start_response = None, mk_stop_response = None, mk_start_calls = [], mk_stop_calls = [],
      mk_set_bool_calls = [], mk_fail_set_bool = False, mk_confirmed = []\<rparr>"

definition on_start_return :: "operator_error + start_response \<Rightarrow> mock_parking \<Rightarrow> mock_parking" where
  "on_start_return resp m = m\<lparr>mk_start_response := Some resp\<rparr>"

definition on_start_success :: "string \<Rightarrow> string \<Rightarrow> f64 \<Rightarrow> string \<Rightarrow> mock_parking \<Rightarrow> mock_parking" where
  "on_start_success session_id rate_type amount currency =
     on_start_return (Inr
       \<lparr>sr_session_id = session_id, sr_status = ''active'',
        sr_rate = \<lparr>rp_rate_type = rate_type, rp_amount = amount, rp_currency = currency\<rparr>\<rparr>)"

definition on_stop_return :: "operator_error + stop_response \<Rightarrow> mock_parking \<Rightarrow> mock_parking" where
  "on_stop_return resp m = m\<lparr>mk_stop_response := Some resp\<rparr>"

definition on_stop_success :: "string \<Rightarrow> 64 word \<Rightarrow> f64 \<Rightarrow> string \<Rightarrow> mock_parking \<Rightarrow> mock_parking" where
  "on_stop_success session_id duration_seconds total_amount currency =
     on_stop_return (Inr
       \<lparr>pr_session_id = session_id, pr_status = ''completed'', pr_duration_seconds = duration_seconds,
        pr_total_amount = total_amount, pr_currency = currency\<rparr>)"

definition mock_start_session ::
    "string \<Rightarrow> string \<Rightarrow> mock_parking \<Rightarrow> (operator_error + start_response) option \<times> mock_parking" where
  "mock_start_session vehicle_id zone_id m =
     (let r = unwrap_or (Inl (RequestFailed ''no mock response configured'')) (mk_start_response m) in
      (Some r,
       m\<lparr>mk_start_calls := mk_start_calls m @ [(vehicle_id, zone_id)], mk_start_response := None,
         mk_confirmed := mk_confirmed m @ (case r of Inr resp \<Rightarrow> [Started (sr_session_id resp)] | Inl _ \<Rightarrow> [])\<rparr>))"

definition mock_stop_session ::
    "string \<Rightarrow> mock_parking \<Rightarrow> (operator_error + stop_response) option \<times> mock_parking" where
  "mock_stop_session session_id m =
     (let r = unwrap_or (Inl (RequestFailed ''no mock response configured'')) (mk_stop_response m) in
      (Some r,
       m\<lparr>mk_stop_calls := mk_stop_calls m @ [session_id], mk_stop_response := None,
         mk_confirmed := mk_confirmed m @ (case r of Inr resp \<Rightarrow> [Ended session_id] | Inl _ \<Rightarrow> [])\<rparr>))"

definition fail_set_bool :: "mock_parking \<Rightarrow> mock_parking" where
  "fail_set_bool m = m\<lparr>mk_fail_set_bool := True\<rparr>"

definition mock_parking_set_bool :: "string \<Rightarrow> bool \<Rightarrow> mock_parking \<Rightarrow> (string + unit) \<times> mock_parking" where
  "mock_parking_set_bool signal value m =
     (if mk_fail_set_bool m
      then (Inl ''simulated broker failure'', m\<lparr>mk_fail_set_bool := False\<rparr>)
      else (Inr (), m\<lparr>mk_set_bool_calls := mk_set_bool_calls m @ [(signal, value)]\<rparr>))"

definition mock_adaptor :: "string \<Rightarrow> string \<Rightarrow> mock_parking adaptor" where
  "mock_adaptor vehicle_id zone_id =
     \<lparr>pa_operator = \<lparr>op_start_session = mock_start_session, op_stop_session = mock_stop_session\<rparr>,
      pa_broker = \<lparr>bo_set_bool = mock_parking_set_bool\<rparr>, pa_clock = (\<lambda>_. Some 1700000000),
      pa_vehicle_id = vehicle_id, pa_zone_id = zone_id\<rparr>"

section \<open>The contract holds\<close>

text \<open>The values of the session signal in a log of writes.\<close>

definition session_values :: "(string \<times> bool) list \<Rightarrow> bool list" where
  "session_values ws = map snd (filter (\<lambda>w. fst w = SIGNAL_SESSION_ACTIVE) ws)"

lemma session_values_append [simp]: "session_values (xs @ ys) = session_values xs @ session_values ys"
  by (simp add: session_values_def)

lemma session_values_simps [simp]:
  "session_values [] = []" "session_values [(SIGNAL_SESSION_ACTIVE, b)] = [b]"
  by (simp_all add: session_values_def)

text \<open>The calls of the operator that a trace shows to be confirmed.\<close>

definition confirmed_call :: "operator_client \<Rightarrow> event \<Rightarrow> operator_call list" where
  "confirmed_call oc ev =
     (case ev of
        EvPost url body (Inr resp) \<Rightarrow>
          if \<not> hr_success resp then []
          else if url = oc_base_url oc @ ''/parking/start'' then
            (case response_json_as (oc_de_start oc) resp of
               Inr r \<Rightarrow> [Started (sr_session_id r)] | Inl _ \<Rightarrow> [])
          else if url = oc_base_url oc @ ''/parking/stop'' then
            (case response_json_as (oc_de_stop oc) resp of
               Inr _ \<Rightarrow> (case Option.bind (json_get body ''session_id'') as_str of Some i \<Rightarrow> [Ended i] | None \<Rightarrow> [])
             | Inl _ \<Rightarrow> [])
          else []
      | _ \<Rightarrow> [])"

definition confirmed_calls :: "operator_client \<Rightarrow> trace \<Rightarrow> operator_call list" where
  "confirmed_calls oc t = concat (map (confirmed_call oc) t)"

lemma confirmed_calls_append [simp]:
  "confirmed_calls oc [] = []"
  "confirmed_calls oc (t @ u) = confirmed_calls oc t @ confirmed_calls oc u"
  by (simp_all add: confirmed_calls_def)

lemma confirmed_calls_Cons [simp]:
  "confirmed_calls oc (EvSleep ms # t) = confirmed_calls oc t"
  "confirmed_calls oc (EvPublishValue q r # t) = confirmed_calls oc t"
  "confirmed_calls oc (EvSubscribe s rs # t) = confirmed_calls oc t"
  "confirmed_calls oc (EvConnect a rc # t) = confirmed_calls oc t"
  "confirmed_calls oc (EvPost u b rp # t) = confirmed_call oc (EvPost u b rp) @ confirmed_calls oc t"
  by (simp_all add: confirmed_calls_def confirmed_call_def)

lemma post_loop_log:
  assumes "\<And>resp. confirmed_call oc (EvPost url body (Inr resp)) =
      (if hr_success resp then (case response_json_as de resp of Inr r \<Rightarrow> g r | Inl _ \<Rightarrow> []) else [])"
    and "post_loop W de url body is e t = (r, t')"
  shows "confirmed_calls oc t' = confirmed_calls oc t @ (case r of Inr (Inr x) \<Rightarrow> g x | _ \<Rightarrow> []) \<and>
     accepted_bools t' = accepted_bools t"
  using assms(2)
proof (induction "is" arbitrary: e t)
  case Nil
  then show ?case by auto
next
  case (Cons i "is")
  obtain a t1 where b: "post_attempt W de url body i t = (a, t1)" by fastforce
  have log: "confirmed_calls oc t1 = confirmed_calls oc t @ (case a of Inr (Inr x) \<Rightarrow> g x | _ \<Rightarrow> [])"
    "accepted_bools t1 = accepted_bools t"
    using b assms(1) by (auto simp: post_attempt_def io_simps Let_def confirmed_call_def
        split: sum.splits if_splits)
  show ?case
  proof (cases a)
    case (Inl e1)
    then have "post_loop W de url body is e1 t1 = (r, t')" using Cons.prems b by simp
    from Cons.IH [OF this] log Inl show ?thesis by simp
  next
    case (Inr x)
    then show ?thesis using Cons.prems b log by auto
  qed
qed

lemma post_retry_log:
  assumes "\<And>resp. confirmed_call oc (EvPost url body (Inr resp)) =
      (if hr_success resp then (case response_json_as de resp of Inr r \<Rightarrow> g r | Inl _ \<Rightarrow> []) else [])"
    and "post_with_retry W de url body t = (r, t')"
  shows "confirmed_calls oc t' = confirmed_calls oc t @ (case r of Inr x \<Rightarrow> g x | _ \<Rightarrow> []) \<and>
     accepted_bools t' = accepted_bools t"
proof -
  obtain a t1 where l: "post_loop W de url body [0..<Suc MAX_RETRIES] [] t = (a, t1)" by fastforce
  show ?thesis
    using post_loop_log [OF assms(1) l] assms(2) l
    by (cases a) (auto simp: post_with_retry_def split: sum.splits)
qed

interpretation real_parking: parking_contract "real_adaptor oc W vehicle_id zone_id"
  "confirmed_calls oc" "\<lambda>t. session_values (accepted_bools t)"
proof unfold_locales
  fix v z t r t'
  assume "op_start_session (pa_operator (real_adaptor oc W vehicle_id zone_id)) v z t = (r, t')"
  then have s: "oc_start_session oc W v z t = (r, t')" by (simp add: real_adaptor_def)
  have c: "confirmed_call oc (EvPost (oc_base_url oc @ ''/parking/start'') body (Inr resp)) =
      (if hr_success resp then (case response_json_as (oc_de_start oc) resp of
         Inr r \<Rightarrow> [Started (sr_session_id r)] | Inl _ \<Rightarrow> []) else [])" for body resp
    by (simp add: confirmed_call_def)
  show "session_values (accepted_bools t') = session_values (accepted_bools t) \<and>
      confirmed_calls oc t' = confirmed_calls oc t @
        (case r of Some (Inr resp) \<Rightarrow> [Started (sr_session_id resp)] | _ \<Rightarrow> [])"
    using s post_retry_log [OF c] by (auto simp: oc_start_session_def Let_def split: option.splits prod.splits)
next
  fix i t q t'
  assume "op_stop_session (pa_operator (real_adaptor oc W vehicle_id zone_id)) i t = (q, t')"
  then have s: "oc_stop_session oc W i t = (q, t')" by (simp add: real_adaptor_def)
  have c: "confirmed_call oc (EvPost (oc_base_url oc @ ''/parking/stop'') (stop_request_json i secs) (Inr resp)) =
      (if hr_success resp then (case response_json_as (oc_de_stop oc) resp of
         Inr r \<Rightarrow> [Ended i] | Inl _ \<Rightarrow> []) else [])" for secs resp
    by (simp add: confirmed_call_def stop_request_json_def split: sum.split)
  show "session_values (accepted_bools t') = session_values (accepted_bools t) \<and>
      confirmed_calls oc t' = confirmed_calls oc t @ (case q of Some (Inr resp) \<Rightarrow> [Ended i] | _ \<Rightarrow> [])"
    using s post_retry_log [OF c] by (auto simp: oc_stop_session_def Let_def split: option.splits prod.splits)
next
  fix b t u t'
  assume "bo_set_bool (pa_broker (real_adaptor oc W vehicle_id zone_id)) SIGNAL_SESSION_ACTIVE b t = (u, t')"
  then show "confirmed_calls oc t' = confirmed_calls oc t \<and>
      session_values (accepted_bools t') = session_values (accepted_bools t) @ (if is_ok u then [b] else [])"
    by (auto simp: real_adaptor_def broker_set_bool_def publish_bool_def io_simps Let_def)
qed

interpretation mock_parking: parking_contract "mock_adaptor vehicle_id zone_id" mk_confirmed
  "\<lambda>m. session_values (mk_set_bool_calls m)"
  by unfold_locales
    (auto simp: mock_adaptor_def mock_start_session_def mock_stop_session_def mock_parking_set_bool_def
      Let_def split: option.splits sum.splits if_splits)

section \<open>The retry loops\<close>

definition post_pause :: "nat \<Rightarrow> bool \<Rightarrow> nat list" where
  "post_pause attempt ok = (if attempt > 0 then [RETRY_DELAYS_MS ! (attempt - 1)] else [])"

interpretation post: bounded_retry "post_attempt W de url body" "post_loop W de url body"
  post_attempts sleeps post_pause
  by unfold_locales
    (auto simp: post_attempt_def post_pause_def io_simps Let_def split: sum.splits prod.splits)

definition connect_pause_pa :: "nat \<Rightarrow> bool \<Rightarrow> nat list" where
  "connect_pause_pa attempt ok =
     (if \<not> ok \<and> attempt < CONNECT_MAX_ATTEMPTS - 1 then [CONNECT_DELAYS_MS ! attempt] else [])"

interpretation parking_connect: bounded_retry "connect_attempt_pa W addr" "connect_loop_pa W addr"
  connect_attempts sleeps connect_pause_pa
  by unfold_locales
    (auto simp: connect_attempt_pa_def connect_pause_pa_def io_simps Let_def split: sum.splits prod.splits)

end
