(* ===== verification/Parking_Service.thy ===== *)
theory Parking_Service
  imports Parking_Clients
begin

text \<open>
  rhivos/parking-operator-adaptor/src/config.rs, grpc_server.rs and main.rs: the configuration,
  the four RPCs as clients of the event loop, the start-up and the exit code.
\<close>

section \<open>Configuration\<close>

record config_pa =
  pc_parking_operator_url :: string
  pc_data_broker_addr :: string
  pc_grpc_port :: nat
  pc_vehicle_id :: string
  pc_zone_id :: string

datatype config_error_pa = InvalidGrpcPort string

fun show_config_error_pa :: "config_error_pa \<Rightarrow> string" where
  "show_config_error_pa (InvalidGrpcPort val) = ''GRPC_PORT is not a valid port number: '' @ val"

text \<open>The port is a \<open>u16\<close>.\<close>

definition load_config_pa :: "world \<Rightarrow> config_error_pa + config_pa" where
  "load_config_pa W =
     (case (case w_env W ''GRPC_PORT'' of
              Some val \<Rightarrow> map_err (\<lambda>_. InvalidGrpcPort val) (parse_unsigned 16 val)
            | None \<Rightarrow> Inr 50053) of
        Inl e \<Rightarrow> Inl e
      | Inr grpc_port \<Rightarrow> Inr
          \<lparr>pc_parking_operator_url = unwrap_or ''http://localhost:8080'' (w_env W ''PARKING_OPERATOR_URL''),
           pc_data_broker_addr = unwrap_or ''http://localhost:55556'' (w_env W ''DATA_BROKER_ADDR''),
           pc_grpc_port = grpc_port,
           pc_vehicle_id = unwrap_or ''DEMO-VIN-001'' (w_env W ''VEHICLE_ID''),
           pc_zone_id = unwrap_or ''zone-demo-1'' (w_env W ''ZONE_ID'')\<rparr>)"

section \<open>The RPCs\<close>

text \<open>
  A handler sends an event to the loop and waits for the reply: what it gets is the reply, or
  that the loop is gone when it sends or before it answers.
\<close>

datatype 'a answered = Answered 'a | LoopGone | ReplyDropped

fun from_loop :: "'a answered \<Rightarrow> status + 'a" where
  "from_loop (Answered x) = Inr x"
| "from_loop LoopGone = Inl (Status GInternal ''event loop not running'')"
| "from_loop ReplyDropped = Inl (Status GInternal ''event loop dropped reply'')"

record session_info =
  si_session_id :: string
  si_active :: bool
  si_start_time :: "64 word"
  si_zone_id :: string

record parking_rate =
  pk_operator_id :: string
  pk_rate_type :: string
  pk_amount :: f64
  pk_currency :: string

definition info_of_session :: "session_state \<Rightarrow> session_info" where
  "info_of_session s =
     \<lparr>si_session_id = ss_session_id s, si_active = ss_active s, si_start_time = ss_start_time s,
      si_zone_id = ss_zone_id s\<rparr>"

fun manual_status :: "manual_error \<Rightarrow> status" where
  "manual_status (AlreadyExists i) = Status GAlreadyExists (''session already active: '' @ i)"
| "manual_status FailedPrecondition = Status GFailedPrecondition ''no active session''"
| "manual_status (OperatorUnavailable msg) = Status GUnavailable msg"

definition grpc_start_session ::
    "string \<Rightarrow> (manual_error + start_response) answered \<Rightarrow> session_state option answered \<Rightarrow> status + session_info" where
  "grpc_start_session zone_id start_answer status_answer =
     (case from_loop start_answer of
        Inl st \<Rightarrow> Inl st
      | Inr (Inl e) \<Rightarrow> Inl (manual_status e)
      | Inr (Inr start_resp) \<Rightarrow>
          (case from_loop status_answer of
             Inl st \<Rightarrow> Inl st
           | Inr (Some s) \<Rightarrow> Inr (info_of_session s)
           | Inr None \<Rightarrow> Inr
               \<lparr>si_session_id = sr_session_id start_resp, si_active = True, si_start_time = 0,
                si_zone_id = zone_id\<rparr>))"

definition grpc_stop_session :: "(manual_error + stop_response) answered \<Rightarrow> status + session_info" where
  "grpc_stop_session answer =
     (case from_loop answer of
        Inl st \<Rightarrow> Inl st
      | Inr (Inl e) \<Rightarrow> Inl (manual_status e)
      | Inr (Inr stop_resp) \<Rightarrow> Inr
          \<lparr>si_session_id = pr_session_id stop_resp, si_active = False, si_start_time = 0, si_zone_id = []\<rparr>)"

definition grpc_get_status :: "session_state option answered \<Rightarrow> status + session_info" where
  "grpc_get_status answer =
     (case from_loop answer of
        Inl st \<Rightarrow> Inl st
      | Inr (Some s) \<Rightarrow> Inr (info_of_session s)
      | Inr None \<Rightarrow> Inr \<lparr>si_session_id = [], si_active = False, si_start_time = 0, si_zone_id = []\<rparr>)"

definition grpc_get_rate :: "rate option answered \<Rightarrow> status + parking_rate" where
  "grpc_get_rate answer =
     (case from_loop answer of
        Inl st \<Rightarrow> Inl st
      | Inr (Some r) \<Rightarrow> Inr
          \<lparr>pk_operator_id = [], pk_rate_type = rt_rate_type r, pk_amount = rt_amount r, pk_currency = rt_currency r\<rparr>
      | Inr None \<Rightarrow> Inr \<lparr>pk_operator_id = [], pk_rate_type = [], pk_amount = f64_zero, pk_currency = []\<rparr>)"

section \<open>Start-up and main\<close>

text \<open>
  \<open>run\<close>: the configuration, the connection, the initial write of the session signal (whose
  failure is only logged), the subscription to the lock signal, then the event loop over the
  events of the channel until it is closed. \<open>Inl\<close> is the message of the error that ends it.
\<close>

datatype run_end = RunOk | RunError string | RunPanic

definition run_pa ::
    "operator_client \<Rightarrow> world \<Rightarrow> session_event list \<Rightarrow> trace \<Rightarrow> run_end \<times> session_reply list \<times> session option \<times> trace" where
  "run_pa oc W evs t =
     (case load_config_pa W of
        Inl e \<Rightarrow> (RunError (show_config_error_pa e), [], Some None, t)
      | Inr config \<Rightarrow>
     (case connect_pa W (pc_data_broker_addr config) t of
        (Inl e, t1) \<Rightarrow> (RunError (show_broker_error_pa e), [], Some None, t1)
      | (Inr _, t1) \<Rightarrow>
     (case publish_bool W SIGNAL_SESSION_ACTIVE False t1 of
        (_, t2) \<Rightarrow>
     (case subscribe_bool W SIGNAL_IS_LOCKED_pa t2 of
        (Inl e, t3) \<Rightarrow> (RunError (show_broker_error_pa e), [], Some None, t3)
      | (Inr _, t3) \<Rightarrow>
          (case run_event_loop (real_adaptor (oc\<lparr>oc_base_url := pc_parking_operator_url config\<rparr>) W
                  (pc_vehicle_id config) (pc_zone_id config)) evs t3 of
             (replies, s, t4) \<Rightarrow> ((case s of None \<Rightarrow> RunPanic | Some _ \<Rightarrow> RunOk), replies, s, t4))))))"

definition main_pa :: "operator_client \<Rightarrow> world \<Rightarrow> session_event list \<Rightarrow> nat" where
  "main_pa oc W evs =
     (case fst (run_pa oc W evs []) of RunOk \<Rightarrow> 0 | RunError _ \<Rightarrow> 1 | RunPanic \<Rightarrow> 101)"

end
