(* ===== verification/Parking_Properties.thy ===== *)
theory Parking_Properties
  imports Parking_Service
begin

text \<open>
  The properties of the parking operator adaptor: retries, the no-ops of the session logic, the
  agreement of the session with the operator and with DATA_BROKER over every sequence of events,
  the replies of the RPCs, the configuration.
\<close>

section \<open>Retries\<close>

lemma post_loop_answer:
  "post_loop W de url body is e t = (Inr x, t') \<Longrightarrow> x \<noteq> Inl (RequestFailed msg)"
proof (induction "is" arbitrary: e t)
  case (Cons i "is")
  obtain a t1 where "post_attempt W de url body i t = (a, t1)" by fastforce
  then show ?case using Cons
    by (cases a) (auto simp: post_attempt_def response_json_as_def map_err_def Let_def split: sum.splits prod.splits if_splits)
qed simp

text \<open>
  C28: A request to the operator is posted between one and four times, with pauses of 1, 2 and 4
  seconds between the attempts; \<open>RequestFailed\<close> is returned only after four attempts, and an
  answer with a success status is never asked for again, even if its body cannot be parsed.
\<close>
theorem operator_retries_bounded:
  "case post_with_retry W de url body t of
     (r, t') \<Rightarrow>
       \<exists>n. n \<le> 3 \<and> post_attempts t' = post_attempts t + Suc n \<and>
         sleeps t' = sleeps t @ take n [1000, 2000, 4000] \<and>
         (case r of Inl (RequestFailed _) \<Rightarrow> n = 3 | _ \<Rightarrow> True)"
proof -
  obtain a t1 where l: "post_loop W de url body [0..<Suc MAX_RETRIES] [] t = (a, t1)" by fastforce
  have pauses: "concat (map (\<lambda>i. post_pause i False) (take m [0..<4])) @ post_pause m True = take m [1000, 2000, 4000]"
    if "m < 4" for m
    using that
    by (auto simp: post_pause_def RETRY_DELAYS_MS_def less_Suc_eq numeral_eq_Suc upt_rec)
  show ?thesis
  proof (cases a)
    case (Inl e)
    with l have "post_with_retry W de url body t = (Inl (RequestFailed e), t1)"
      by (simp add: post_with_retry_def)
    then show ?thesis
      using l Inl post.exhausted [of W de url body "[0..<Suc MAX_RETRIES]" "[]" t e t1]
      by (simp add: MAX_RETRIES_def post_pause_def RETRY_DELAYS_MS_def upt_rec)
  next
    case (Inr x)
    then obtain n where n: "n < 4" "post_attempts t1 = post_attempts t + Suc n"
      "sleeps t1 = sleeps t @ concat (map (\<lambda>i. post_pause i False) (take n [0..<4])) @ post_pause n True"
      using l post.succeeded_at [of W de url body "[0..<Suc MAX_RETRIES]" "[]" t x t1]
      by (auto simp: MAX_RETRIES_def simp del: upt_Suc)
    have "case x of Inl (RequestFailed _) \<Rightarrow> n = 3 | _ \<Rightarrow> True"
      using post_loop_answer l Inr by (fastforce split: sum.splits operator_error.splits)
    then show ?thesis
      using l Inr n pauses [OF n(1)] by (auto simp: post_with_retry_def)
  qed
qed

section \<open>The session logic\<close>

text \<open>
  Events that ask for what is already so change nothing and call nobody: a lock event with a
  session, an unlock event without one, a manual start with a session (answered with its id) and
  a manual stop without one (answered with FAILED_PRECONDITION).
\<close>
lemma redundant_events_are_noops:
  "handle_event A (LockChanged (is_active s)) s w = (Some (NoReplyEvent, s), w) \<and>
   (if is_active s
    then \<exists>x. s = Some x \<and>
      handle_event A (ManualStart z) s w = (Some (StartReply (Inl (AlreadyExists (ss_session_id x))), s), w)
    else handle_event A ManualStop s w = (Some (StopReply (Inl FailedPrecondition), s), w))"
  by (cases s)
    (auto simp: process_lock_event_def process_manual_start_def process_manual_stop_def session_status_def)

text \<open>
  A start that the operator confirms opens a session with the operator's id and rate, the
  time of the clock and the zone that was asked for: the zone of the request for a manual start,
  the configured one for a lock event. A later lock event uses the configured zone again.
\<close>
lemma confirmed_start_opens_session:
  assumes "op_start_session (pa_operator A) (pa_vehicle_id A) zone w = (Some (Inr resp), w1)"
    and "s = None"
  defines "new \<equiv> \<lparr>ss_session_id = sr_session_id resp, ss_zone_id = zone, ss_start_time = unix_timestamp A w1,
     ss_rate = rate_of resp, ss_active = True\<rparr>"
    and "w2 \<equiv> snd (bo_set_bool (pa_broker A) SIGNAL_SESSION_ACTIVE True w1)"
  shows "handle_event A (ManualStart zone) s w = (Some (StartReply (Inr resp), Some new), w2) \<and>
     (pa_zone_id A = zone \<longrightarrow> handle_event A (LockChanged True) s w = (Some (NoReplyEvent, Some new), w2))"
  using assms(1,2)
  by (auto simp: process_lock_event_def process_manual_start_def session_start_def Let_def new_def w2_def
      split: prod.splits)

text \<open>
  When the operator fails, the session stays as it was and nothing is published, for lock
  events and manual requests alike; the manual requests report the error.
\<close>
lemma operator_failure_keeps_session:
  assumes "op_start_session (pa_operator A) (pa_vehicle_id A) zone w = (Some (Inl e), w1)"
    and "op_stop_session (pa_operator A) (ss_session_id x) w = (Some (Inl e'), w2)" and "ss_active x"
  shows "process_lock_event A zone True None w = (Some None, w1) \<and>
     process_manual_start A zone None w = (Some (Inl (OperatorUnavailable (show_operator_error e)), None), w1) \<and>
     process_lock_event A zone False (Some x) w = (Some (Some x), w2) \<and>
     process_manual_stop A (Some x) w = (Some (Inl (OperatorUnavailable (show_operator_error e')), Some x), w2)"
  using assms
  by (simp add: process_lock_event_def process_manual_start_def process_manual_stop_def session_status_def)

section \<open>The session over every sequence of events\<close>

text \<open>
  C7: Over every sequence of lock events, manual requests and queries, and whatever the operator,
  DATA_BROKER and the clock answer, the starts and stops that the operator confirmed alternate,
  every stop names the id that the operator gave for the start before it, and the session held at
  the end is active and the one that is open with the operator.
\<close>
theorem session_follows_operator:
  "case run_event_loop (real_adaptor oc W vehicle_id zone_id) evs t of
     (replies, s, t') \<Rightarrow>
       \<exists>cs. confirmed_calls oc t' = confirmed_calls oc t @ cs \<and>
         (case s of
            None \<Rightarrow> replay None cs \<noteq> None
          | Some x \<Rightarrow> valid_session x \<and> replay None cs = Some (open_id x))"
proof -
  obtain rs s t' where l: "run_event_loop (real_adaptor oc W vehicle_id zone_id) evs t = (rs, s, t')"
    by (metis prod_cases3)
  have "real_parking.run_effect oc W vehicle_id zone_id None t s t'"
    by (rule real_parking.loop_effect) (use l in \<open>simp_all add: run_event_loop_def session_new_def\<close>)
  then show ?thesis using l by (auto simp: real_parking.run_effect_def cong: option.case_cong)
qed

lemma replay_last: "replay open cs = Some now \<Longrightarrow> cs \<noteq> [] \<Longrightarrow> kind_of (last cs) \<longleftrightarrow> now \<noteq> None"
proof (induction "open" cs arbitrary: now rule: replay.induct)
  case (2 o1 i cs)
  then show ?case by (cases cs) (auto split: if_splits)
next
  case (3 o1 i cs)
  then show ?case by (cases cs) (auto split: if_splits)
qed simp

lemma active_open: "valid_session s \<Longrightarrow> is_active s \<longleftrightarrow> open_id s \<noteq> None"
  by (cases s) simp_all

text \<open>
  C23: As long as DATA_BROKER takes the writes of the session signal, the value it holds when the
  adaptor ends, after every sequence of events, says whether a session is active.
\<close>
theorem session_signal_agrees:
  assumes "\<And>u b. is_ok (w_publish_value W u (publish_request SIGNAL_SESSION_ACTIVE (TBool b)))"
    and "run_pa oc W evs t = (RunOk, replies, Some s, t')"
  shows "session_values (accepted_bools t') \<noteq> [] \<and> last (session_values (accepted_bools t')) = is_active s"
proof -
  obtain config where c: "load_config_pa W = Inr config"
    using assms(2) by (cases "load_config_pa W") (auto simp: run_pa_def)
  obtain u t1 where t1: "connect_pa W (pc_data_broker_addr config) t = (u, t1)" by fastforce
  obtain v t2 where t2: "publish_bool W SIGNAL_SESSION_ACTIVE False t1 = (v, t2)" by fastforce
  obtain x t3 where t3: "subscribe_bool W SIGNAL_IS_LOCKED_pa t2 = (x, t3)" by fastforce
  define oc' where "oc' = oc\<lparr>oc_base_url := pc_parking_operator_url config\<rparr>"
  define vid zid where "vid = pc_vehicle_id config" and "zid = pc_zone_id config"
  obtain rs s' t4 where loop: "run_event_loop (real_adaptor oc' W vid zid) evs t3 = (rs, s', t4)"
    by (metis prod_cases3)
  have u: "\<exists>y. u = Inr y" "\<exists>y. x = Inr y"
    using assms(2) c t1 t2 t3 by (auto simp: run_pa_def split: sum.splits)
  then have s: "s' = Some s" "t' = t4"
    using assms(2) c t1 t2 t3 loop by (auto simp: run_pa_def oc'_def vid_def zid_def)
  have "is_ok (w_publish_value W t1 (publish_request SIGNAL_SESSION_ACTIVE (TBool False)))" by (rule assms(1))
  then have v2: "session_values (accepted_bools t2) = session_values (accepted_bools t1) @ [False]"
    using t2 by (auto simp: publish_bool_def io_simps Let_def)
  have v3: "accepted_bools t3 = accepted_bools t2"
    using t3 by (auto simp: subscribe_bool_def io_simps Let_def)
  have w: "real_parking.writes_ok oc' W vid zid"
    unfolding real_parking.writes_ok_def using assms(1)
    by (simp add: real_adaptor_def broker_set_bool_def publish_bool_def io_simps Let_def split: prod.splits)
  have "real_parking.run_effect oc' W vid zid None t3 (Some s) t4"
    by (rule real_parking.loop_effect) (use loop s in \<open>simp_all add: run_event_loop_def session_new_def\<close>)
  then obtain cs where cs: "session_values (accepted_bools t4) = session_values (accepted_bools t3) @ map kind_of cs"
    "valid_session s" "replay None cs = Some (open_id s)"
    using w by (auto simp: real_parking.run_effect_def)
  show ?thesis
    using cs v2 v3 s replay_last [OF cs(3)] active_open [OF cs(2)]
    by (cases "cs = []") (auto simp: last_map)
qed

definition demo_operator :: operator_client where
  "demo_operator =
     \<lparr>oc_base_url = [],
      oc_de_start = (\<lambda>_. Inr \<lparr>sr_session_id = ''s1'', sr_status = ''active'',
        sr_rate = \<lparr>rp_rate_type = ''flat_fee'', rp_amount = f64_one, rp_currency = ''EUR''\<rparr>\<rparr>),
      oc_de_stop = (\<lambda>_. Inl \<lparr>se_category = CatData, se_text = ''missing field''\<rparr>)\<rparr>"

lemma session_signal_agrees_witness:
  "last (session_values (accepted_bools (snd (snd (snd (run_pa demo_operator calm_world [LockChanged True] [])))))) = True"
proof -
  have "case run_pa demo_operator calm_world [LockChanged True] [] of (end, replies, s, t') \<Rightarrow>
      end = RunOk \<and> map_option is_active s = Some True"
    by (simp add: run_pa_def load_config_pa_def connect_pa_def connect_attempt_pa_def CONNECT_MAX_ATTEMPTS_def
        upt_rec io_simps Let_def calm_world_def publish_bool_def subscribe_bool_def run_event_loop_def
        session_new_def process_lock_event_def real_adaptor_def oc_start_session_def post_with_retry_def
        post_attempt_def MAX_RETRIES_def response_json_as_def demo_operator_def broker_set_bool_def
        session_start_def)
  then obtain replies s t' where r: "run_pa demo_operator calm_world [LockChanged True] [] = (RunOk, replies, Some s, t')"
    "is_active s"
    by (cases "run_pa demo_operator calm_world [LockChanged True] []") auto
  have "is_ok (w_publish_value calm_world u (publish_request SIGNAL_SESSION_ACTIVE (TBool b)))" for u b
    by (simp add: calm_world_def)
  from session_signal_agrees [OF this r(1)] r show ?thesis by simp
qed

section \<open>Lock events with an operator that answers\<close>

definition operator_confirms :: "'w adaptor \<Rightarrow> bool" where
  "operator_confirms A =
     ((\<forall>v z w. \<exists>r. fst (op_start_session (pa_operator A) v z w) = Some (Inr r)) \<and>
      (\<forall>i w. \<exists>r. fst (op_stop_session (pa_operator A) i w) = Some (Inr r)))"

lemma lock_event_follows:
  assumes "operator_confirms A"
  shows "\<exists>s' w'. process_lock_event A zone b s w = (Some s', w') \<and> is_active s' = b"
proof (cases "is_active s = b")
  case True
  then show ?thesis by (cases s) (auto simp: process_lock_event_def)
next
  case False
  show ?thesis
  proof (cases b)
    case True
    obtain r w1 where "op_start_session (pa_operator A) (pa_vehicle_id A) zone w = (Some (Inr r), w1)"
      using assms unfolding operator_confirms_def by (metis prod.collapse)
    with True False show ?thesis
      by (auto simp: process_lock_event_def session_start_def Let_def split: prod.splits)
  next
    case b: False
    with False obtain x where x: "s = Some x" "ss_active x" by (cases s) auto
    obtain r w1 where "op_stop_session (pa_operator A) (ss_session_id x) w = (Some (Inr r), w1)"
      using assms unfolding operator_confirms_def by (metis prod.collapse)
    with x b show ?thesis
      by (auto simp: process_lock_event_def session_status_def session_stop_def split: prod.splits)
  qed
qed

section \<open>The RPCs and the configuration\<close>

text \<open>
  C30: Every port number from 0 to 65535 that is printed into GRPC_PORT is the port the adaptor
  uses, the port is 50053 when the variable is not set, and a configuration that is accepted
  never has a port outside this range.
\<close>
theorem grpc_port_roundtrip:
  assumes "w_env W ''GRPC_PORT'' = Some (show_nat p)" and "p < 2 ^ 16"
    and "w_env W' ''GRPC_PORT'' = None"
  shows "map_sum id pc_grpc_port (load_config_pa W) = Inr p \<and>
     map_sum id pc_grpc_port (load_config_pa W') = Inr 50053 \<and>
     (case load_config_pa V of Inl _ \<Rightarrow> True | Inr config \<Rightarrow> pc_grpc_port config < 2 ^ 16)"
proof -
  have "pc_grpc_port config < 2 ^ 16" if "load_config_pa V = Inr config" for config
    using that parse_unsigned_bound [of 16]
    by (auto simp: load_config_pa_def map_err_def split: option.splits sum.splits)
  then show ?thesis
    using assms parse_unsigned_show [of p 16] by (auto simp: load_config_pa_def split: sum.split)
qed

lemma grpc_port_roundtrip_witness:
  "map_sum id pc_grpc_port (load_config_pa (calm_world\<lparr>w_env := (\<lambda>_. Some (show_nat 8443))\<rparr>)) = Inr 8443"
  using grpc_port_roundtrip [of "calm_world\<lparr>w_env := (\<lambda>_. Some (show_nat 8443))\<rparr>" 8443 calm_world]
  by (simp add: calm_world_def)

end
