(* ===== verification/Mock_Sensors.thy ===== *)
theory Mock_Sensors
  imports World
begin

text \<open>
  rhivos/mock-sensors/src: the publication of one datapoint and the three sensors of src/bin,
  which set the door, the speed and the location in DATA_BROKER. The command lines are parsed by
  clap: a sensor gets the parsed arguments, \<open>None\<close> when they were refused, and the result is its
  exit code.
\<close>

datatype datapoint_value = Double f64 | Float f32 | Bool bool

definition publish_datapoint :: "world \<Rightarrow> string \<Rightarrow> string \<Rightarrow> datapoint_value \<Rightarrow> trace \<Rightarrow> (string + unit) \<times> trace" where
  "publish_datapoint W broker_addr path value t =
     (case ask_connect W broker_addr t of
        (Inl e, t1) \<Rightarrow> (Inl e, t1)
      | (Inr client, t1) \<Rightarrow>
          (let typed_value = (case value of Double v \<Rightarrow> TDouble v | Float v \<Rightarrow> TFloat v | Bool v \<Rightarrow> TBool v)
           in ask_publish_value W (publish_request path typed_value) t1))"

record door_args =
  da_open :: bool
  da_closed :: bool
  da_broker_addr :: string

definition door_sensor :: "world \<Rightarrow> door_args option \<Rightarrow> trace \<Rightarrow> nat \<times> trace" where
  "door_sensor W parsed t =
     (case parsed of
        None \<Rightarrow> (1, t)
      | Some args \<Rightarrow>
          (let is_open = da_open args in
           case publish_datapoint W (da_broker_addr args) ''Vehicle.Cabin.Door.Row1.DriverSide.IsOpen'' (Bool is_open) t of
             (Inl e, t') \<Rightarrow> (1, t')
           | (Inr _, t') \<Rightarrow> (0, t')))"

record speed_args =
  sa_speed :: f32
  sa_broker_addr :: string

definition speed_sensor :: "world \<Rightarrow> speed_args option \<Rightarrow> trace \<Rightarrow> nat \<times> trace" where
  "speed_sensor W parsed t =
     (case parsed of
        None \<Rightarrow> (1, t)
      | Some args \<Rightarrow>
          (case publish_datapoint W (sa_broker_addr args) ''Vehicle.Speed'' (Float (sa_speed args)) t of
             (Inl e, t') \<Rightarrow> (1, t')
           | (Inr _, t') \<Rightarrow> (0, t')))"

record location_args =
  la_lat :: f64
  la_lon :: f64
  la_broker_addr :: string

definition location_sensor :: "world \<Rightarrow> location_args option \<Rightarrow> trace \<Rightarrow> nat \<times> trace" where
  "location_sensor W parsed t =
     (case parsed of
        None \<Rightarrow> (1, t)
      | Some args \<Rightarrow>
          (case publish_datapoint W (la_broker_addr args) ''Vehicle.CurrentLocation.Latitude'' (Double (la_lat args)) t of
             (Inl e, t1) \<Rightarrow> (1, t1)
           | (Inr _, t1) \<Rightarrow>
               (case publish_datapoint W (la_broker_addr args) ''Vehicle.CurrentLocation.Longitude'' (Double (la_lon args)) t1 of
                  (Inl e, t2) \<Rightarrow> (1, t2)
                | (Inr _, t2) \<Rightarrow> (0, t2))))"

text \<open>The binary \<open>mock-sensors\<close> takes no arguments.\<close>

definition mock_sensors_main :: "string list \<Rightarrow> nat" where
  "mock_sensors_main args = (if length args > 1 then 1 else 0)"

section \<open>What the sensors publish\<close>

lemma publish_datapoint_values:
  "publish_datapoint W a p v t = (r, t') \<Longrightarrow>
     accepted_values t' = accepted_values t @
       (if is_ok r then [(p, case v of Double x \<Rightarrow> TDouble x | Float x \<Rightarrow> TFloat x | Bool x \<Rightarrow> TBool x)] else [])"
  by (cases r; cases "w_connect W t a") (auto simp: publish_datapoint_def io_simps Let_def)

text \<open>
  C29: The exit code of a sensor tells what DATA_BROKER took: 0 exactly when all its values were
  accepted, each once and in order, and a sensor never publishes anything else; the longitude is
  sent only after the latitude was taken.
\<close>
theorem sensors_exit_codes:
  "(case speed_sensor W (Some sa) t of (code, t') \<Rightarrow>
      accepted_values t' = accepted_values t @ (if code = 0 then [(''Vehicle.Speed'', TFloat (sa_speed sa))] else [])) \<and>
   (case door_sensor W (Some da) t of (code, t') \<Rightarrow>
      accepted_values t' = accepted_values t @
        (if code = 0 then [(''Vehicle.Cabin.Door.Row1.DriverSide.IsOpen'', TBool (da_open da))] else [])) \<and>
   (case location_sensor W (Some la) t of (code, t') \<Rightarrow>
      \<exists>n. n \<le> 2 \<and> (code = 0) = (n = 2) \<and>
        accepted_values t' = accepted_values t @
          take n [(''Vehicle.CurrentLocation.Latitude'', TDouble (la_lat la)),
                  (''Vehicle.CurrentLocation.Longitude'', TDouble (la_lon la))])"
proof (intro conjI)
  show "case speed_sensor W (Some sa) t of (code, t') \<Rightarrow>
      accepted_values t' = accepted_values t @ (if code = 0 then [(''Vehicle.Speed'', TFloat (sa_speed sa))] else [])"
    by (auto simp: speed_sensor_def split: sum.splits prod.splits dest!: publish_datapoint_values)
  show "case door_sensor W (Some da) t of (code, t') \<Rightarrow>
      accepted_values t' = accepted_values t @
        (if code = 0 then [(''Vehicle.Cabin.Door.Row1.DriverSide.IsOpen'', TBool (da_open da))] else [])"
    by (auto simp: door_sensor_def Let_def split: sum.splits prod.splits dest!: publish_datapoint_values)
  show "case location_sensor W (Some la) t of (code, t') \<Rightarrow>
      \<exists>n. n \<le> 2 \<and> (code = 0) = (n = 2) \<and>
        accepted_values t' = accepted_values t @
          take n [(''Vehicle.CurrentLocation.Latitude'', TDouble (la_lat la)),
                  (''Vehicle.CurrentLocation.Longitude'', TDouble (la_lon la))]"
    by (auto simp: location_sensor_def split: sum.splits prod.splits dest!: publish_datapoint_values
        intro: exI [of _ 0] exI [of _ 1] exI [of _ 2])
qed

end
