(* ===== verification/System.thy ===== *)
theory System
  imports Lock_Properties Gateway_Properties Update_Grpc Parking_Properties Mock_Sensors "HOL-Library.Sublist"
begin

text \<open>
  The services together: DATA_BROKER carries what one of them writes to the ones that subscribe.
  DATA_BROKER is not code of the repository, and what it does is a hypothesis: \<open>honest\<close>, that it
  answers a read with the last value that it accepted; \<open>delivers\<close>, that the values of a signal on a
  subscription are values that it accepted, in their order. Values may be missing: the services
  subscribe with a buffer of size 0, where a slow subscriber misses values, and a new subscription
  starts with the current value.
\<close>

section \<open>What DATA_BROKER carries\<close>

text \<open>The values accepted for a signal, and the values that the items of a subscription carry.\<close>

definition values_on :: "string \<Rightarrow> trace \<Rightarrow> tvalue list" where
  "values_on sig t = map snd (filter (\<lambda>x. fst x = sig) (accepted_values t))"

fun item_values :: "string \<Rightarrow> string + entries \<Rightarrow> tvalue list" where
  "item_values sig (Inl e) = []"
| "item_values sig (Inr es) =
     (case map_of es sig of
        Some dp \<Rightarrow> (case dp_value dp of Some (Some v) \<Rightarrow> [v] | _ \<Rightarrow> [])
      | None \<Rightarrow> [])"

definition carried :: "string \<Rightarrow> (string + entries) list \<Rightarrow> tvalue list" where
  "carried sig items = concat (map (item_values sig) items)"

definition delivers :: "string \<Rightarrow> trace \<Rightarrow> (string + entries) list \<Rightarrow> bool" where
  "delivers sig t items = subseq (carried sig items) (values_on sig t)"

text \<open>A subscription that has missed nothing and has not failed.\<close>

definition delivers_all :: "string \<Rightarrow> trace \<Rightarrow> (string + entries) list \<Rightarrow> bool" where
  "delivers_all sig t items = (carried sig items = values_on sig t \<and> list_all is_ok items)"

text \<open>DATA_BROKER has accepted every write of a run.\<close>

definition all_taken :: "trace \<Rightarrow> bool" where
  "all_taken t = list_all (\<lambda>ev. case ev of EvPublishValue q r \<Rightarrow> is_ok r | _ \<Rightarrow> True) t"

lemma subseq_concat_map: "subseq xs ys \<Longrightarrow> subseq (concat (map f xs)) (concat (map f ys))"
proof (induction rule: list_emb.induct)
  case (list_emb_Cons xs ys y)
  then show ?case by (simp add: list_emb_append2)
next
  case (list_emb_Cons2 x y xs ys)
  then show ?case by (simp add: list_emb_append_mono)
qed simp

lemma subseq_of_map: "subseq qs (map f ms) \<Longrightarrow> \<exists>ms'. subseq ms' ms \<and> qs = map f ms'"
proof (induction ms arbitrary: qs)
  case (Cons m ms)
  show ?case
  proof (cases "qs \<noteq> [] \<and> hd qs = f m")
    case True
    then obtain q where q: "qs = f m # q" by (cases qs) auto
    then have "subseq q (map f ms)" using Cons.prems by simp
    from Cons.IH [OF this] q show ?thesis by (metis list.simps(9) subseq_Cons2)
  next
    case False
    then have "subseq qs (map f ms)" using Cons.prems by (cases qs) auto
    from Cons.IH [OF this] show ?thesis by (metis list_emb_Cons)
  qed
qed auto

lemma subseq_set: "subseq xs ys \<Longrightarrow> set xs \<subseteq> set ys"
  by (induction rule: list_emb.induct) auto

lemma list_all2_subseq:
  "list_all2 P xs ys \<Longrightarrow> subseq zs ys \<Longrightarrow> \<exists>ws. subseq ws xs \<and> list_all2 P ws zs"
proof (induction xs ys arbitrary: zs rule: list_all2_induct)
  case (Cons x xs y ys)
  show ?case
  proof (cases "zs \<noteq> [] \<and> hd zs = y")
    case True
    then obtain z where z: "zs = y # z" by (cases zs) auto
    then have "subseq z ys" using Cons.prems by simp
    from Cons.IH [OF this] z show ?thesis by (metis Cons.hyps(1) list_all2_Cons subseq_Cons2)
  next
    case False
    then have "subseq zs ys" using Cons.prems by (cases zs) auto
    from Cons.IH [OF this] show ?thesis by (metis list_emb_Cons)
  qed
qed auto

fun text_of :: "tvalue \<Rightarrow> string list" where
  "text_of (TString s) = [s]"
| "text_of _ = []"

definition texts_on :: "string \<Rightarrow> trace \<Rightarrow> string list" where
  "texts_on sig t = map snd (filter (\<lambda>x. fst x = sig) (accepted_strings t))"

lemma texts_on_values: "texts_on sig t = concat (map text_of (values_on sig t))"
proof -
  have "map snd (filter (\<lambda>x. fst x = sig) (concat (map string_entry vs))) =
      concat (map text_of (map snd (filter (\<lambda>x. fst x = sig) vs)))" for vs
  proof (induction vs)
    case (Cons x vs)
    obtain p v where "x = (p, v)" by fastforce
    then show ?case using Cons by (cases v) simp_all
  qed simp
  then show ?thesis by (simp add: texts_on_def values_on_def accepted_strings_def)
qed

lemma accepted_of_attempted:
  "subseq (accepted_strings t) (attempted_strings t)"
  "all_taken t \<Longrightarrow> accepted_strings t = attempted_strings t"
proof -
  have cons: "accepted_strings (ev # t) = concat (map string_entry (accepted_value ev)) @ accepted_strings t" for ev t
    by (simp add: accepted_strings_def accepted_values_def)
  have ev: "concat (map string_entry (accepted_value ev)) = (if all_taken [ev] then attempted_string ev else [])" for ev
  proof (cases ev)
    case (EvPublishValue q r)
    show ?thesis
    proof (cases r)
      case (Inl e)
      then have "accepted_value ev = []" using EvPublishValue by (simp add: accepted_value_def)
      then show ?thesis using Inl EvPublishValue by (simp add: all_taken_def)
    next
      case (Inr u)
      then have "ev = EvPublishValue q (Inr ())" using EvPublishValue by simp
      then show ?thesis by (simp add: all_taken_def attempted_string_def)
    qed
  qed (simp_all add: all_taken_def attempted_string_def accepted_value_def)
  note step = cons [unfolded ev]
  show "subseq (accepted_strings t) (attempted_strings t)"
  proof (induction t)
    case (Cons ev t)
    then show ?case by (simp add: step attempted_strings_def list_emb_append_mono list_emb_append2)
  qed simp
  show "all_taken t \<Longrightarrow> accepted_strings t = attempted_strings t"
  proof (induction t)
    case (Cons ev t)
    then show ?case by (simp add: step attempted_strings_def all_taken_def)
  qed simp
qed

lemma forward_strings_carried:
  "subseq (forward_strings sig stream) (concat (map text_of (carried sig (map fst stream))))"
  "list_all (is_ok \<circ> fst) stream \<Longrightarrow> list_all snd stream \<Longrightarrow>
     forward_strings sig stream = concat (map text_of (carried sig (map fst stream)))"
proof -
  have one: "forward_strings sig ((Inr es, alive) # items) =
      (case concat (map text_of (item_values sig (Inr es))) of
         [] \<Rightarrow> forward_strings sig items | s # _ \<Rightarrow> if alive then s # forward_strings sig items else [])" for es alive items
  proof -
    consider "map_of es sig = None" | dp where "map_of es sig = Some dp" "\<nexists>v. dp_value dp = Some (Some v)"
      | dp v where "map_of es sig = Some dp" "dp_value dp = Some (Some v)" by blast
    then show ?thesis
    proof cases
      case 2
      then have "dp_value dp = None \<or> dp_value dp = Some None" by (metis not_None_eq)
      with 2 show ?thesis by auto
    next
      case 3
      then show ?thesis by (cases v) simp_all
    qed simp
  qed
  have short: "\<exists>m. concat (map text_of (item_values sig (Inr es))) = (case m of None \<Rightarrow> [] | Some s \<Rightarrow> [s])" for es
  proof -
    have "item_values sig (Inr es) = [] \<or> (\<exists>v. item_values sig (Inr es) = [v])" by (simp split: option.split)
    moreover have "text_of v = [] \<or> (\<exists>s. text_of v = [s])" for v by (cases v) simp_all
    ultimately have "concat (map text_of (item_values sig (Inr es))) = [] \<or>
        (\<exists>s. concat (map text_of (item_values sig (Inr es))) = [s])" by fastforce
    then show ?thesis by (metis option.simps(4,5))
  qed
  have cons: "concat (map text_of (carried sig (map fst ((r, alive) # items)))) =
      concat (map text_of (item_values sig r)) @ concat (map text_of (carried sig (map fst items)))" for r alive items
    by (simp add: carried_def)
  show "subseq (forward_strings sig stream) (concat (map text_of (carried sig (map fst stream))))"
  proof (induction stream)
    case (Cons x items)
    obtain r alive where x: "x = (r, alive)" by fastforce
    show ?case
    proof (cases r)
      case (Inr es)
      obtain m where m: "concat (map text_of (item_values sig (Inr es))) = (case m of None \<Rightarrow> [] | Some s \<Rightarrow> [s])"
        using short [of es] by blast
      show ?thesis using Cons unfolding x Inr one cons m by (cases m) simp_all
    qed (simp add: x)
  qed simp
  show "list_all (is_ok \<circ> fst) stream \<Longrightarrow> list_all snd stream \<Longrightarrow>
     forward_strings sig stream = concat (map text_of (carried sig (map fst stream)))"
  proof (induction stream)
    case (Cons x items)
    obtain r alive where x: "x = (r, alive)" by fastforce
    show ?case
    proof (cases r)
      case (Inr es)
      obtain m where m: "concat (map text_of (item_values sig (Inr es))) = (case m of None \<Rightarrow> [] | Some s \<Rightarrow> [s])"
        using short [of es] by blast
      show ?thesis using Cons unfolding x Inr one cons m by (cases m) simp_all
    qed (use Cons.prems x in simp)
  qed (simp add: carried_def)
qed

lemma forward_strings_delivered:
  assumes "delivers sig t (map fst stream)"
  shows "subseq (forward_strings sig stream) (texts_on sig t)"
  unfolding texts_on_values
  by (rule subseq_order.trans [OF forward_strings_carried(1) subseq_concat_map])
    (use assms in \<open>simp add: delivers_def\<close>)

lemma forward_strings_delivered_all:
  "delivers_all sig t (map fst stream) \<Longrightarrow> list_all snd stream \<Longrightarrow> forward_strings sig stream = texts_on sig t"
  by (simp add: texts_on_values delivers_all_def forward_strings_carried(2) list.pred_map)

definition honest :: "world \<Rightarrow> bool" where
  "honest W =
     (\<forall>t p. w_get_value W t \<lparr>gv_signal_id = path_id p\<rparr> =
        Inr (map_option plain_datapoint (map_of (rev (accepted_values t)) p)))"

lemma plain_value [simp]: "dp_value (plain_datapoint v) = Some (Some v)"
  by (simp add: plain_datapoint_def)

section \<open>Sensors and the lock\<close>

lemma honest_float:
  "honest W \<Longrightarrow> map_of (rev (accepted_values t)) p = Some (TFloat x) \<Longrightarrow>
     fst (grpc_get_float W p t) = Inr (Some x)"
  by (simp add: honest_def grpc_get_float_def ask_get_value_def Let_def)

lemma honest_bool:
  "honest W \<Longrightarrow> map_of (rev (accepted_values t)) p = Some (TBool b) \<Longrightarrow>
     fst (grpc_get_bool W p t) = Inr (Some b)"
  by (simp add: honest_def grpc_get_bool_def ask_get_value_def Let_def)

lemma get_float_values: "accepted_values (snd (grpc_get_float W p t)) = accepted_values t"
  by (auto simp: grpc_get_float_def ask_get_value_def Let_def split: sum.splits option.splits)

lemma speed_reported:
  "speed_sensor W (Some sa) t = (0, t1) \<Longrightarrow> map_of (rev (accepted_values t1)) SIGNAL_SPEED = Some (TFloat (sa_speed sa))"
  by (auto simp: speed_sensor_def SIGNAL_SPEED_def split: sum.splits prod.splits dest!: publish_datapoint_values)

lemma door_reported:
  "door_sensor W (Some da) t = (0, t1) \<Longrightarrow> map_of (rev (accepted_values t1)) SIGNAL_DOOR_OPEN = Some (TBool (da_open da))"
  by (auto simp: door_sensor_def SIGNAL_DOOR_OPEN_def Let_def split: sum.splits prod.splits dest!: publish_datapoint_values)

lemma reported_unsafe:
  assumes "honest W"
    and "speed_sensor W (Some sa) t = (0, t1) \<and> f32_ge (sa_speed sa) f32_one \<or>
         door_sensor W (Some da) t = (0, t1) \<and> da_open da"
  shows "fst (check_safety (grpc_client W) t1) \<noteq> Safe"
proof -
  have "speed_reading (fst (grpc_get_float W SIGNAL_SPEED t1)) = sa_speed sa"
    if "speed_sensor W (Some sa) t = (0, t1)"
    using honest_float [OF assms(1) speed_reported [OF that]] by (simp add: speed_reading_def)
  moreover have "door_reading (fst (grpc_get_bool W SIGNAL_DOOR_OPEN (snd (grpc_get_float W SIGNAL_SPEED t1)))) = da_open da"
    if "door_sensor W (Some da) t = (0, t1)"
    using honest_bool [OF assms(1)] door_reported [OF that] by (simp add: get_float_values door_reading_def)
  ultimately show ?thesis using assms(2) by (auto simp: check_safety_Safe grpc_ops)
qed

text \<open>
  C1: With a DATA_BROKER that answers reads with the last value it accepted, a lock command is
  refused right after the speed sensor has reported 1.0 or more, or the door sensor an open door:
  the lock state and the lock signal stay as they were, and the response names the reason.
\<close>
theorem sensors_gate_the_lock:
  assumes "honest W" and "lc_action cmd = Lock"
    and "speed_sensor W (Some sa) t = (0, t1) \<and> f32_ge (sa_speed sa) f32_one \<or>
         door_sensor W (Some da) t = (0, t1) \<and> da_open da"
  shows "case process_command ser (w_clock W) (grpc_client W) cmd l t1 of
     (resp, l', t') \<Rightarrow>
       l' = l \<and> accepted_bools t' = accepted_bools t1 \<and>
       (\<exists>u. \<exists>why \<in> {''vehicle_moving'', ''door_open''}.
          resp = failure_response ser (w_clock W u) (lc_command_id cmd) why)"
proof -
  obtain resp l' t' where p: "process_command ser (w_clock W) (grpc_client W) cmd l t1 = (resp, l', t')"
    by (metis prod_cases3)
  define r where "r = fst (check_safety (grpc_client W) t1)"
  have "r \<noteq> Safe" unfolding r_def by (rule reported_unsafe [OF assms(1,3)])
  then have "l' = l" "\<exists>u. \<exists>why \<in> {''vehicle_moving'', ''door_open''}.
      resp = failure_response ser (w_clock W u) (lc_command_id cmd) why"
    by (rule_tac [1-2] grpc.process_refines [OF p])
      (cases r; auto simp: assms(2) r_def [symmetric] spec_response_def)+
  moreover have "accepted_bools t' = accepted_bools t1"
    using grpc.process_writes [OF p] \<open>l' = l\<close> by auto
  ultimately show ?thesis using p by auto
qed

definition honest_world :: world where
  "honest_world = calm_world\<lparr>w_get_value := (\<lambda>t q.
     Inr (case gv_signal_id q of
            Some (Some (SigPath p)) \<Rightarrow> map_option plain_datapoint (map_of (rev (accepted_values t)) p)
          | _ \<Rightarrow> None))\<rparr>"

lemma sensors_gate_the_lock_witness:
  "\<exists>t1. speed_sensor honest_world (Some \<lparr>sa_speed = f32_one, sa_broker_addr = []\<rparr>) [] = (0, t1) \<and>
     fst (snd (process_command (\<lambda>_. ''r'') (w_clock honest_world) (grpc_client honest_world) (lock_cmd Lock) False t1)) = False"
proof -
  let ?sa = "\<lparr>sa_speed = f32_one, sa_broker_addr = []\<rparr>"
  have h: "honest honest_world" by (simp add: honest_def honest_world_def path_id_def)
  obtain t1 where t1: "speed_sensor honest_world (Some ?sa) [] = (0, t1)"
    by (simp add: speed_sensor_def publish_datapoint_def io_simps Let_def honest_world_def calm_world_def)
  moreover have "f32_ge (sa_speed ?sa) f32_one" by (simp add: f32_ge_def f32_one_def f32_is_nan_def)
  ultimately show ?thesis
    using sensors_gate_the_lock [OF h _ disjI1 [OF conjI], where cmd = "lock_cmd Lock" and ser = "\<lambda>_. ''r''" and l = False]
    by (fastforce simp: lock_cmd_def)
qed

section \<open>From the cloud to the lock\<close>

lemma gateway_texts:
  assumes "list_all headers_ok (command_msgs items)"
  shows "subseq (texts_on SIGNAL_COMMAND (gw_trace (gateway_tasks cd W cfg items [])))
       (map nm_payload (filter (forwardable cd (gc_bearer_token cfg)) (command_msgs items)))"
    and "all_taken (gw_trace (gateway_tasks cd W cfg items [])) \<Longrightarrow>
       texts_on SIGNAL_COMMAND (gw_trace (gateway_tasks cd W cfg items [])) =
       map nm_payload (filter (forwardable cd (gc_bearer_token cfg)) (command_msgs items))"
proof -
  let ?ms = "filter (forwardable cd (gc_bearer_token cfg)) (command_msgs items)"
  have "attempted_strings (gw_trace (gateway_tasks cd W cfg items [])) = map (\<lambda>m. (SIGNAL_COMMAND, nm_payload m)) ?ms"
    by (simp add: gateway_tasks_def commands.fold_log command_out_msgs [OF assms] SIGNAL_COMMAND_gw_def SIGNAL_COMMAND_def)
  then have a: "map snd (filter (\<lambda>x. fst x = SIGNAL_COMMAND) (attempted_strings (gw_trace (gateway_tasks cd W cfg items [])))) =
      map nm_payload ?ms" by (simp add: filter_map comp_def)
  show "subseq (texts_on SIGNAL_COMMAND (gw_trace (gateway_tasks cd W cfg items []))) (map nm_payload ?ms)"
    unfolding texts_on_def a [symmetric] by (intro subseq_map subseq_filter accepted_of_attempted)
  show "all_taken (gw_trace (gateway_tasks cd W cfg items [])) \<Longrightarrow>
      texts_on SIGNAL_COMMAND (gw_trace (gateway_tasks cd W cfg items [])) = map nm_payload ?ms"
    by (simp add: texts_on_def accepted_of_attempted(2) a)
qed

text \<open>The payloads that the polls of the service loop hand to it.\<close>

fun payloads :: "poll list \<Rightarrow> string list" where
  "payloads [] = []"
| "payloads (p # ps) = (case rx_ready p of Some (Payload x) \<Rightarrow> x # payloads ps | _ \<Rightarrow> payloads ps)"

text \<open>A text that the locking service reads as a valid command with the action.\<close>

definition asks_for :: "lock_codec \<Rightarrow> bool \<Rightarrow> string \<Rightarrow> bool" where
  "asks_for cd locked payload =
     (case parse_command (lk_de_cmd cd) payload of
        Inl e \<Rightarrow> False
      | Inr cmd \<Rightarrow> is_ok (validate_command cmd) \<and> lc_action cmd = (if locked then Lock else Unlock))"

lemma process_moves:
  assumes "process_command ser clk (grpc_client W) cmd l t = (resp, l', t')"
  shows "\<exists>bs. accepted_bools t' = accepted_bools t @ map (Pair SIGNAL_IS_LOCKED) bs \<and> (bs = [] \<or> bs = [l'] \<and> l' \<noteq> l)"
    and "l' \<noteq> l \<Longrightarrow> lc_action cmd = (if l' then Lock else Unlock)"
proof -
  obtain b where "accepted_bools t' = accepted_bools t @ b" "b = [] \<or> b = [(SIGNAL_IS_LOCKED, l')] \<and> l' \<noteq> l"
    using grpc.process_writes [OF assms] by auto
  then show "\<exists>bs. accepted_bools t' = accepted_bools t @ map (Pair SIGNAL_IS_LOCKED) bs \<and> (bs = [] \<or> bs = [l'] \<and> l' \<noteq> l)"
    by (intro exI [of _ "map snd b"]) auto
  show "l' \<noteq> l \<Longrightarrow> lc_action cmd = (if l' then Lock else Unlock)"
    using lock_state_after [of ser clk "grpc_client W" cmd l t] assms by (cases "lc_action cmd") auto
qed

lemma handle_moves:
  assumes "handle_command_payload cd W x l t = (st, l', t')"
  shows "\<exists>bs. accepted_bools t' = accepted_bools t @ map (Pair SIGNAL_IS_LOCKED) bs \<and>
     (bs = [] \<or> bs = [l'] \<and> asks_for cd l' x) \<and> (l' = l \<or> asks_for cd l' x)"
proof (cases "\<exists>cmd. parse_command (lk_de_cmd cd) x = Inr cmd \<and> is_ok (validate_command cmd)")
  case True
  then obtain cmd u where c: "parse_command (lk_de_cmd cd) x = Inr cmd" "validate_command cmd = Inr u" by (auto simp: is_ok_iff)
  obtain resp l1 t1 where p: "process_command (lk_ser cd) (w_clock W) (grpc_client W) cmd l t = (resp, l1, t1)"
    by (metis prod_cases3)
  from p have "l' = l1" "t' = t1" using assms c by (auto simp: handle_command_payload_def split: option.splits)
  moreover have "l1 \<noteq> l \<Longrightarrow> asks_for cd l1 x" using process_moves(2) [OF p] c by (simp add: asks_for_def)
  ultimately show ?thesis using process_moves(1) [OF p] by blast
next
  case False
  then have "l' = l" "accepted_bools t' = accepted_bools t"
    using assms set_string_bools
    by (auto simp: handle_command_payload_def split: sum.splits command_error.splits option.splits)
  then show ?thesis by (intro exI [of _ "[]"]) simp
qed

text \<open>Each value of the lock signal is the doing of a command, and so is a locked door.\<close>

lemma serve_moves:
  "serve_loop cd W ps l n t = (res, l', n', t') \<Longrightarrow>
     (\<exists>qs bs. subseq qs (payloads ps) \<and> accepted_bools t' = accepted_bools t @ map (Pair SIGNAL_IS_LOCKED) bs \<and>
        list_all2 (\<lambda>q b. asks_for cd b q) qs bs) \<and>
     (l' \<longrightarrow> l \<or> (\<exists>q \<in> set (payloads ps). asks_for cd True q))"
proof (induction cd W ps l n t rule: serve_loop.induct)
  case (2 cd W p ps l n t)
  consider x where "rx_ready p = Some (Payload x)" | "rx_ready p = Some StreamEnded" | "rx_ready p = None"
    by (metis not_None_eq recv.exhaust)
  then show ?case
  proof cases
    case 1
    obtain st l1 t1 where h: "handle_command_payload cd W x l t = (st, l1, t1)" by (metis prod_cases3)
    obtain bs where bs: "accepted_bools t1 = accepted_bools t @ map (Pair SIGNAL_IS_LOCKED) bs"
      "bs = [] \<or> bs = [l1] \<and> asks_for cd l1 x" "l1 = l \<or> asks_for cd l1 x"
      using handle_moves [OF h] by blast
    define q1 where "q1 = (if bs = [] then [] else [x])"
    have q1: "subseq q1 [x]" "list_all2 (\<lambda>q b. asks_for cd b q) q1 bs" using bs(2) by (auto simp: q1_def)
    show ?thesis
    proof (cases st)
      case None
      then have "l' = l1" "t' = t1" using 2(4) 1 h by simp_all
      then show ?thesis using 1 bs q1
        by (intro conjI exI [of _ q1] exI [of _ bs]) (auto intro: subseq_order.trans [of q1 "[x]"])
    next
      case (Some u)
      then have "serve_loop cd W ps l1 0 t1 = (res, l', n', t')" using 2(4) 1 h by simp
      from 2(2) [OF 1 refl h [symmetric] Some refl this]
      obtain qs cs where "subseq qs (payloads ps)" "accepted_bools t' = accepted_bools t1 @ map (Pair SIGNAL_IS_LOCKED) cs"
        "list_all2 (\<lambda>q b. asks_for cd b q) qs cs" "l' \<longrightarrow> l1 \<or> (\<exists>q \<in> set (payloads ps). asks_for cd True q)" by blast
      then show ?thesis using 1 bs q1 list_emb_append_mono [of "(=)" q1 "[x]" qs "payloads ps"]
        by (intro conjI exI [of _ "q1 @ qs"] exI [of _ "bs @ cs"]) (auto intro: list_all2_appendI)
    qed
  next
    case c2: 2
    obtain rs t1 where s: "subscribe W SIGNAL_COMMAND t = (rs, t1)" by fastforce
    then have a: "accepted_bools t1 = accepted_bools t" by (auto simp: subscribe_def ask_subscribe_def Let_def)
    show ?thesis
    proof (cases "n + 1 > max_resubscribe_attempts \<or> \<not> is_ok rs")
      case True
      then have "l' = l" "accepted_bools t' = accepted_bools t" using 2(4) c2 s a by (cases rs; auto split: if_splits)+
      then show ?thesis by auto
    next
      case False
      then have "serve_loop cd W ps l (n + 1) t1 = (res, l', n', t')" using 2(4) c2 s by (cases rs) auto
      then show ?thesis using 2(3) [OF c2 refl _ s [symmetric]] False c2 a by (cases rs) auto
    qed
  next
    case 3
    then show ?thesis using 2(1,4) by (cases "shutdown_ready p") auto
  qed
qed auto

lemma connect_bools: "accepted_bools (snd (connect W addr t)) = accepted_bools t"
proof -
  have body: "accepted_bools (snd (connect_body W addr i u)) = accepted_bools u" for i u
    by (simp add: connect_body_def io_simps Let_def split: sum.split)
  have "accepted_bools (snd (connect_loop W addr is e t)) = accepted_bools t" for "is" e
  proof (induction "is" arbitrary: e t)
    case (Cons i "is")
    show ?case using body [of i t] Cons
      by (cases "connect_body W addr i t"; cases "fst (connect_body W addr i t)") auto
  qed simp
  then show ?thesis by (simp add: connect_def case_prod_beta)
qed

lemma run_moves:
  assumes "run cd W polls [] = (res, l', t')"
  shows "\<exists>start qs moves. start \<in> {[], [False]} \<and> accepted_bools t' = map (Pair SIGNAL_IS_LOCKED) (start @ moves) \<and>
     subseq qs (payloads polls) \<and> list_all2 (\<lambda>q b. asks_for cd b q) qs moves \<and>
     (l' \<longrightarrow> (\<exists>q \<in> set (payloads polls). asks_for cd True q))"
proof -
  obtain r1 t1 where c: "connect W (get_databroker_addr W) [] = (r1, t1)" by fastforce
  have t1: "accepted_bools t1 = []" using connect_bools [of W "get_databroker_addr W" "[]"] c by simp
  obtain r2 t2 where b: "set_bool (grpc_client W) SIGNAL_IS_LOCKED False t1 = (r2, t2)" by fastforce
  then have t2: "accepted_bools t2 = map (Pair SIGNAL_IS_LOCKED) (if is_ok r2 then [False] else [])"
    using grpc.set_bool_log [OF b] t1 by simp
  obtain r3 t3 where s: "subscribe W SIGNAL_COMMAND t2 = (r3, t3)" by fastforce
  then have t3: "accepted_bools t3 = accepted_bools t2" by (auto simp: subscribe_def ask_subscribe_def Let_def)
  obtain r4 l4 n4 t4 where v: "serve_loop cd W polls False 0 t3 = (r4, l4, n4, t4)" by (metis prod_cases4)
  consider "\<not> is_ok r1" "t' = t1" "\<not> l'" | "is_ok r1" "\<not> (is_ok r2 \<and> is_ok r3)" "t' = t2 \<or> t' = t3" "\<not> l'"
    | "is_ok r2" "t' = t4" "l' = l4"
    using assms c b s v by (cases r1; cases r2; cases r3) (auto simp: run_def)
  then show ?thesis
  proof cases
    case 1
    then show ?thesis using t1 by (intro exI [of _ "[]"]) auto
  next
    case 2
    then show ?thesis using t2 t3
      by (intro exI [of _ "if is_ok r2 then [False] else []"] exI [of _ "[]"]) auto
  next
    case 3
    then show ?thesis using serve_moves [OF v] t2 t3
      by (intro exI [of _ "[False]"]) auto
  qed
qed

lemma split_by_stream:
  "list_all (\<lambda>s. subseq (f s) (map g ms)) ss \<Longrightarrow> subseq qs (concat (map f ss)) \<Longrightarrow>
     \<exists>mss. length mss = length ss \<and> list_all (\<lambda>m. subseq m ms) mss \<and> qs = map g (concat mss)"
proof (induction ss arbitrary: qs)
  case (Cons s ss)
  then obtain q r where q: "qs = q @ r" "subseq q (f s)" "subseq r (concat (map f ss))"
    by (auto elim: subseq_appendE)
  obtain m where m: "subseq m ms" "q = map g m"
    using subseq_of_map [OF subseq_order.trans [OF q(2)]] Cons.prems(1) by auto
  obtain mss where "length mss = length ss" "list_all (\<lambda>m. subseq m ms) mss" "r = map g (concat mss)"
    using Cons.IH [OF _ q(3)] Cons.prems(1) by auto
  then show ?case using m q(1) by (intro exI [of _ "m # mss"]) simp
qed simp

lemma commands_received:
  assumes "list_all headers_ok (command_msgs items)" and "T = gw_trace (gateway_tasks gw V cfg items [])"
    and "delivers SIGNAL_COMMAND T (map fst stream)"
  shows "subseq (forward_strings SIGNAL_COMMAND stream)
     (map nm_payload (filter (forwardable gw (gc_bearer_token cfg)) (command_msgs items)))"
  using subseq_order.trans [OF forward_strings_delivered [OF assms(3)]] gateway_texts(1) [OF assms(1), of gw V cfg] assms(2)
  by simp

lemma all_commands_received:
  assumes "list_all headers_ok (command_msgs items)" and "T = gw_trace (gateway_tasks gw V cfg items [])"
    and "delivers_all SIGNAL_COMMAND T (map fst stream)" and "list_all snd stream" and "all_taken T"
  shows "forward_strings SIGNAL_COMMAND stream =
     map nm_payload (filter (forwardable gw (gc_bearer_token cfg)) (command_msgs items))"
  using forward_strings_delivered_all [OF assms(3,4)] gateway_texts(2) [OF assms(1), of gw V cfg] assms(2,5)
  by simp

text \<open>
  C4: Only authentic commands from the cloud move the lock. Let the locking service get its commands
  from subscriptions that carry values which DATA_BROKER has accepted from the gateway, in order but
  possibly with gaps. Then, over every interleaving of the gateway's tasks and whatever DATA_BROKER
  answers to either service, each value that the locking service gets accepted for the lock signal
  after the initial one belongs to a message from the cloud that carries the right token, is a valid
  command and asks for just that value, each message serving one value per subscription and in their
  order; and if the door counts as locked at the end, one of those messages asked to lock it.
\<close>
theorem only_cloud_commands_move_the_lock:
  assumes "list_all headers_ok (command_msgs items)" and "T = gw_trace (gateway_tasks gw V cfg items [])"
    and "list_all (\<lambda>s. delivers SIGNAL_COMMAND T (map fst s)) streams"
    and "payloads polls = concat (map (forward_strings SIGNAL_COMMAND) streams)"
    and "ms = filter (forwardable gw (gc_bearer_token cfg)) (command_msgs items)"
  shows "case run cd W polls [] of
     (res, locked, t') \<Rightarrow>
       \<exists>start mss moves. start \<in> {[], [False]} \<and> accepted_bools t' = map (Pair SIGNAL_IS_LOCKED) (start @ moves) \<and>
         length mss = length streams \<and> list_all (\<lambda>xs. subseq xs ms) mss \<and>
         list_all2 (\<lambda>m b. asks_for cd b (nm_payload m)) (concat mss) moves \<and>
         (locked \<longrightarrow> (\<exists>m \<in> set ms. asks_for cd True (nm_payload m)))"
proof -
  obtain res locked t' where r: "run cd W polls [] = (res, locked, t')" by (metis prod_cases3)
  obtain start qs moves where q: "start \<in> {[], [False]}" "accepted_bools t' = map (Pair SIGNAL_IS_LOCKED) (start @ moves)"
    "subseq qs (payloads polls)" "list_all2 (\<lambda>q b. asks_for cd b q) qs moves"
    "locked \<longrightarrow> (\<exists>q \<in> set (payloads polls). asks_for cd True q)"
    using run_moves [OF r] by blast
  have s: "list_all (\<lambda>s. subseq (forward_strings SIGNAL_COMMAND s) (map nm_payload ms)) streams"
    using assms(3) commands_received [OF assms(1,2)] by (simp add: assms(5) list_all_iff)
  obtain mss where m: "length mss = length streams" "list_all (\<lambda>xs. subseq xs ms) mss" "qs = map nm_payload (concat mss)"
    using split_by_stream [OF s] q(3) assms(4) by metis
  obtain rs where "list_all (\<lambda>xs. subseq xs ms) rs" "payloads polls = map nm_payload (concat rs)"
    using split_by_stream [OF s subseq_order.refl] assms(4) by metis
  then have "\<forall>q \<in> set (payloads polls). \<exists>m \<in> set ms. q = nm_payload m"
    by (fastforce simp: list_all_iff dest: subseq_set)
  then have "locked \<longrightarrow> (\<exists>m \<in> set ms. asks_for cd True (nm_payload m))" using q(5) by fastforce
  then show ?thesis unfolding r prod.case using q(1,2,4) m by (auto simp: list_all2_map1)
qed

text \<open>
  The gateway lets through one of two commands to lock the door, and DATA_BROKER delivers it on the
  second of two subscriptions.
\<close>

definition locking_codec :: lock_codec where
  "locking_codec =
     \<lparr>lk_de_cmd = (\<lambda>s. if s = ''cmd'' then Inr ((lock_cmd Lock)\<lparr>lc_command_id := ''1''\<rparr>)
                       else Inl \<lparr>se_category = CatSyntax, se_text = ''expected value''\<rparr>),
      lk_de_value = gj_slice_value demo_codec, lk_ser = (\<lambda>_. ''response'')\<rparr>"

lemma only_cloud_commands_move_the_lock_witness:
  "case run locking_codec calm_world [payload_poll ''cmd''] [] of
     (res, locked, t') \<Rightarrow> locked \<and> (
       \<exists>start mss moves. start \<in> {[], [False]} \<and> accepted_bools t' = map (Pair SIGNAL_IS_LOCKED) (start @ moves) \<and>
         list_all (\<lambda>xs. subseq xs [demo_message ''tok'']) mss \<and>
         list_all2 (\<lambda>m b. asks_for locking_codec b (nm_payload m)) (concat mss) moves)"
proof -
  define items where "items = [CommandMsg (demo_message ''bad''), CommandMsg (demo_message ''tok'')]"
  define streams where "streams = [[], [(Inr [(SIGNAL_COMMAND, plain_datapoint (TString ''cmd''))] :: string + entries, True)]]"
  define T where "T = gw_trace (gateway_tasks demo_codec calm_world demo_config items [])"
  have h: "list_all headers_ok (command_msgs items)" by (simp add: items_def headers_ok_def demo_message_def)
  have "valid_utf8 ''cmd''" by (simp add: valid_utf8.simps utf8_step_def byte_at_def)
  then have f: "filter (forwardable demo_codec (gc_bearer_token demo_config)) (command_msgs items) = [demo_message ''tok'']"
    by (simp add: items_def demo_message_def forwardable_def authentic_def demo_codec_def demo_config_def)
  have d: "list_all (\<lambda>s. delivers SIGNAL_COMMAND T (map fst s)) streams"
    using \<open>valid_utf8 ''cmd''\<close>
    by (simp add: streams_def delivers_def carried_def values_on_def T_def gateway_tasks_def items_def command_turn_def
        validate_bearer_token_def extract_headers_def Let_def demo_message_def demo_codec_def demo_config_def
        validate_command_payload_def write_command_def from_utf8_def io_simps calm_world_def SIGNAL_COMMAND_def SIGNAL_COMMAND_gw_def)
  have p: "payloads [payload_poll ''cmd''] = concat (map (forward_strings SIGNAL_COMMAND) streams)"
    by (simp add: streams_def payload_poll_def plain_value)
  obtain res t' where r: "run locking_codec calm_world [payload_poll ''cmd''] [] = (res, True, t')"
    by (simp add: run_def calm_connect [unfolded calm_world_def] payload_poll_def subscribe_def handle_command_payload_def
      process_command_def process_lock_def check_safety_def grpc_client_def grpc_set_bool_def grpc_set_string_def grpc_get_float_def grpc_get_bool_def io_simps Let_def
      calm_world_def locking_codec_def parse_command_def validate_command_def lock_cmd_def success_response_def)
  from only_cloud_commands_move_the_lock [OF h T_def d p refl, of locking_codec calm_world]
  show ?thesis unfolding r f prod.case by blast
qed

section \<open>An operator for examples\<close>

definition willing_operator :: "unit adaptor" where
  "willing_operator =
     \<lparr>pa_operator =
        \<lparr>op_start_session = (\<lambda>_ _ w. (Some (Inr \<lparr>sr_session_id = ''s'', sr_status = [],
            sr_rate = \<lparr>rp_rate_type = [], rp_amount = f64_zero, rp_currency = []\<rparr>\<rparr>), w)),
         op_stop_session = (\<lambda>i w. (Some (Inr \<lparr>pr_session_id = i, pr_status = [], pr_duration_seconds = 0,
            pr_total_amount = f64_zero, pr_currency = []\<rparr>), w))\<rparr>,
      pa_broker = \<lparr>bo_set_bool = (\<lambda>_ _ w. (Inr (), w))\<rparr>, pa_clock = (\<lambda>_. Some 0),
      pa_vehicle_id = ''VIN1'', pa_zone_id = ''z''\<rparr>"

end
