(* ===== verification/Parking_System.thy ===== *)
theory Parking_System
  imports Parking_Properties "HOL-Library.Sublist"
begin

text \<open>
  The whole parking-operator-adaptor as a step relation: the gRPC server with its calls, the task
  that forwards lock events, the channel, the event loop and the shutdown (main.rs \<open>run\<close>, the
  handlers of grpc_server.rs, \<open>run_event_loop\<close>). Every interleaving is a run. A call that the
  client cancels stops where it is. A reply wakes its handler, which does nothing observable
  before its next send, so the two are one step. Ghosts: the log of the events that the loop has
  handled with their senders and replies. What is tonic's or tokio's doing is a guard of a step: the
  server is done once all its calls are, and the loop ends once nobody can send to it any more.
\<close>

section \<open>The handlers\<close>

datatype rpc = StartRpc string | StopRpc | StatusRpc | RateRpc

text \<open>What a handler sends to the loop; \<open>CallStarted\<close> is the second question of StartSession.\<close>

datatype rpc_call = CallStart string | CallStarted string start_response | CallStop | CallStatus | CallRate

fun first_call :: "rpc \<Rightarrow> rpc_call" where
  "first_call (StartRpc z) = CallStart z"
| "first_call StopRpc = CallStop"
| "first_call StatusRpc = CallStatus"
| "first_call RateRpc = CallRate"

fun event_of :: "rpc_call \<Rightarrow> session_event" where
  "event_of (CallStart z) = ManualStart z"
| "event_of (CallStarted z r) = QueryStatus"
| "event_of CallStop = ManualStop"
| "event_of CallStatus = QueryStatus"
| "event_of CallRate = QueryRate"

datatype rpc_answer = SessionAnswer "status + session_info" | RateAnswer "status + parking_rate"

datatype handler = Sending rpc_call | Waiting rpc_call | Finished rpc_answer | Cancelled

text \<open>The oneshot channels are typed: a reply of another kind cannot arrive.\<close>

fun start_answer :: "session_reply answered \<Rightarrow> (manual_error + start_response) answered" where
  "start_answer (Answered (StartReply r)) = Answered r"
| "start_answer LoopGone = LoopGone"
| "start_answer _ = ReplyDropped"

fun stop_answer :: "session_reply answered \<Rightarrow> (manual_error + stop_response) answered" where
  "stop_answer (Answered (StopReply r)) = Answered r"
| "stop_answer LoopGone = LoopGone"
| "stop_answer _ = ReplyDropped"

fun status_answer :: "session_reply answered \<Rightarrow> session_state option answered" where
  "status_answer (Answered (StatusReply r)) = Answered r"
| "status_answer LoopGone = LoopGone"
| "status_answer _ = ReplyDropped"

fun rate_answer :: "session_reply answered \<Rightarrow> rate option answered" where
  "rate_answer (Answered (RateReply r)) = Answered r"
| "rate_answer LoopGone = LoopGone"
| "rate_answer _ = ReplyDropped"

fun continue :: "rpc_call \<Rightarrow> session_reply answered \<Rightarrow> handler" where
  "continue (CallStart z) a =
     (case start_answer a of
        Answered (Inr r) \<Rightarrow> Sending (CallStarted z r)
      | b \<Rightarrow> Finished (SessionAnswer (grpc_start_session z b LoopGone)))"
| "continue (CallStarted z r) a =
     Finished (SessionAnswer (grpc_start_session z (Answered (Inr r)) (status_answer a)))"
| "continue CallStop a = Finished (SessionAnswer (grpc_stop_session (stop_answer a)))"
| "continue CallStatus a = Finished (SessionAnswer (grpc_get_status (status_answer a)))"
| "continue CallRate a = Finished (RateAnswer (grpc_get_rate (rate_answer a)))"

text \<open>A handler that has got the replies \<open>rs\<close>.\<close>

fun resume :: "handler \<Rightarrow> session_reply list \<Rightarrow> handler" where
  "resume (Sending c) (r # rs) = resume (continue c (Answered r)) rs"
| "resume h rs = h"

section \<open>The state\<close>

definition CHANNEL_CAPACITY :: nat where "CHANNEL_CAPACITY = 32"

text \<open>A message is an event with the call that waits for the reply.\<close>

type_synonym message = "session_event \<times> nat option"

datatype loop_state = Idle | Busy message | Ended | Panicked
datatype forwarder = FwdReceiving | FwdSending bool | FwdDone
datatype server_state = Binding | Serving | Draining | ServerDone
datatype shutdown_task = Awaiting | Signalled | ShutDone

record 'w adaptor_system =
  ad_calls :: "(rpc \<times> handler) list"
  ad_channel :: "message list"
  ad_loop :: loop_state
  ad_session :: session
  ad_world :: 'w
  ad_feed :: "bool list"
  ad_feed_ends :: bool
  ad_forwarder :: forwarder
  ad_server :: server_state
  ad_shutdown :: shutdown_task
  ad_log :: "(message \<times> session_reply) list"

text \<open>
  \<open>ad_feed\<close> are the values that the lock subscription has yet to deliver, \<open>ad_feed_ends\<close> says whether
  the stream ends after them or stays open. A call is named by its position in \<open>ad_calls\<close>.
\<close>

definition adaptor_init :: "bool list \<Rightarrow> bool \<Rightarrow> 'w \<Rightarrow> 'w adaptor_system" where
  "adaptor_init feed feed_ends w =
     \<lparr>ad_calls = [], ad_channel = [], ad_loop = Idle, ad_session = session_new, ad_world = w,
      ad_feed = feed, ad_feed_ends = feed_ends, ad_forwarder = FwdReceiving, ad_server = Binding,
      ad_shutdown = Awaiting, ad_log = []\<rparr>"

text \<open>The reply goes to its call if the call still waits for it.\<close>

definition wake :: "nat option \<Rightarrow> session_reply \<Rightarrow> (rpc \<times> handler) list \<Rightarrow> (rpc \<times> handler) list" where
  "wake who reply cs =
     (case who of
        None \<Rightarrow> cs
      | Some i \<Rightarrow>
          if i < length cs
          then (case cs ! i of (q, Waiting c) \<Rightarrow> cs[i := (q, continue c (Answered reply))] | _ \<Rightarrow> cs)
          else cs)"

definition live :: "handler \<Rightarrow> bool" where
  "live h = (case h of Sending _ \<Rightarrow> True | Waiting _ \<Rightarrow> True | _ \<Rightarrow> False)"

section \<open>The steps\<close>

inductive adaptor_step :: "'w adaptor \<Rightarrow> 'w adaptor_system \<Rightarrow> 'w adaptor_system \<Rightarrow> bool" for A :: "'w adaptor" where
  bind: "ad_server s = Binding \<Longrightarrow> adaptor_step A s (s\<lparr>ad_server := Serving\<rparr>)"
| bind_fails: "ad_server s = Binding \<Longrightarrow> adaptor_step A s (s\<lparr>ad_server := ServerDone\<rparr>)"
| arrive: "ad_server s = Serving \<Longrightarrow>
     adaptor_step A s (s\<lparr>ad_calls := ad_calls s @ [(q, Sending (first_call q))]\<rparr>)"
| cancel: "i < length (ad_calls s) \<Longrightarrow> ad_calls s ! i = (q, h) \<Longrightarrow> live h \<Longrightarrow>
     adaptor_step A s (s\<lparr>ad_calls := (ad_calls s)[i := (q, Cancelled)]\<rparr>)"
| send: "i < length (ad_calls s) \<Longrightarrow> ad_calls s ! i = (q, Sending c) \<Longrightarrow>
     ad_loop s = Idle \<or> (\<exists>m. ad_loop s = Busy m) \<Longrightarrow> length (ad_channel s) < CHANNEL_CAPACITY \<Longrightarrow>
     adaptor_step A s (s\<lparr>ad_calls := (ad_calls s)[i := (q, Waiting c)],
       ad_channel := ad_channel s @ [(event_of c, Some i)]\<rparr>)"
| send_fails: "i < length (ad_calls s) \<Longrightarrow> ad_calls s ! i = (q, Sending c) \<Longrightarrow>
     ad_loop s = Ended \<or> ad_loop s = Panicked \<Longrightarrow>
     adaptor_step A s (s\<lparr>ad_calls := (ad_calls s)[i := (q, continue c LoopGone)]\<rparr>)"
| reply_lost: "i < length (ad_calls s) \<Longrightarrow> ad_calls s ! i = (q, Waiting c) \<Longrightarrow>
     ad_loop s = Ended \<or> ad_loop s = Panicked \<Longrightarrow>
     adaptor_step A s (s\<lparr>ad_calls := (ad_calls s)[i := (q, continue c ReplyDropped)]\<rparr>)"
| receive: "ad_forwarder s = FwdReceiving \<Longrightarrow> ad_feed s = b # bs \<Longrightarrow>
     adaptor_step A s (s\<lparr>ad_forwarder := FwdSending b, ad_feed := bs\<rparr>)"
| feed_end: "ad_forwarder s = FwdReceiving \<Longrightarrow> ad_feed s = [] \<Longrightarrow> ad_feed_ends s \<Longrightarrow>
     adaptor_step A s (s\<lparr>ad_forwarder := FwdDone\<rparr>)"
| forward: "ad_forwarder s = FwdSending b \<Longrightarrow> ad_loop s = Idle \<or> (\<exists>m. ad_loop s = Busy m) \<Longrightarrow>
     length (ad_channel s) < CHANNEL_CAPACITY \<Longrightarrow>
     adaptor_step A s (s\<lparr>ad_forwarder := FwdReceiving, ad_channel := ad_channel s @ [(LockChanged b, None)]\<rparr>)"
| forward_fails: "ad_forwarder s = FwdSending b \<Longrightarrow> ad_loop s = Ended \<or> ad_loop s = Panicked \<Longrightarrow>
     adaptor_step A s (s\<lparr>ad_forwarder := FwdDone\<rparr>)"
| forwarder_aborted: "ad_shutdown s = ShutDone \<Longrightarrow> ad_forwarder s \<noteq> FwdDone \<Longrightarrow>
     adaptor_step A s (s\<lparr>ad_forwarder := FwdDone\<rparr>)"
| dequeue: "ad_loop s = Idle \<Longrightarrow> ad_channel s = m # ms \<Longrightarrow>
     adaptor_step A s (s\<lparr>ad_loop := Busy m, ad_channel := ms\<rparr>)"
| handled: "ad_loop s = Busy (ev, who) \<Longrightarrow>
     handle_event A ev (ad_session s) (ad_world s) = (Some (reply, session'), w') \<Longrightarrow>
     adaptor_step A s (s\<lparr>ad_loop := Idle, ad_session := session', ad_world := w',
       ad_calls := wake who reply (ad_calls s), ad_log := ad_log s @ [((ev, who), reply)]\<rparr>)"
| panicked: "ad_loop s = Busy (ev, who) \<Longrightarrow>
     handle_event A ev (ad_session s) (ad_world s) = (None, w') \<Longrightarrow>
     adaptor_step A s (s\<lparr>ad_loop := Panicked, ad_world := w', ad_channel := []\<rparr>)"
| loop_ends: "ad_loop s = Idle \<Longrightarrow> ad_channel s = [] \<Longrightarrow> ad_server s = ServerDone \<Longrightarrow>
     ad_forwarder s = FwdDone \<Longrightarrow> adaptor_step A s (s\<lparr>ad_loop := Ended\<rparr>)"
| signal: "ad_shutdown s = Awaiting \<Longrightarrow> adaptor_step A s (s\<lparr>ad_shutdown := Signalled\<rparr>)"
| drain: "ad_shutdown s \<noteq> Awaiting \<Longrightarrow> ad_server s = Serving \<Longrightarrow>
     adaptor_step A s (s\<lparr>ad_server := Draining\<rparr>)"
| server_stops: "ad_server s = Draining \<Longrightarrow> (\<forall>(q, h) \<in> set (ad_calls s). \<not> live h) \<Longrightarrow>
     adaptor_step A s (s\<lparr>ad_server := ServerDone\<rparr>)"
| abort: "ad_shutdown s = Signalled \<Longrightarrow> ad_server s = ServerDone \<Longrightarrow>
     adaptor_step A s (s\<lparr>ad_shutdown := ShutDone\<rparr>)"

inductive_cases adaptor_stepE: "adaptor_step A s t"

section \<open>The work that is left\<close>

fun waiting_work :: "rpc_call \<Rightarrow> nat" where
  "waiting_work (CallStart z) = 4"
| "waiting_work _ = 1"

fun handler_work :: "handler \<Rightarrow> nat" where
  "handler_work (Sending c) = waiting_work c + 3"
| "handler_work (Waiting c) = waiting_work c"
| "handler_work _ = 0"

definition calls_work :: "(rpc \<times> handler) list \<Rightarrow> nat" where
  "calls_work cs = sum_list (map (\<lambda>(q, h). handler_work h) cs)"

definition work_left :: "'w adaptor_system \<Rightarrow> nat" where
  "work_left s = calls_work (ad_calls s) + 2 * length (ad_channel s) + 5 * length (ad_feed s) +
     (case ad_loop s of Idle \<Rightarrow> 1 | Busy _ \<Rightarrow> 2 | _ \<Rightarrow> 0) +
     (case ad_forwarder s of FwdReceiving \<Rightarrow> 1 | FwdSending _ \<Rightarrow> 4 | FwdDone \<Rightarrow> 0) +
     (case ad_server s of Binding \<Rightarrow> 3 | Serving \<Rightarrow> 2 | Draining \<Rightarrow> 1 | ServerDone \<Rightarrow> 0) +
     (case ad_shutdown s of Awaiting \<Rightarrow> 2 | Signalled \<Rightarrow> 1 | ShutDone \<Rightarrow> 0)"

lemma calls_work_append [simp]: "calls_work (cs @ [(q, h)]) = calls_work cs + handler_work h"
  by (simp add: calls_work_def)

lemma calls_work_update:
  assumes "i < length cs" and "cs ! i = (q, h)"
  shows "calls_work (cs[i := (q', h')]) + handler_work h = calls_work cs + handler_work h'"
proof -
  have "handler_work h \<le> calls_work cs"
    using member_le_sum_list [of "handler_work h" "map (\<lambda>(q, h). handler_work h) cs"] nth_mem [OF assms(1)] assms(2)
    by (force simp: calls_work_def)
  then show ?thesis using assms by (simp add: calls_work_def map_update sum_list_update)
qed

lemma waiting_work_pos: "0 < waiting_work c"
  by (cases c) auto

lemma first_call_work: "handler_work (Sending (first_call q)) \<le> 7"
  by (cases q) auto

lemma continue_work: "handler_work (continue c a) \<le> waiting_work c"
  by (cases c) (auto split: answered.split sum.split)

lemma continue_gone: "handler_work (continue c LoopGone) = 0" "handler_work (continue c ReplyDropped) = 0"
  by (cases c; simp)+

lemma live_work: "live h \<Longrightarrow> 0 < handler_work h"
  by (cases h) (auto simp: live_def waiting_work_pos)

lemma wake_work: "calls_work (wake who reply cs) \<le> calls_work cs"
proof (cases who)
  case (Some i)
  show ?thesis
  proof (cases "i < length cs")
    case i: True
    obtain q h where c: "cs ! i = (q, h)" by fastforce
    show ?thesis
    proof (cases h)
      case (Waiting cl)
      then show ?thesis
        using calls_work_update [OF i c, of q "continue cl (Answered reply)"] continue_work [of cl "Answered reply"]
        by (simp add: wake_def Some i c)
    qed (simp_all add: wake_def Some i c)
  qed (simp add: wake_def Some)
qed (simp add: wake_def)

lemma wake_length [simp]: "length (wake who reply cs) = length cs"
  by (auto simp: wake_def split: option.split prod.split handler.split)

text \<open>A call brings at most eight steps; every step uses up one.\<close>

interpretation adaptor_run: measured_system "adaptor_step A" work_left "\<lambda>s. 8 * length (ad_calls s)"
proof
  fix s t
  assume "adaptor_step A s t"
  then show "Suc (work_left t) + 8 * length (ad_calls s) \<le> work_left s + 8 * length (ad_calls t)"
  proof cases
    case (arrive q)
    then show ?thesis using first_call_work [of q] by (simp add: work_left_def)
  next
    case (cancel i q h)
    then show ?thesis using calls_work_update [OF cancel(2,3), of q Cancelled] live_work [OF cancel(4)]
      by (simp add: work_left_def)
  next
    case (send i q c)
    then show ?thesis using calls_work_update [OF send(2,3), of q "Waiting c"] by (simp add: work_left_def)
  next
    case (send_fails i q c)
    then show ?thesis
      using calls_work_update [OF send_fails(2,3), of q "continue c LoopGone"] by (simp add: work_left_def continue_gone)
  next
    case (reply_lost i q c)
    then show ?thesis
      using calls_work_update [OF reply_lost(2,3), of q "continue c ReplyDropped"] waiting_work_pos [of c]
      by (simp add: work_left_def continue_gone)
  next
    case (handled ev who reply session' w')
    then show ?thesis using wake_work [of who reply "ad_calls s"] by (simp add: work_left_def)
  qed (auto simp: work_left_def split: forwarder.splits)
qed

section \<open>The invariant\<close>

definition in_flight :: "'w adaptor_system \<Rightarrow> message list" where
  "in_flight s = (case ad_loop s of Busy m \<Rightarrow> [m] | _ \<Rightarrow> []) @ ad_channel s"

definition handled_events :: "'w adaptor_system \<Rightarrow> session_event list" where
  "handled_events s = map (\<lambda>((ev, who), r). ev) (ad_log s)"

definition loop_replies :: "'w adaptor_system \<Rightarrow> session_reply list" where
  "loop_replies s = map snd (ad_log s)"

definition sent_by :: "nat \<Rightarrow> message list \<Rightarrow> session_event list" where
  "sent_by i ms = map fst (filter (\<lambda>(ev, who). who = Some i) ms)"

definition replies_to :: "nat \<Rightarrow> (message \<times> session_reply) list \<Rightarrow> session_reply list" where
  "replies_to i log = map snd (filter (\<lambda>((ev, who), r). who = Some i) log)"

fun lock_value :: "session_event \<Rightarrow> bool list" where
  "lock_value (LockChanged b) = [b]"
| "lock_value _ = []"

definition lock_values :: "session_event list \<Rightarrow> bool list" where
  "lock_values evs = concat (map lock_value evs)"

lemma event_loop_append:
  "event_loop A (evs @ [ev]) s w =
     (case event_loop A evs s w of
        (rs, None, w1) \<Rightarrow> (rs, None, w1)
      | (rs, Some s1, w1) \<Rightarrow>
          (case handle_event A ev s1 w1 of
             (None, w2) \<Rightarrow> (rs, None, w2)
           | (Some (r, s2), w2) \<Rightarrow> (rs @ [r], Some s2, w2)))"
  by (induction evs arbitrary: s w) (auto split: prod.splits option.splits)

text \<open>The loop is where a sequential run over the handled events ends.\<close>

definition loop_inv :: "'w adaptor \<Rightarrow> 'w \<Rightarrow> 'w adaptor_system \<Rightarrow> bool" where
  "loop_inv A w0 s =
     (if ad_loop s = Panicked
      then \<exists>ev. run_event_loop A (handled_events s @ [ev]) w0 = (loop_replies s, None, ad_world s)
      else run_event_loop A (handled_events s) w0 = (loop_replies s, Some (ad_session s), ad_world s))"

text \<open>Who is in which phase.\<close>

definition phase_inv :: "'w adaptor_system \<Rightarrow> bool" where
  "phase_inv s =
     ((ad_server s = Binding \<longrightarrow> ad_calls s = []) \<and>
      (ad_server s = ServerDone \<longrightarrow> (\<forall>(q, h) \<in> set (ad_calls s). \<not> live h)) \<and>
      (ad_loop s = Ended \<longrightarrow> ad_server s = ServerDone \<and> ad_forwarder s = FwdDone \<and> ad_channel s = []) \<and>
      (ad_server s = Draining \<longrightarrow> ad_shutdown s \<noteq> Awaiting) \<and>
      (ad_shutdown s = ShutDone \<longrightarrow> ad_server s = ServerDone) \<and>
      length (ad_channel s) \<le> CHANNEL_CAPACITY)"

text \<open>A call is where the replies that the loop has sent it lead, or waits for one more.\<close>

definition call_ok :: "'w adaptor_system \<Rightarrow> nat \<Rightarrow> rpc \<Rightarrow> handler \<Rightarrow> bool" where
  "call_ok s i q h =
     (let g = resume (Sending (first_call q)) (replies_to i (ad_log s)) in
      h = Cancelled \<or> (h = g \<and> sent_by i (in_flight s) = []) \<or>
      (\<exists>c. h = Waiting c \<and> g = Sending c \<and> sent_by i (in_flight s) = [event_of c]))"

definition calls_inv :: "'w adaptor_system \<Rightarrow> bool" where
  "calls_inv s =
     (ad_loop s \<noteq> Panicked \<longrightarrow>
        (\<forall>i < length (ad_calls s). call_ok s i (fst (ad_calls s ! i)) (snd (ad_calls s ! i))) \<and>
        (\<forall>i \<ge> length (ad_calls s). replies_to i (ad_log s) = [] \<and> sent_by i (in_flight s) = []))"

text \<open>The lock events are those of the subscription, in order; at most one is lost, to the abort.\<close>

definition feed_inv :: "bool list \<Rightarrow> 'w adaptor_system \<Rightarrow> bool" where
  "feed_inv feed s =
     (ad_loop s \<noteq> Panicked \<longrightarrow>
        (\<exists>lost. feed = lock_values (handled_events s @ map fst (in_flight s)) @
             (case ad_forwarder s of FwdSending b \<Rightarrow> [b] | _ \<Rightarrow> []) @ lost @ ad_feed s \<and>
           (lost = [] \<or> length lost = 1 \<and> ad_shutdown s = ShutDone \<and> ad_forwarder s = FwdDone)))"

lemma wake_live: "\<forall>(q, h) \<in> set cs. \<not> live h \<Longrightarrow> wake who reply cs = cs"
proof (cases who)
  case (Some i)
  assume "\<forall>(q, h) \<in> set cs. \<not> live h"
  then have "\<not> live (snd (cs ! i))" if "i < length cs" using that nth_mem [OF that] by (auto simp: case_prod_beta)
  then show ?thesis by (auto simp: wake_def Some live_def split: prod.split handler.split)
qed (simp add: wake_def)

lemma lock_values_append [simp]:
  "lock_values [] = []" "lock_values (e # es) = lock_value e @ lock_values es"
  "lock_values (xs @ ys) = lock_values xs @ lock_values ys"
  by (simp_all add: lock_values_def)

lemma sent_by_simps [simp]:
  "sent_by i [] = []" "sent_by i (xs @ ys) = sent_by i xs @ sent_by i ys"
  "sent_by i ((ev, who) # ms) = (if who = Some i then ev # sent_by i ms else sent_by i ms)"
  by (simp_all add: sent_by_def)

lemma replies_to_simps [simp]:
  "replies_to i [] = []" "replies_to i (xs @ ys) = replies_to i xs @ replies_to i ys"
  "replies_to i [((ev, who), r)] = (if who = Some i then [r] else [])"
  by (simp_all add: replies_to_def)

lemma step_loop_inv:
  assumes "adaptor_step A s t" and "loop_inv A w0 s"
  shows "loop_inv A w0 t"
  using assms(1)
proof cases
  case (panicked ev who w')
  then show ?thesis using assms(2)
    by (auto simp: loop_inv_def handled_events_def loop_replies_def run_event_loop_def event_loop_append
        intro!: exI [of _ ev])
qed (use assms(2) in \<open>auto simp: loop_inv_def handled_events_def loop_replies_def run_event_loop_def
    event_loop_append split: if_splits\<close>)

lemma step_phase_inv:
  assumes "adaptor_step A s t" and "phase_inv s"
  shows "phase_inv t"
proof -
  have here: "(q, h) \<in> set (ad_calls s)" if "i < length (ad_calls s)" "ad_calls s ! i = (q, h)" for i q h
    using that by (metis nth_mem)
  show ?thesis
    using assms(1)
  proof cases
    case (handled ev who reply session' w')
    moreover have "wake who reply [] = []" by (simp add: wake_def split: option.split)
    ultimately show ?thesis using assms(2) by (auto simp: phase_inv_def wake_live)
  next
    case (cancel i q h)
    then show ?thesis using assms(2) here [OF cancel(2,3)] by (auto simp: phase_inv_def)
  next
    case (send i q c)
    then show ?thesis using assms(2) here [OF send(2,3)] by (auto simp: phase_inv_def live_def)
  next
    case (send_fails i q c)
    then show ?thesis using assms(2) here [OF send_fails(2,3)] by (auto simp: phase_inv_def live_def)
  next
    case (reply_lost i q c)
    then show ?thesis using assms(2) here [OF reply_lost(2,3)] by (auto simp: phase_inv_def live_def)
  qed (use assms(2) in \<open>auto simp: phase_inv_def\<close>)
qed

lemma step_feed_inv:
  assumes "adaptor_step A s t" and "feed_inv feed s" and "phase_inv s"
  shows "feed_inv feed t"
  using assms(1)
proof cases
  case (forward_fails b)
  then show ?thesis using assms(2,3) by (auto simp: feed_inv_def phase_inv_def)
next
  case forwarder_aborted
  then show ?thesis using assms(2)
    by (cases "ad_forwarder s") (auto simp: feed_inv_def in_flight_def handled_events_def)
next
  case (handled ev who reply session' w')
  then show ?thesis using assms(2)
    by (auto simp: feed_inv_def in_flight_def handled_events_def)
next
  case (send i q c)
  then show ?thesis using assms(2)
    by (cases c) (auto simp: feed_inv_def in_flight_def handled_events_def)
qed (use assms(2) in \<open>auto simp: feed_inv_def in_flight_def handled_events_def split: loop_state.splits\<close>)

lemma resume_Nil [simp]: "resume h [] = h"
  by (cases h) simp_all

lemma resume_append:
  "resume h (rs @ [r]) = (case resume h rs of Sending c \<Rightarrow> continue c (Answered r) | h' \<Rightarrow> h')"
proof (induction rs arbitrary: h)
  case Nil
  show ?case by (cases h) simp_all
next
  case (Cons r' rs)
  then show ?case by (cases h) simp_all
qed

lemma wake_other: "who \<noteq> Some i \<Longrightarrow> wake who reply cs ! i = cs ! i"
  by (auto simp: wake_def nth_list_update split: option.split prod.split handler.split)

lemma wake_waiting:
  "i < length cs \<Longrightarrow> cs ! i = (q, Waiting c) \<Longrightarrow> wake (Some i) reply cs ! i = (q, continue c (Answered reply))"
  by (simp add: wake_def)

lemma wake_cancelled:
  "i < length cs \<Longrightarrow> cs ! i = (q, Cancelled) \<Longrightarrow> wake (Some i) reply cs ! i = (q, Cancelled)"
  by (simp add: wake_def)

lemma handled_calls_inv:
  assumes "calls_inv s" and "ad_loop s = Busy (ev, who)"
  shows "calls_inv (s\<lparr>ad_loop := Idle, ad_session := session', ad_world := w',
       ad_calls := wake who reply (ad_calls s), ad_log := ad_log s @ [((ev, who), reply)]\<rparr>)"
    (is "calls_inv ?t")
proof -
  have flight: "in_flight s = (ev, who) # in_flight ?t" by (simp add: in_flight_def assms(2))
  have out: "replies_to i (ad_log ?t) = [] \<and> sent_by i (in_flight ?t) = []" if "length (ad_calls s) \<le> i" for i
    using assms that flight by (auto simp: calls_inv_def split: if_splits)
  have "call_ok ?t i (fst (ad_calls ?t ! i)) (snd (ad_calls ?t ! i))" if i: "i < length (ad_calls s)" for i
  proof -
    obtain q h where c: "ad_calls s ! i = (q, h)" by fastforce
    have ok: "call_ok s i q h" using assms i c by (force simp: calls_inv_def)
    show ?thesis
    proof (cases "who = Some i")
      case True
      consider "h = Cancelled" | cl where "h = Waiting cl" "resume (Sending (first_call q)) (replies_to i (ad_log s)) = Sending cl"
        "ev = event_of cl" "sent_by i (in_flight ?t) = []"
        using ok flight True by (auto simp: call_ok_def Let_def)
      then show ?thesis
      proof cases
        case 1
        then show ?thesis using True wake_cancelled [OF i] c by (simp add: call_ok_def Let_def)
      next
        case 2
        then show ?thesis
          using True c wake_waiting [OF i, of q cl] by (simp add: call_ok_def resume_append Let_def)
      qed
    next
      case False
      then show ?thesis using ok flight c wake_other [OF False] by (simp add: call_ok_def)
    qed
  qed
  with out show ?thesis by (simp add: calls_inv_def)
qed

lemma call_ok_same:
  "ad_log t = ad_log s \<Longrightarrow> sent_by i (in_flight t) = sent_by i (in_flight s) \<Longrightarrow> call_ok t i q h \<longleftrightarrow> call_ok s i q h"
  by (simp add: call_ok_def)

lemma calls_inv_same:
  assumes "calls_inv s" and "ad_calls t = ad_calls s" and "ad_log t = ad_log s"
    and "\<And>i. sent_by i (in_flight t) = sent_by i (in_flight s)" and "ad_loop s \<noteq> Panicked"
  shows "calls_inv t"
  using assms by (simp add: calls_inv_def call_ok_def)

lemma calls_inv_update:
  assumes "calls_inv s" and "ad_calls t = (ad_calls s)[i := (q, h)]" and "ad_log t = ad_log s"
    and "\<And>j. j \<noteq> i \<Longrightarrow> sent_by j (in_flight t) = sent_by j (in_flight s)"
    and "i < length (ad_calls s)" and "ad_loop s = ad_loop t" and "ad_loop s \<noteq> Panicked \<Longrightarrow> call_ok t i q h"
  shows "calls_inv t"
  using assms by (auto simp: calls_inv_def call_ok_def nth_list_update)

lemma step_calls_inv:
  assumes "adaptor_step A s t" and "calls_inv s" and "phase_inv s"
  shows "calls_inv t"
  using assms(1)
proof cases
  case (arrive q)
  have "call_ok t (length (ad_calls s)) q (Sending (first_call q))" if "ad_loop s \<noteq> Panicked"
    using assms(2) that arrive by (auto simp: call_ok_def calls_inv_def in_flight_def)
  then show ?thesis using assms(2) arrive
    by (auto simp: calls_inv_def nth_append less_Suc_eq call_ok_def in_flight_def)
next
  case (cancel i q h)
  show ?thesis by (rule calls_inv_update [OF assms(2)]) (use cancel in \<open>auto simp: in_flight_def call_ok_def\<close>)
next
  case (send i q c)
  have "call_ok s i q (Sending c)" using assms(2) send(2,3,4) by (force simp: calls_inv_def)
  then have "call_ok t i q (Waiting c)"
    using send by (auto simp: call_ok_def in_flight_def Let_def)
  then show ?thesis by (intro calls_inv_update [OF assms(2)]) (use send in \<open>auto simp: in_flight_def\<close>)
next
  case (send_fails i q c)
  have "(q, Sending c) \<in> set (ad_calls s)" using send_fails by (metis nth_mem)
  then have "ad_loop s = Panicked" using assms(3) send_fails by (auto simp: phase_inv_def live_def)
  then show ?thesis using send_fails by (simp add: calls_inv_def)
next
  case (reply_lost i q c)
  have "(q, Waiting c) \<in> set (ad_calls s)" using reply_lost by (metis nth_mem)
  then have "ad_loop s = Panicked" using assms(3) reply_lost by (auto simp: phase_inv_def live_def)
  then show ?thesis using reply_lost by (simp add: calls_inv_def)
next
  case (handled ev who reply session' w')
  show ?thesis unfolding handled(1) by (rule handled_calls_inv [OF assms(2) handled(2)])
next
  case (forward b)
  show ?thesis by (rule calls_inv_same [OF assms(2)]) (use forward in \<open>auto simp: in_flight_def\<close>)
next
  case (dequeue m ms)
  show ?thesis by (rule calls_inv_same [OF assms(2)]) (use dequeue in \<open>auto simp: in_flight_def\<close>)
next
  case loop_ends
  show ?thesis by (rule calls_inv_same [OF assms(2)]) (use loop_ends in \<open>auto simp: in_flight_def\<close>)
qed (use assms(2) in \<open>auto simp: calls_inv_def call_ok_def in_flight_def\<close>)

text \<open>No call is answered with INTERNAL: the loop outlives the calls and replies in kind.\<close>

definition is_internal :: "rpc_answer \<Rightarrow> bool" where
  "is_internal a =
     (case a of
        SessionAnswer (Inl (Status code _)) \<Rightarrow> code = GInternal
      | RateAnswer (Inl (Status code _)) \<Rightarrow> code = GInternal
      | _ \<Rightarrow> False)"

definition answers_inv :: "'w adaptor_system \<Rightarrow> bool" where
  "answers_inv s =
     (ad_loop s \<noteq> Panicked \<longrightarrow> (\<forall>(q, h) \<in> set (ad_calls s). \<forall>a. h = Finished a \<longrightarrow> \<not> is_internal a))"

lemma manual_not_internal [simp]:
  "is_internal (SessionAnswer (Inl (manual_status e))) = False"
  by (cases e) (simp_all add: is_internal_def)

lemma session_not_internal [simp]:
  "is_internal (SessionAnswer (Inr x)) = False" "is_internal (RateAnswer (Inr y)) = False"
  by (simp_all add: is_internal_def)

lemma reply_in_kind:
  assumes "handle_event A (event_of c) s w = (Some (reply, s'), w')" and "continue c (Answered reply) = Finished a"
  shows "\<not> is_internal a"
  using assms
  by (cases c)
    (auto simp: grpc_start_session_def grpc_stop_session_def grpc_get_status_def grpc_get_rate_def
      split: sum.splits option.splits prod.splits)

lemma answers_inv_update:
  assumes "answers_inv s" and "ad_calls t = (ad_calls s)[i := (q, h)]" and "ad_loop s \<noteq> Panicked"
    and "\<And>a. h = Finished a \<Longrightarrow> \<not> is_internal a"
  shows "answers_inv t"
  using assms set_update_subset_insert [of "ad_calls s" i "(q, h)"] by (fastforce simp: answers_inv_def)

lemma answers_inv_same: "answers_inv s \<Longrightarrow> ad_calls t = ad_calls s \<Longrightarrow> ad_loop s \<noteq> Panicked \<Longrightarrow> answers_inv t"
  by (simp add: answers_inv_def)

lemma dead_loop: "phase_inv s \<Longrightarrow> i < length (ad_calls s) \<Longrightarrow> ad_calls s ! i = (q, h) \<Longrightarrow> live h \<Longrightarrow>
    ad_loop s = Ended \<or> ad_loop s = Panicked \<Longrightarrow> ad_loop s = Panicked"
  using nth_mem [of i "ad_calls s"] by (force simp: phase_inv_def)

lemma live_simps [simp]: "live (Sending c)" "live (Waiting c)" "\<not> live (Finished a)" "\<not> live Cancelled"
  by (simp_all add: live_def)

lemma wake_cases:
  obtains "wake who reply cs = cs"
  | i q c where "who = Some i" "i < length cs" "cs ! i = (q, Waiting c)"
      "wake who reply cs = cs[i := (q, continue c (Answered reply))]"
proof (cases who)
  case (Some i)
  then show ?thesis
    using that
    by (cases "i < length cs"; cases "cs ! i"; cases "snd (cs ! i)") (simp_all add: wake_def)
qed (simp add: wake_def that)

lemma step_answers_inv:
  assumes "adaptor_step A s t" and "answers_inv s" and "calls_inv s" and "phase_inv s"
  shows "answers_inv t"
  using assms(1)
proof cases
  case (send_fails i q c)
  with assms(4) dead_loop have "ad_loop s = Panicked" by (metis live_simps(1))
  then show ?thesis using send_fails by (simp add: answers_inv_def)
next
  case (reply_lost i q c)
  with assms(4) dead_loop have "ad_loop s = Panicked" by (metis live_simps(2))
  then show ?thesis using reply_lost by (simp add: answers_inv_def)
next
  case (cancel i q h)
  show ?thesis
  proof (cases "ad_loop s = Panicked")
    case False
    then show ?thesis by (intro answers_inv_update [OF assms(2)]) (use cancel in auto)
  qed (use cancel in \<open>simp add: answers_inv_def\<close>)
next
  case (send i q c)
  then show ?thesis by (intro answers_inv_update [OF assms(2)]) auto
next
  case (handled ev who reply session' w')
  show ?thesis
  proof (rule wake_cases [of who reply "ad_calls s"], goal_cases)
    case 1
    then show ?case using handled assms(2) by (simp add: answers_inv_def)
  next
    case (2 i q c)
    have "call_ok s i q (Waiting c)" using assms(3) handled 2 by (force simp: calls_inv_def)
    then have "ev = event_of c" using 2(1) handled by (auto simp: call_ok_def in_flight_def Let_def split: if_splits)
    then have "\<not> is_internal a" if "continue c (Answered reply) = Finished a" for a
      using reply_in_kind [OF _ that] handled(3) by simp
    then show ?case using 2 handled by (intro answers_inv_update [OF assms(2)]) auto
  qed
qed (use assms(2) in \<open>auto simp: answers_inv_def\<close>)

definition adaptor_inv :: "'w adaptor \<Rightarrow> bool list \<Rightarrow> 'w \<Rightarrow> 'w adaptor_system \<Rightarrow> bool" where
  "adaptor_inv A feed w0 s = (loop_inv A w0 s \<and> phase_inv s \<and> calls_inv s \<and> answers_inv s \<and> feed_inv feed s)"

lemma init_adaptor_inv: "adaptor_inv A feed w0 (adaptor_init feed feed_ends w0)"
  by (simp add: adaptor_inv_def adaptor_init_def loop_inv_def handled_events_def loop_replies_def
      run_event_loop_def phase_inv_def calls_inv_def feed_inv_def in_flight_def answers_inv_def)

interpretation adaptor_safe: safe_system "\<lambda>s. \<exists>feed_ends. s = adaptor_init feed feed_ends w0" "adaptor_step A"
  "adaptor_inv A feed w0"
  by unfold_locales
    (auto simp: init_adaptor_inv, auto simp: adaptor_inv_def
      intro: step_loop_inv step_phase_inv step_calls_inv step_answers_inv step_feed_inv)

text \<open>What an execution of the adaptor can reach.\<close>

definition reached :: "'w adaptor \<Rightarrow> bool list \<Rightarrow> 'w \<Rightarrow> 'w adaptor_system \<Rightarrow> bool" where
  "reached A feed w0 s = (\<exists>feed_ends. (adaptor_step A)\<^sup>*\<^sup>* (adaptor_init feed feed_ends w0) s)"

lemma reached_inv: "reached A feed w0 s \<Longrightarrow> adaptor_inv A feed w0 s"
  unfolding reached_def using adaptor_safe.reachable_inv by metis

section \<open>What the adaptor does\<close>

lemma reached_start: "reached A feed w0 (adaptor_init feed feed_ends w0)"
  by (auto simp: reached_def)

lemma reached_step: "reached A feed w0 s \<Longrightarrow> adaptor_step A s t \<Longrightarrow> reached A feed w0 t"
  unfolding reached_def by (meson rtranclp.rtrancl_into_rtrancl)

text \<open>
  C8: Under every interleaving of the gRPC calls, the lock forwarder, the event loop, cancellations
  and the shutdown, the adaptor is always where a sequential run of the event loop over the events
  that it has handled leads: same session, same replies, same effects outside. The lock events
  among them are the first values of the lock subscription, in order.
\<close>
theorem adaptor_is_sequential:
  assumes "reached A feed w0 s" and "ad_loop s \<noteq> Panicked"
  shows "run_event_loop A (handled_events s) w0 = (loop_replies s, Some (ad_session s), ad_world s) \<and>
     prefix (lock_values (handled_events s)) feed"
  using reached_inv [OF assms(1)] assms(2)
  by (auto simp: adaptor_inv_def loop_inv_def feed_inv_def prefix_def)

text \<open>
  C9: A call that has got an answer got it from the event loop: the answer is computed from the
  replies that the loop gave to the events of this call, in the order in which it handled them, and
  it is never INTERNAL, neither while the adaptor runs nor during its shutdown, unless the loop
  panics.
\<close>
theorem answers_come_from_the_loop:
  assumes "reached A feed w0 s" and "ad_loop s \<noteq> Panicked"
    and "i < length (ad_calls s)" and "ad_calls s ! i = (q, Finished a)"
  shows "resume (Sending (first_call q)) (replies_to i (ad_log s)) = Finished a \<and> \<not> is_internal a"
proof -
  have "(q, Finished a) \<in> set (ad_calls s)" using assms(3,4) by (metis nth_mem)
  moreover have "call_ok s i q (Finished a)"
    using reached_inv [OF assms(1)] assms(2-4) by (force simp: adaptor_inv_def calls_inv_def)
  ultimately show ?thesis
    using reached_inv [OF assms(1)] assms(2) by (auto simp: adaptor_inv_def answers_inv_def call_ok_def Let_def)
qed

lemma continue_cases: "(\<exists>cl. continue c a = Sending cl) \<or> (\<exists>ans. continue c a = Finished ans)"
  by (cases c) (auto split: answered.split sum.split)

lemma live_resumed: "live (resume (Sending c) rs) \<Longrightarrow> \<exists>cl. resume (Sending c) rs = Sending cl"
proof (induction rs arbitrary: c)
  case (Cons r rs)
  then show ?case using continue_cases [of c "Answered r"] by (cases rs) auto
qed simp

text \<open>Which of the calls the client has cancelled: a step of the adaptor itself leaves this list as it is.\<close>

definition cancelled :: "(rpc \<times> handler) list \<Rightarrow> bool list" where
  "cancelled cs = map (\<lambda>(q, h). h = Cancelled) cs"

lemma cancelled_update: "cs ! i = (q, h) \<Longrightarrow> h \<noteq> Cancelled \<Longrightarrow> h' \<noteq> Cancelled \<Longrightarrow> cancelled (cs[i := (q', h')]) = cancelled cs"
  by (cases "i < length cs") (simp_all add: cancelled_def map_update list_update_same_conv list_update_beyond)

lemma cancelled_wake [simp]: "cancelled (wake who reply cs) = cancelled cs"
proof -
  have "continue c a \<noteq> Cancelled" for c a using continue_cases [of c a] by auto
  then show ?thesis by (auto simp: wake_def cancelled_update split: option.split prod.split handler.split)
qed

lemma progress:
  assumes "adaptor_inv A feed w0 s" and "ad_shutdown s \<noteq> Awaiting" and "ad_loop s \<notin> {Ended, Panicked}"
  shows "\<exists>t. adaptor_step A s t \<and> cancelled (ad_calls t) = cancelled (ad_calls s)"
proof (cases "ad_loop s")
  case (Busy m)
  obtain ev who where m: "m = (ev, who)" by fastforce
  obtain r w' where h: "handle_event A ev (ad_session s) (ad_world s) = (r, w')" by fastforce
  show ?thesis
  proof (cases r)
    case None
    then show ?thesis using panicked [of s ev who A w'] Busy m h by fastforce
  next
    case (Some p)
    then show ?thesis using handled [of s ev who A "fst p" "snd p" w'] Busy m h by fastforce
  qed
next
  case Idle
  have inv: "phase_inv s" "calls_inv s" using assms(1) by (simp_all add: adaptor_inv_def)
  show ?thesis
  proof (cases "ad_channel s")
    case (Cons m ms)
    then show ?thesis using dequeue [OF Idle Cons, of A] by fastforce
  next
    case Nil
    show ?thesis
    proof (cases "ad_server s")
      case Binding
      then show ?thesis using bind [of s A] by fastforce
    next
      case Serving
      then show ?thesis using drain [OF assms(2) Serving, of A] by fastforce
    next
      case ServerDone
      show ?thesis
      proof (cases "ad_forwarder s = FwdDone")
        case True
        then show ?thesis using loop_ends [OF Idle Nil ServerDone True, of A] by fastforce
      next
        case False
        then show ?thesis
          using abort [of s A] forwarder_aborted [OF _ False, of A] assms(2) ServerDone
          by (cases "ad_shutdown s") fastforce+
      qed
    next
      case Draining
      show ?thesis
      proof (cases "\<forall>(q, h) \<in> set (ad_calls s). \<not> live h")
        case True
        then show ?thesis using server_stops [OF Draining True, of A] by fastforce
      next
        case False
        then obtain i q h where c: "i < length (ad_calls s)" "ad_calls s ! i = (q, h)" "live h"
          by (auto simp: in_set_conv_nth)
        have "call_ok s i q h" using inv(2) Idle c by (force simp: calls_inv_def)
        then obtain cl where cl: "h = Sending cl"
          using c(3) Idle Nil live_resumed by (auto simp: call_ok_def in_flight_def Let_def)
        then show ?thesis
          using send [OF c(1), of q cl A] c(2) Idle Nil cancelled_update [OF c(2), of "Waiting cl" q]
          by (fastforce simp: CHANNEL_CAPACITY_def)
      qed
    qed
  qed
qed (use assms(3) in auto)

lemma calls_grow: "adaptor_step A s t \<Longrightarrow> length (ad_calls s) \<le> length (ad_calls t)"
  by (cases rule: adaptor_stepE) auto

text \<open>
  C14: After the shutdown signal the adaptor cannot hang: as long as its event loop has neither ended
  nor panicked, one of its tasks can take a step, whatever calls, messages and lock events are on
  their way and without a client joining or giving up; and a run that no further call joins has at
  most as many steps as there is work left. So every such run comes to the end of the loop.
\<close>
theorem shutdown_terminates:
  assumes "reached A feed w0 s" and "ad_shutdown s \<noteq> Awaiting"
  shows "(ad_loop s \<in> {Ended, Panicked} \<or> (\<exists>t. adaptor_step A s t \<and> cancelled (ad_calls t) = cancelled (ad_calls s))) \<and>
     (\<forall>n t. (adaptor_step A ^^ n) s t \<and> length (ad_calls t) = length (ad_calls s) \<longrightarrow> n \<le> work_left s)"
  using progress [OF reached_inv [OF assms(1)] assms(2)] adaptor_run.run_bound [of _ A s] by fastforce

text \<open>The session of the running adaptor is the one that is open with the operator.\<close>

lemma reached_session_follows_operator:
  assumes "reached (real_adaptor oc W vehicle_id zone_id) feed t s" and "ad_loop s \<noteq> Panicked"
  shows "\<exists>cs. confirmed_calls oc (ad_world s) = confirmed_calls oc t @ cs \<and>
     replay None cs = Some (open_id (ad_session s))"
proof -
  have "run_event_loop (real_adaptor oc W vehicle_id zone_id) (handled_events s) t =
      (loop_replies s, Some (ad_session s), ad_world s)"
    using reached_inv [OF assms(1)] assms(2) by (simp add: adaptor_inv_def loop_inv_def)
  then have "real_parking.run_effect oc W vehicle_id zone_id None t (Some (ad_session s)) (ad_world s)"
    by (intro real_parking.loop_effect) (simp_all add: run_event_loop_def session_new_def)
  then show ?thesis by (auto simp: real_parking.run_effect_def)
qed

section \<open>Runs\<close>

text \<open>A call to GetStatus, and a shutdown while it waits for its reply.\<close>

lemma status_call_and_shutdown:
  "\<exists>s0 s1 s2 a. reached (mock_adaptor v z) [] m s0 \<and> ad_loop s0 = Idle \<and> ad_shutdown s0 = Signalled \<and>
     ad_calls s0 = [(StatusRpc, Waiting CallStatus)] \<and>
     reached (mock_adaptor v z) [] m s1 \<and> ad_loop s1 = Idle \<and> ad_calls s1 = [(StatusRpc, Finished a)] \<and>
     reached (mock_adaptor v z) [] m s2 \<and> ad_loop s2 = Ended \<and> ad_shutdown s2 = ShutDone \<and>
     handled_events s2 = [QueryStatus]"
proof -
  let ?A = "mock_adaptor v z"
  define s0 where "s0 = adaptor_init [] False m"
  define s1 where "s1 = s0\<lparr>ad_server := Serving\<rparr>"
  define s2 where "s2 = s1\<lparr>ad_calls := [(StatusRpc, Sending CallStatus)]\<rparr>"
  define s3 where "s3 = s2\<lparr>ad_calls := [(StatusRpc, Waiting CallStatus)], ad_channel := [(QueryStatus, Some 0)]\<rparr>"
  define s6 where "s6 = s3\<lparr>ad_shutdown := Signalled\<rparr>"
  define s4 where "s4 = s6\<lparr>ad_loop := Busy (QueryStatus, Some 0), ad_channel := []\<rparr>"
  define s5 where "s5 = s4\<lparr>ad_loop := Idle, ad_session := None, ad_world := m,
    ad_calls := wake (Some 0) (StatusReply None) (ad_calls s4),
    ad_log := [((QueryStatus, Some 0), StatusReply None)]\<rparr>"
  define s7 where "s7 = s5\<lparr>ad_server := Draining\<rparr>"
  define s8 where "s8 = s7\<lparr>ad_server := ServerDone\<rparr>"
  define s9 where "s9 = s8\<lparr>ad_shutdown := ShutDone\<rparr>"
  define s10 where "s10 = s9\<lparr>ad_forwarder := FwdDone\<rparr>"
  define s11 where "s11 = s10\<lparr>ad_loop := Ended\<rparr>"
  note defs = s0_def s1_def s2_def s3_def s4_def s5_def s6_def s7_def s8_def s9_def s10_def s11_def
    adaptor_init_def session_new_def
  have r0: "reached ?A [] m s0" unfolding s0_def by (rule reached_start)
  have r1: "reached ?A [] m s1" by (rule reached_step [OF r0], unfold s1_def, rule bind) (simp add: defs)
  have r2: "reached ?A [] m s2"
    using reached_step [OF r1 arrive [of s1 ?A StatusRpc]] by (simp add: defs)
  have r3: "reached ?A [] m s3"
    using reached_step [OF r2 send [of 0 s2 StatusRpc CallStatus ?A]] by (simp add: defs CHANNEL_CAPACITY_def)
  have r6: "reached ?A [] m s6" by (rule reached_step [OF r3], unfold s6_def, rule signal) (simp add: defs)
  have r4: "reached ?A [] m s4"
    using reached_step [OF r6 dequeue [of s6 "(QueryStatus, Some 0)" "[]" ?A]] by (simp add: defs)
  have r5: "reached ?A [] m s5"
    using reached_step [OF r4 handled [of s4 QueryStatus "Some 0" ?A "StatusReply None" None m]]
    by (simp add: defs session_status_def)
  have r7: "reached ?A [] m s7" by (rule reached_step [OF r5], unfold s7_def, rule drain) (simp_all add: defs)
  have r8: "reached ?A [] m s8"
    by (rule reached_step [OF r7], unfold s8_def, rule server_stops) (simp_all add: defs wake_def)
  have r9: "reached ?A [] m s9" by (rule reached_step [OF r8], unfold s9_def, rule abort) (simp_all add: defs)
  have r10: "reached ?A [] m s10"
    by (rule reached_step [OF r9], unfold s10_def, rule forwarder_aborted) (simp_all add: defs)
  have r11: "reached ?A [] m s11"
    by (rule reached_step [OF r10], unfold s11_def, rule loop_ends) (simp_all add: defs)
  show ?thesis
    by (rule exI [of _ s6], rule exI [of _ s5], rule exI [of _ s11]) (use r6 r5 r11 in \<open>simp add: defs wake_def handled_events_def\<close>)
qed

lemma adaptor_is_sequential_witness:
  "\<exists>s. ad_loop s = Ended \<and>
     run_event_loop (mock_adaptor ''V'' ''z'') (handled_events s) mock_parking_new =
       (loop_replies s, Some (ad_session s), ad_world s)"
proof -
  obtain s1 s2 where "reached (mock_adaptor ''V'' ''z'') [] mock_parking_new s2" "ad_loop s2 = Ended"
    using status_call_and_shutdown by blast
  then show ?thesis using adaptor_is_sequential by (metis loop_state.distinct(11))
qed

lemma answers_come_from_the_loop_witness:
  "\<exists>s a. reached (mock_adaptor ''V'' ''z'') [] mock_parking_new s \<and>
     resume (Sending CallStatus) (replies_to 0 (ad_log s)) = Finished a \<and> \<not> is_internal a"
proof -
  obtain s a where s: "reached (mock_adaptor ''V'' ''z'') [] mock_parking_new s" "ad_loop s = Idle"
    "ad_calls s = [(StatusRpc, Finished a)]"
    using status_call_and_shutdown by blast
  then show ?thesis using answers_come_from_the_loop [OF s(1), of 0 StatusRpc a] by auto
qed

lemma shutdown_terminates_witness:
  "\<exists>s t. ad_calls s = [(StatusRpc, Waiting CallStatus)] \<and> ad_shutdown s = Signalled \<and>
     adaptor_step (mock_adaptor ''V'' ''z'') s t \<and> cancelled (ad_calls t) = [False]"
proof -
  obtain s where s: "reached (mock_adaptor ''V'' ''z'') [] mock_parking_new s" "ad_shutdown s = Signalled"
    "ad_loop s = Idle" "ad_calls s = [(StatusRpc, Waiting CallStatus)]"
    using status_call_and_shutdown by blast
  then obtain t where "adaptor_step (mock_adaptor ''V'' ''z'') s t" "cancelled (ad_calls t) = cancelled (ad_calls s)"
    using shutdown_terminates [OF s(1)] by auto
  moreover have "cancelled (ad_calls s) = [False]" using s(4) by (simp add: cancelled_def)
  ultimately show ?thesis using s by metis
qed

section \<open>An end that nobody asked for\<close>

text \<open>
  Messages without a call are lock events; and as long as no shutdown is asked for, the server can be
  done only because it never served a call, and the forwarder only because the subscription has ended.
\<close>

definition unasked_inv :: "'w adaptor_system \<Rightarrow> bool" where
  "unasked_inv s =
     ((\<forall>(ev, who) \<in> set (map fst (ad_log s) @ in_flight s). who = None \<longrightarrow> (\<exists>b. ev = LockChanged b)) \<and>
      (ad_shutdown s = Awaiting \<longrightarrow>
         (ad_server s = ServerDone \<longrightarrow> ad_calls s = []) \<and>
         (ad_forwarder s = FwdDone \<and> ad_loop s \<noteq> Panicked \<longrightarrow> ad_feed s = [] \<and> ad_feed_ends s)))"

lemma step_unasked_inv:
  assumes "adaptor_step A s t" and "unasked_inv s" and "phase_inv s"
  shows "unasked_inv t"
  using assms(1)
proof cases
  case bind_fails
  then show ?thesis using assms(2,3) by (auto simp: unasked_inv_def phase_inv_def in_flight_def)
next
  case (handled ev who reply session' w')
  moreover have "wake who reply [] = []" by (simp add: wake_def split: option.split)
  ultimately show ?thesis using assms(2) by (auto simp: unasked_inv_def in_flight_def)
next
  case (forward_fails b)
  then show ?thesis using assms(2,3) by (auto simp: unasked_inv_def phase_inv_def in_flight_def)
next
  case server_stops
  then show ?thesis using assms(2,3) by (auto simp: unasked_inv_def phase_inv_def in_flight_def)
qed (use assms(2) in \<open>auto simp: unasked_inv_def in_flight_def split: loop_state.splits\<close>)

lemma reached_unasked: "reached A feed w0 s \<Longrightarrow> unasked_inv s"
proof -
  have "(adaptor_step A)\<^sup>*\<^sup>* (adaptor_init feed ends w0) s \<Longrightarrow> unasked_inv s \<and> reached A feed w0 s" for ends
  proof (induction rule: rtranclp_induct)
    case base
    show ?case using reached_start [of A feed w0 ends]
      by (simp add: unasked_inv_def adaptor_init_def in_flight_def)
  next
    case (step t u)
    then show ?case using step_unasked_inv reached_inv reached_step by (metis adaptor_inv_def)
  qed
  then show "reached A feed w0 s \<Longrightarrow> unasked_inv s" unfolding reached_def by blast
qed

lemma ends_unasked: "\<exists>s. reached A [] w0 s \<and> ad_loop s = Ended \<and> ad_shutdown s = Awaiting"
proof -
  define s0 where "s0 = adaptor_init [] True w0"
  define s1 where "s1 = s0\<lparr>ad_server := ServerDone\<rparr>"
  define s2 where "s2 = s1\<lparr>ad_forwarder := FwdDone\<rparr>"
  define s3 where "s3 = s2\<lparr>ad_loop := Ended\<rparr>"
  note defs = s0_def s1_def s2_def s3_def adaptor_init_def
  have r0: "reached A [] w0 s0" unfolding s0_def by (rule reached_start)
  have r1: "reached A [] w0 s1" by (rule reached_step [OF r0], unfold s1_def, rule bind_fails) (simp add: defs)
  have r2: "reached A [] w0 s2" by (rule reached_step [OF r1], unfold s2_def, rule feed_end) (simp_all add: defs)
  have r3: "reached A [] w0 s3" by (rule reached_step [OF r2], unfold s3_def, rule loop_ends) (simp_all add: defs)
  then show ?thesis by (intro exI [of _ s3]) (simp add: defs)
qed

lemma unasked_end:
  assumes "reached A feed w0 s" and "ad_loop s = Ended" and "ad_shutdown s = Awaiting"
  shows "ad_server s = ServerDone \<and> ad_calls s = [] \<and> ad_feed s = [] \<and> ad_feed_ends s \<and>
     handled_events s = map LockChanged feed \<and>
     run_event_loop A (map LockChanged feed) w0 = (loop_replies s, Some (ad_session s), ad_world s)"
proof -
  note inv = reached_inv [OF assms(1)] and un = reached_unasked [OF assms(1)]
  have p: "ad_server s = ServerDone" "ad_forwarder s = FwdDone" "ad_channel s = []"
    using inv assms(2) by (auto simp: adaptor_inv_def phase_inv_def)
  then have c: "ad_calls s = []" "ad_feed s = []" "ad_feed_ends s" using un assms(2,3) by (auto simp: unasked_inv_def)
  have fl: "in_flight s = []" using p assms(2) by (simp add: in_flight_def)
  have "\<exists>b. ev = LockChanged b" if "((ev, who), r) \<in> set (ad_log s)" for ev who r
  proof (cases who)
    case None
    have "(ev, who) \<in> set (map fst (ad_log s) @ in_flight s)" using imageI [OF that, of fst] by simp
    moreover have "\<forall>(ev, who) \<in> set (map fst (ad_log s) @ in_flight s). who = None \<longrightarrow> (\<exists>b. ev = LockChanged b)"
      using un unfolding unasked_inv_def by blast
    ultimately show ?thesis using None by blast
  next
    case (Some i)
    then have "r \<in> set (replies_to i (ad_log s))" using that by (force simp: replies_to_def)
    then show ?thesis using inv assms(2) c(1) by (simp add: adaptor_inv_def calls_inv_def)
  qed
  then have "\<forall>ev \<in> set (handled_events s). \<exists>b. ev = LockChanged b" by (auto simp: handled_events_def)
  moreover have "\<forall>ev \<in> set evs. \<exists>b. ev = LockChanged b \<Longrightarrow> evs = map LockChanged (lock_values evs)" for evs
    by (induction evs) auto
  moreover have "lock_values (handled_events s) = feed"
  proof -
    have "feed_inv feed s" using inv by (simp add: adaptor_inv_def)
    then show ?thesis by (simp add: feed_inv_def assms(2,3) p c fl)
  qed
  ultimately have h: "handled_events s = map LockChanged feed" by metis
  then show ?thesis using p c inv assms(2) by (simp add: adaptor_inv_def loop_inv_def)
qed

text \<open>
  C37: The adaptor can end, with success, although nobody has asked for a shutdown: some run does so
  without a single event. And whenever its event loop has ended without a shutdown, this is what has
  happened: the server is done without having taken any call, which is how it is after its port could
  not be bound (an error that is only logged), the subscription of the lock signal has ended, and the
  loop has handled every value of that subscription and nothing else, and has not panicked.
\<close>
theorem adaptor_can_end_unasked:
  "(\<exists>s. reached A [] w0 s \<and> ad_loop s = Ended \<and> ad_shutdown s = Awaiting) \<and>
   (\<forall>s. reached A feed w0 s \<and> ad_loop s = Ended \<and> ad_shutdown s = Awaiting \<longrightarrow>
      ad_server s = ServerDone \<and> ad_calls s = [] \<and> ad_feed s = [] \<and> ad_feed_ends s \<and>
      handled_events s = map LockChanged feed \<and>
      run_event_loop A (map LockChanged feed) w0 = (loop_replies s, Some (ad_session s), ad_world s))"
  by (rule conjI [OF ends_unasked], intro allI impI, elim conjE, rule unasked_end; assumption)

lemma adaptor_can_end_unasked_witness:
  "\<exists>s. reached (mock_adaptor ''V'' ''z'') [] mock_parking_new s \<and> ad_loop s = Ended \<and> ad_calls s = [] \<and>
     ad_server s = ServerDone \<and> ad_feed_ends s"
  using adaptor_can_end_unasked [of "mock_adaptor ''V'' ''z''" mock_parking_new "[]"] by blast

end
