(* ===== verification/Lock_Session.thy ===== *)
theory Lock_Session
  imports System Parking_System
begin

text \<open>
  From the lock to the parking session, with the adaptor as its interleaved tasks: what the events
  that its loop has handled ask for, that the session is what was asked for last, and when the reply of
  StartSession is out of date.
\<close>

section \<open>What the events ask for\<close>

fun asks :: "session_event \<Rightarrow> bool option" where
  "asks (LockChanged is_locked) = Some is_locked"
| "asks (ManualStart z) = Some True"
| "asks ManualStop = Some False"
| "asks _ = None"

definition wanted :: "session_event list \<Rightarrow> bool" where
  "wanted evs = fold (\<lambda>ev b. case asks ev of None \<Rightarrow> b | Some c \<Rightarrow> c) evs False"

text \<open>A manual request overrides the lock until the next lock event.\<close>

fun overrides :: "session_event \<Rightarrow> bool \<Rightarrow> bool" where
  "overrides (LockChanged is_locked) b = False"
| "overrides (ManualStart z) b = True"
| "overrides ManualStop b = True"
| "overrides _ b = b"

definition overridden :: "session_event list \<Rightarrow> bool" where
  "overridden evs = fold overrides evs False"

lemma wanted_of_locks: "\<not> overridden evs \<Longrightarrow> wanted evs = last (False # lock_values evs)"
proof (induction evs rule: rev_induct)
  case (snoc ev evs)
  then show ?case by (cases ev) (simp_all add: wanted_def overridden_def)
qed (simp add: wanted_def)

section \<open>The loop does what is asked for\<close>

lemma handle_follows:
  assumes "operator_confirms A"
  shows "\<exists>r s' w'. handle_event A ev s w = (Some (r, s'), w') \<and>
     is_active s' = (case asks ev of None \<Rightarrow> is_active s | Some b \<Rightarrow> b)"
proof (cases ev)
  case (LockChanged b)
  then show ?thesis using lock_event_follows [OF assms, of "pa_zone_id A" b s w] by auto
next
  case (ManualStart z)
  obtain r w1 where "op_start_session (pa_operator A) (pa_vehicle_id A) z w = (Some (Inr r), w1)"
    using assms unfolding operator_confirms_def by (metis prod.collapse)
  then show ?thesis using ManualStart
    by (cases s) (auto simp: process_manual_start_def session_start_def session_status_def Let_def split: prod.split)
next
  case ManualStop
  show ?thesis
  proof (cases "is_active s")
    case True
    then obtain x where x: "s = Some x" "ss_active x" by (cases s) auto
    obtain r w1 where "op_stop_session (pa_operator A) (ss_session_id x) w = (Some (Inr r), w1)"
      using assms unfolding operator_confirms_def by (metis prod.collapse)
    then show ?thesis using ManualStop x
      by (auto simp: process_manual_stop_def session_stop_def session_status_def split: prod.split)
  qed (simp add: ManualStop process_manual_stop_def)
qed auto

lemma loop_follows:
  assumes "operator_confirms A"
  shows "\<exists>rs s' w'. run_event_loop A evs w = (rs, Some s', w') \<and> is_active s' = wanted evs"
proof (induction evs rule: rev_induct)
  case Nil
  show ?case by (simp add: run_event_loop_def session_new_def wanted_def)
next
  case (snoc ev evs)
  then obtain rs s1 w1 where 1: "run_event_loop A evs w = (rs, Some s1, w1)" "is_active s1 = wanted evs" by blast
  obtain r s2 w2 where "handle_event A ev s1 w1 = (Some (r, s2), w2)"
    "is_active s2 = (case asks ev of None \<Rightarrow> is_active s1 | Some b \<Rightarrow> b)"
    using handle_follows [OF assms] by blast
  with 1 show ?case by (simp add: run_event_loop_def event_loop_append wanted_def split: option.split)
qed

lemma reached_wanted:
  assumes "operator_confirms A" and "reached A feed w s"
  shows "ad_loop s \<noteq> Panicked \<and> is_active (ad_session s) = wanted (handled_events s)"
proof -
  have inv: "loop_inv A w s" using reached_inv [OF assms(2)] by (simp add: adaptor_inv_def)
  have "ad_loop s \<noteq> Panicked"
  proof
    assume "ad_loop s = Panicked"
    then obtain ev where "run_event_loop A (handled_events s @ [ev]) w = (loop_replies s, None, ad_world s)"
      using inv by (auto simp: loop_inv_def)
    with loop_follows [OF assms(1), of "handled_events s @ [ev]" w] show False by simp
  qed
  with inv loop_follows [OF assms(1), of "handled_events s" w] show ?thesis by (auto simp: loop_inv_def)
qed

section \<open>The session follows the door\<close>

text \<open>
  C5: When the operator confirms every request, then, under every interleaving of the adaptor's tasks
  and whatever lock values reach it, the loop does not panic and a session is active exactly when the
  last event that it has handled and that asks for or against a session asked for one. So when the
  locking service is connected and DATA_BROKER takes its writes of the lock signal, a session is active
  exactly when the door is locked, as soon as the adaptor has handled the newest value that DATA_BROKER
  has accepted for the signal and no manual request after it, whichever older values it has missed.
\<close>
theorem session_follows_door_and_driver:
  assumes "is_ok (fst (connect W (get_databroker_addr W) t))" and "takes_lock_writes W"
    and "operator_confirms A" and "run cd W polls t = (res, l', t')" and "reached A feed w s"
  shows "ad_loop s \<noteq> Panicked \<and> is_active (ad_session s) = wanted (handled_events s) \<and>
     (lock_values (handled_events s) \<noteq> [] \<and>
      last_on SIGNAL_IS_LOCKED (accepted_bools t') = Some (last (lock_values (handled_events s))) \<and>
      \<not> overridden (handled_events s) \<longrightarrow> is_active (ad_session s) = l')"
proof -
  have "last_on SIGNAL_IS_LOCKED (accepted_bools t') = Some l'"
    using run_signal [OF assms(1,2), of cd polls] assms(4) by simp
  then show ?thesis using reached_wanted [OF assms(3,5)] wanted_of_locks [of "handled_events s"] by auto
qed

section \<open>A reply that is out of date\<close>

text \<open>A session that the loop keeps is an active one.\<close>

definition no_idle_session :: "session \<Rightarrow> bool" where
  "no_idle_session s = (case s of None \<Rightarrow> True | Some x \<Rightarrow> ss_active x)"

lemma handle_keeps_active:
  "handle_event A ev s w = (Some (r, s'), w') \<Longrightarrow> no_idle_session s \<Longrightarrow> no_idle_session s'"
  by (cases ev)
    (auto simp: no_idle_session_def process_lock_event_def process_manual_start_def process_manual_stop_def session_start_def
      session_stop_def Let_def split: if_splits prod.splits option.splits sum.splits)

lemma loop_keeps_active:
  "event_loop A evs s w = (rs, Some s', w') \<Longrightarrow> no_idle_session s \<Longrightarrow> no_idle_session s'"
proof (induction evs arbitrary: rs s' w' rule: rev_induct)
  case (snoc ev evs)
  then show ?case using handle_keeps_active
    by (auto simp: event_loop_append split: prod.splits option.splits)
qed simp

text \<open>
  C35: StartSession asks the event loop twice: for the start and, once that is confirmed, for the
  session. With an operator that confirms every request, whichever events come before the start and
  between the two: when the last of them that asks for or against a session asked against one, an
  unlock event, say, the call is answered that a session is active, with the id of the start and start
  time 0, although no session is left.
\<close>
theorem start_reply_can_be_stale:
  assumes "operator_confirms A"
    and "run_event_loop A (before @ ManualStart z # between @ [QueryStatus]) w = (replies, Some s, w')"
    and "\<not> wanted (before @ ManualStart z # between)"
    and "replies ! length before = StartReply (Inr r)"
  shows "s = None \<and>
     resume (Sending (CallStart z)) [replies ! length before, last replies] =
       Finished (SessionAnswer (Inr \<lparr>si_session_id = sr_session_id r, si_active = True, si_start_time = 0, si_zone_id = z\<rparr>))"
proof -
  let ?evs = "before @ ManualStart z # between"
  obtain rs s1 w1 where 1: "run_event_loop A ?evs w = (rs, Some s1, w1)" "is_active s1 = wanted ?evs"
    using loop_follows [OF assms(1)] by blast
  have split: "before @ ManualStart z # between @ [QueryStatus] = ?evs @ [QueryStatus]" by simp
  have "event_loop A (?evs @ [QueryStatus]) session_new w = (rs @ [StatusReply s1], Some s1, w1)"
    unfolding event_loop_append using 1(1) by (simp add: run_event_loop_def session_status_def)
  then have r: "replies = rs @ [StatusReply s1]" "s = s1"
    using assms(2) unfolding split run_event_loop_def by (metis prod.inject option.inject)+
  have "no_idle_session s1"
    using 1(1) loop_keeps_active [of A ?evs None w rs s1 w1]
    by (simp add: run_event_loop_def session_new_def no_idle_session_def)
  then have "s1 = None" using 1(2) assms(3) by (cases s1) (auto simp: no_idle_session_def)
  then show ?thesis using r assms(4) by (simp add: grpc_start_session_def)
qed

lemma start_reply_can_be_stale_witness:
  "\<exists>replies s w'. run_event_loop willing_operator [ManualStart ''z2'', LockChanged False, QueryStatus] () = (replies, Some None, w') \<and>
     resume (Sending (CallStart ''z2'')) [hd replies, last replies] =
       Finished (SessionAnswer (Inr \<lparr>si_session_id = ''s'', si_active = True, si_start_time = 0, si_zone_id = ''z2''\<rparr>))"
proof -
  have c: "operator_confirms willing_operator" by (simp add: operator_confirms_def willing_operator_def)
  obtain resp st where "run_event_loop willing_operator ([] @ ManualStart ''z2'' # [LockChanged False] @ [QueryStatus]) () =
      ([StartReply (Inr resp), NoReplyEvent, StatusReply st], Some st, ())" "sr_session_id resp = ''s''"
    by (simp add: run_event_loop_def session_new_def process_manual_start_def process_lock_event_def
      session_status_def session_start_def session_stop_def willing_operator_def Let_def)
  moreover have "\<not> wanted ([] @ ManualStart ''z2'' # [LockChanged False])" by (simp add: wanted_def)
  ultimately show ?thesis using start_reply_can_be_stale [OF c] by fastforce
qed

section \<open>A run\<close>

lemma lock_values_map [simp]: "lock_values (map LockChanged bs) = bs"
  by (induction bs) simp_all

lemma locks_do_not_override [simp]: "\<not> overridden (map LockChanged bs)"
  by (induction bs rule: rev_induct) (simp_all add: overridden_def)

lemma feed_can_be_handled:
  assumes "operator_confirms A"
  shows "\<lbrakk>reached A feed w s; ad_loop s = Idle; ad_channel s = []; ad_forwarder s = FwdReceiving;
      handled_events s = map LockChanged hs\<rbrakk> \<Longrightarrow>
    \<exists>t. reached A feed w t \<and> handled_events t = map LockChanged (hs @ ad_feed s)"
proof (induction "ad_feed s" arbitrary: s hs)
  case Nil
  then show ?case by auto
next
  case (Cons b bs)
  define s1 where "s1 = s\<lparr>ad_forwarder := FwdSending b, ad_feed := bs\<rparr>"
  define s2 where "s2 = s1\<lparr>ad_forwarder := FwdReceiving, ad_channel := [(LockChanged b, None)]\<rparr>"
  define s3 where "s3 = s2\<lparr>ad_loop := Busy (LockChanged b, None), ad_channel := []\<rparr>"
  obtain r s' w' where h: "handle_event A (LockChanged b) (ad_session s) (ad_world s) = (Some (r, s'), w')"
    using handle_follows [OF assms] by blast
  define s4 where "s4 = s3\<lparr>ad_loop := Idle, ad_session := s', ad_world := w', ad_calls := wake None r (ad_calls s3),
    ad_log := ad_log s3 @ [((LockChanged b, None), r)]\<rparr>"
  note defs = s1_def s2_def s3_def s4_def
  have r1: "reached A feed w s1"
    unfolding s1_def using reached_step [OF Cons.prems(1) receive] Cons.prems Cons.hyps(2) by metis
  have r2: "reached A feed w s2"
    using reached_step [OF r1 forward [of s1 b A]] Cons.prems by (simp add: defs CHANNEL_CAPACITY_def)
  have r3: "reached A feed w s3"
    using reached_step [OF r2 dequeue [of s2 "(LockChanged b, None)" "[]" A]] Cons.prems by (simp add: defs)
  have r4: "reached A feed w s4"
    unfolding s4_def by (rule reached_step [OF r3], rule handled) (use h in \<open>simp_all add: defs\<close>)
  have "handled_events s4 = map LockChanged (hs @ [b])"
    using Cons.prems(5) by (simp add: defs handled_events_def)
  with Cons.hyps(1) [of s4 "hs @ [b]"] r4 Cons.prems(4) show ?case
    by (simp add: defs Cons.hyps(2) [symmetric])
qed

text \<open>The adaptor has missed the initial value of the signal, but not that the door is locked.\<close>

lemma session_follows_door_and_driver_witness:
  "case run tiny_codec calm_world [payload_poll ''lock''] [] of
     (res, l', t') \<Rightarrow> \<exists>s :: unit adaptor_system. is_active (ad_session s) = l' \<and>
       handled_events s = [LockChanged l'] \<and> last_on SIGNAL_IS_LOCKED (accepted_bools t') = Some l'"
proof -
  obtain res l' t' where r: "run tiny_codec calm_world [payload_poll ''lock''] [] = (res, l', t')"
    by (metis prod_cases3)
  have c: "operator_confirms willing_operator" by (simp add: operator_confirms_def willing_operator_def)
  obtain s where s: "reached willing_operator [l'] () s" "handled_events s = map LockChanged [l']"
    using feed_can_be_handled [OF c reached_start, of "[l']" False "()" "[]"]
    by (auto simp: adaptor_init_def handled_events_def)
  have W: "is_ok (fst (connect calm_world (get_databroker_addr calm_world) []))" "takes_lock_writes calm_world"
    by (simp add: calm_connect, simp add: takes_lock_writes_def calm_world_def)
  have n: "last_on SIGNAL_IS_LOCKED (accepted_bools t') = Some l'"
    using run_signal [OF W, of tiny_codec "[payload_poll ''lock'']"] r by simp
  have "\<not> overridden (handled_events s)" "lock_values (handled_events s) = [l']"
    using s(2) by (simp_all only: locks_do_not_override lock_values_map not_False_eq_True)
  with session_follows_door_and_driver [OF W c r s(1)] n have "is_active (ad_session s) = l'"
    by (metis last_ConsL list.distinct(1))
  then show ?thesis unfolding r prod.case using s(2) n by auto
qed

end
