(* ===== verification/Json_Codec.thy ===== *)
theory Json_Codec
  imports Lock_Process
begin

text \<open>
  What the services rely on when one of them parses the JSON text that another one printed:
  \<open>serde_json\<close> reads a message back as the value it was printed from. The hypothesis is stated for
  the responses of the locking service, and shown to be satisfiable by a small codec.
\<close>

definition responses_read_back :: "(json \<Rightarrow> string) \<Rightarrow> (string \<Rightarrow> serde_error + json) \<Rightarrow> bool" where
  "responses_read_back ser de \<longleftrightarrow> (\<forall>r. de (ser (response_json r)) = Inr (response_json r))"

lemma read_back: "responses_read_back ser de \<Longrightarrow> de (ser (response_json r)) = Inr (response_json r)"
  by (simp add: responses_read_back_def)

text \<open>
  How the tests look at a response: \<open>from_str(&s).unwrap()\<close> and then the value, \<open>v[k]\<close>, which is
  null for a key that is missing, and \<open>as_i64\<close>.
\<close>

definition parsed :: "(string \<Rightarrow> serde_error + json) \<Rightarrow> string \<Rightarrow> (json \<Rightarrow> bool) \<Rightarrow> bool" where
  "parsed de s check = (case de s of Inr v \<Rightarrow> check v | Inl _ \<Rightarrow> False)"

definition field :: "json \<Rightarrow> string \<Rightarrow> json" where
  "field v k = unwrap_or JNull (json_get v k)"

fun as_i64 :: "json \<Rightarrow> int option" where
  "as_i64 (JInt i) = (if - (2 ^ 63) \<le> i \<and> i < 2 ^ 63 then Some i else None)"
| "as_i64 _ = None"

lemma as_i64_timestamp [simp]: "as_i64 (JInt (sint (w :: 64 word))) = Some (sint w)"
  using sint_ge [of w] sint_lt [of w] by simp

declare as_i64.simps [simp del]

lemma field_response [simp]:
  "field (response_json r) ''command_id'' = JStr (cr_command_id r)"
  "field (response_json r) ''status'' = JStr (cr_status r)"
  "field (response_json r) ''reason'' = (case cr_reason r of None \<Rightarrow> JNull | Some x \<Rightarrow> JStr x)"
  "field (response_json r) ''timestamp'' = JInt (sint (cr_timestamp r))"
  by (cases "cr_reason r"; simp add: field_def response_json_def)+

lemma parsed_response [simp]:
  "responses_read_back ser de \<Longrightarrow> parsed de (ser (response_json r)) check \<longleftrightarrow> check (response_json r)"
  by (simp add: parsed_def read_back)

text \<open>A clock that never reads a time before 1970, where the services panic.\<close>

definition running_clock :: "('w \<Rightarrow> 64 word option) \<Rightarrow> bool" where
  "running_clock clk \<longleftrightarrow> (\<forall>w. case clk w of None \<Rightarrow> False | Some s \<Rightarrow> 0 < sint s)"

lemma running_clockE:
  assumes "running_clock clk"
  obtains s where "clk w = Some s" "0 < sint s"
  using assms by (auto simp: running_clock_def split: option.splits)

section \<open>A codec that reads back\<close>

text \<open>A string is written with a point before each byte and closed by a semicolon.\<close>

fun quote :: "string \<Rightarrow> string" where
  "quote [] = '';''"
| "quote (c # cs) = CHR ''.'' # c # quote cs"

fun unquote :: "string \<Rightarrow> string \<times> string" where
  "unquote (x # c # cs) =
     (if x = CHR ''.'' then (case unquote cs of (s, r) \<Rightarrow> (c # s, r)) else ([], c # cs))"
| "unquote _ = ([], [])"

lemma unquote_quote [simp]: "unquote (quote s @ r) = (s, r)"
proof (induction s)
  case Nil
  show ?case by (cases r) simp_all
qed simp

fun ser_field :: "json \<Rightarrow> string" where
  "ser_field (JStr s) = CHR ''s'' # quote s"
| "ser_field (JInt i) = (if i < 0 then CHR ''m'' # quote (show_nat (nat (- i))) else CHR ''p'' # quote (show_nat (nat i)))"
| "ser_field _ = ''x;''"

fun de_field :: "string \<Rightarrow> json" where
  "de_field (c # s) =
     (if c = CHR ''s'' then JStr s
      else (case parse_unsigned 64 s of
              Inr n \<Rightarrow> JInt (if c = CHR ''m'' then - int n else int n)
            | Inl _ \<Rightarrow> JNull))"
| "de_field [] = JNull"

fun simple_ser :: "json \<Rightarrow> string" where
  "simple_ser (JObj fs) = concat (map (\<lambda>(k, v). quote k @ ser_field v) fs)"
| "simple_ser _ = []"

text \<open>An object of at most \<open>n\<close> fields.\<close>

fun de_fields :: "nat \<Rightarrow> string \<Rightarrow> (string \<times> json) list" where
  "de_fields (Suc n) (c # s) =
     (case unquote (c # s) of
        (k, kind # r) \<Rightarrow> (case unquote r of (x, r') \<Rightarrow> (k, de_field (kind # x)) # de_fields n r')
      | (k, []) \<Rightarrow> [])"
| "de_fields _ _ = []"

definition simple_de :: "string \<Rightarrow> serde_error + json" where
  "simple_de s = Inr (JObj (de_fields 4 s))"

lemma quote_not_Nil [simp]: "quote s \<noteq> []"
  by (cases s) auto

lemma de_fields_step:
  "unquote s = (k, kind # r) \<Longrightarrow> unquote r = (x, r') \<Longrightarrow>
     de_fields (Suc n) s = (k, de_field (kind # x)) # de_fields n r'"
  by (cases s) auto

lemma de_fields_quoted:
  "de_fields (Suc n) (quote k @ kind # quote s @ r) = (k, de_field (kind # s)) # de_fields n r"
  by (rule de_fields_step [OF unquote_quote unquote_quote])

lemma de_fields_int:
  assumes "- (2 ^ 63) \<le> i" "i < 2 ^ 63"
  shows "de_fields (Suc n) (quote k @ ser_field (JInt i) @ r) = (k, JInt i) # de_fields n r"
proof -
  have "nat i < 2 ^ 64" "nat (- i) < 2 ^ 64" using assms by simp_all
  then show ?thesis
    using parse_unsigned_show [of "nat i" 64] parse_unsigned_show [of "nat (- i)" 64]
    by (simp add: de_fields_quoted)
qed

lemma simple_codec_reads_back: "responses_read_back simple_ser simple_de"
proof -
  have "simple_de (simple_ser (response_json r)) = Inr (response_json r)" for r
  proof -
    have b: "- (2 ^ 63) \<le> sint (cr_timestamp r)" "sint (cr_timestamp r) < 2 ^ 63"
      using sint_ge [of "cr_timestamp r"] sint_lt [of "cr_timestamp r"] by simp_all
    have ts: "de_fields (Suc n) (quote k @ ser_field (JInt (sint (cr_timestamp r)))) =
        [(k, JInt (sint (cr_timestamp r)))]" for n k
      using de_fields_int [OF b, of n k "[]"] by simp
    show ?thesis
      by (cases "cr_reason r")
        (simp_all add: simple_de_def response_json_def de_fields_quoted ts numeral_eq_Suc
          del: ser_field.simps(2) quote.simps de_fields.simps)
  qed
  then show ?thesis by (simp add: responses_read_back_def)
qed

end
