(* ===== verification/Cloud_Answers.thy ===== *)
theory Cloud_Answers
  imports System Json_Codec
begin

text \<open>
  The way back: what the locking service answers to the commands of a run, through DATA_BROKER and
  the gateway to the cloud.
\<close>

section \<open>The answers of the locking service\<close>

definition answered_ids :: "lock_codec \<Rightarrow> poll list \<Rightarrow> string list" where
  "answered_ids cd polls = List.map_filter (answer_id cd) (payloads polls)"

text \<open>
  The responses that the service tries to publish are those to the payloads it has read, in order;
  none is missing while the service runs.
\<close>

lemma serve_answers:
  "serve_loop cd W ps l n t = (res, l', n', t') \<Longrightarrow>
     \<exists>ids rs. attempted_strings t' = attempted_strings t @ map (Pair SIGNAL_RESPONSE) rs \<and>
       subseq ids (answered_ids cd ps) \<and> list_all2 (answer_to (lk_ser cd)) ids rs \<and>
       (res = Serving \<longrightarrow> ids = answered_ids cd ps)"
proof (induction ps arbitrary: l n t)
  case Nil
  then show ?case by (simp add: answered_ids_def List.map_filter_def)
next
  case (Cons p ps)
  consider x where "rx_ready p = Some (Payload x)" | "rx_ready p = Some StreamEnded" | "rx_ready p = None"
    by (metis not_None_eq recv.exhaust)
  then show ?case
  proof cases
    case 1
    let ?i = "case answer_id cd x of None \<Rightarrow> [] | Some i \<Rightarrow> [i]"
    have ids: "answered_ids cd (p # ps) = ?i @ answered_ids cd ps"
      by (simp add: answered_ids_def 1 List.map_filter_def split: option.split)
    obtain st l1 t1 where h: "handle_command_payload cd W x l t = (st, l1, t1)" by (metis prod_cases3)
    obtain ss where ss: "attempted_strings t1 = attempted_strings t @ map (Pair SIGNAL_RESPONSE) ss"
      "case st of None \<Rightarrow> ss = [] | Some _ \<Rightarrow> list_all2 (answer_to (lk_ser cd)) ?i ss"
      using handle_attempts [OF h] by blast
    show ?thesis
    proof (cases st)
      case None
      then show ?thesis using Cons.prems 1 h ss by (intro exI [of _ "[]"]) auto
    next
      case (Some u)
      obtain ids rs where rs: "attempted_strings t' = attempted_strings t1 @ map (Pair SIGNAL_RESPONSE) rs"
        "subseq ids (answered_ids cd ps)" "list_all2 (answer_to (lk_ser cd)) ids rs"
        "res = Serving \<longrightarrow> ids = answered_ids cd ps"
        using Cons.IH [of l1 0 t1] Cons.prems 1 h Some by auto
      then show ?thesis using ss Some ids
        by (intro exI [of _ "?i @ ids"] exI [of _ "ss @ rs"]) (simp add: list_all2_appendI subseq_append')
    qed
  next
    case 2
    obtain r t1 where s: "subscribe W SIGNAL_COMMAND t = (r, t1)" by fastforce
    then have t1: "attempted_strings t1 = attempted_strings t" by (auto simp: subscribe_def ask_subscribe_def Let_def)
    have ids: "answered_ids cd (p # ps) = answered_ids cd ps" by (simp add: answered_ids_def 2)
    show ?thesis
    proof (cases "n + 1 > max_resubscribe_attempts \<or> \<not> is_ok r")
      case True
      then have "attempted_strings t' = attempted_strings t" "res \<noteq> Serving"
        using Cons.prems 2 s t1 by (cases r; auto split: if_splits)+
      then show ?thesis by (intro exI [of _ "[]"]) simp
    next
      case False
      then have "serve_loop cd W ps l (n + 1) t1 = (res, l', n', t')" using Cons.prems 2 s by (cases r) auto
      from Cons.IH [OF this] show ?thesis by (simp only: t1 ids)
    qed
  next
    case 3
    then have ids: "answered_ids cd (p # ps) = answered_ids cd ps" by (simp add: answered_ids_def)
    show ?thesis
    proof (cases "shutdown_ready p")
      case True
      then show ?thesis using Cons.prems 3 by (intro exI [of _ "[]"]) auto
    next
      case False
      then show ?thesis using Cons.IH [of l n t] Cons.prems 3 by (simp add: ids)
    qed
  qed
qed

lemma connect_attempted: "attempted_strings (snd (connect W addr t)) = attempted_strings t"
proof -
  have body: "attempted_strings (snd (connect_body W addr i u)) = attempted_strings u" for i u
    by (simp add: connect_body_def io_simps Let_def split: sum.split)
  have "attempted_strings (snd (connect_loop W addr is e t)) = attempted_strings t" for "is" e
  proof (induction "is" arbitrary: e t)
    case (Cons i "is")
    show ?case using body [of i t] Cons
      by (cases "connect_body W addr i t"; cases "fst (connect_body W addr i t)") auto
  qed simp
  then show ?thesis by (simp add: connect_def case_prod_beta)
qed

lemma run_answers:
  assumes "run cd W polls [] = (res, l', t')"
  shows "\<exists>ids rs. attempted_strings t' = map (Pair SIGNAL_RESPONSE) rs \<and>
     subseq ids (answered_ids cd polls) \<and> list_all2 (answer_to (lk_ser cd)) ids rs \<and>
     (res = Serving \<longrightarrow> ids = answered_ids cd polls)"
proof -
  obtain r1 t1 where c: "connect W (get_databroker_addr W) [] = (r1, t1)" by fastforce
  have t1: "attempted_strings t1 = []" using connect_attempted [of W "get_databroker_addr W" "[]"] c by simp
  obtain r2 t2 where b: "set_bool (grpc_client W) SIGNAL_IS_LOCKED False t1 = (r2, t2)" by fastforce
  then have t2: "attempted_strings t2 = []" using grpc_attempts(2) [of W SIGNAL_IS_LOCKED False t1] t1 by (simp add: grpc_ops)
  obtain r3 t3 where s: "subscribe W SIGNAL_COMMAND t2 = (r3, t3)" by fastforce
  then have t3: "attempted_strings t3 = []" using t2 by (auto simp: subscribe_def ask_subscribe_def Let_def)
  obtain r4 l4 n4 t4 where v: "serve_loop cd W polls False 0 t3 = (r4, l4, n4, t4)" by (metis prod_cases4)
  consider "res \<noteq> Serving" "t' = t1 \<or> t' = t2 \<or> t' = t3" | "res = r4" "t' = t4"
    using assms c b s v by (cases r1; cases r2; cases r3) (auto simp: run_def)
  then show ?thesis
  proof cases
    case 1
    then show ?thesis using t1 t2 t3 by (intro exI [of _ "[]"]) auto
  next
    case 2
    then show ?thesis using serve_answers [OF v] t3 by simp
  qed
qed

lemma answers_accepted:
  assumes "attempted_strings t = map (Pair SIGNAL_RESPONSE) rs"
  shows "subseq (texts_on SIGNAL_RESPONSE t) rs" and "all_taken t \<Longrightarrow> texts_on SIGNAL_RESPONSE t = rs"
proof -
  have a: "map snd (filter (\<lambda>x. fst x = SIGNAL_RESPONSE) (attempted_strings t)) = rs"
    by (simp add: assms filter_map comp_def)
  show "subseq (texts_on SIGNAL_RESPONSE t) rs"
    unfolding texts_on_def by (subst a [symmetric]) (intro subseq_map subseq_filter accepted_of_attempted)
  show "all_taken t \<Longrightarrow> texts_on SIGNAL_RESPONSE t = rs" by (simp add: texts_on_def accepted_of_attempted(2) a)
qed

section \<open>The subscription of the gateway\<close>

text \<open>
  The gateway's task forwards its items as that of the locking service does, as long as there is
  room for the sends.
\<close>

lemma forward_responses_strings:
  "\<exists>stream. map fst stream = items \<and> forward_responses room items = forward_strings SIGNAL_RESPONSE stream \<and>
     (length items \<le> room \<longrightarrow> list_all snd stream)"
proof -
  have sig: "SIGNAL_RESPONSE_gw = SIGNAL_RESPONSE" by (simp add: SIGNAL_RESPONSE_gw_def SIGNAL_RESPONSE_def)
  show ?thesis
  proof (induction items arbitrary: room)
    case (Cons x items)
    define all where "all = map (\<lambda>i. (i, True)) items"
    then have all: "map fst all = items" "list_all snd all" by (simp_all add: comp_def list_all_iff)
    show ?case
    proof (cases x)
      case (Inl e)
      then show ?thesis using all by (intro exI [of _ "(x, True) # all"]) simp
    next
      case (Inr es)
      show ?thesis
      proof (cases "\<exists>dp s. map_of es SIGNAL_RESPONSE = Some dp \<and> dp_value dp = Some (Some (TString s))")
        case True
        then obtain dp s where v: "map_of es SIGNAL_RESPONSE = Some dp" "dp_value dp = Some (Some (TString s))" by blast
        show ?thesis
        proof (cases room)
          case 0
          then show ?thesis using Inr v all sig by (intro exI [of _ "(x, False) # all"]) simp
        next
          case (Suc room')
          obtain stream where "map fst stream = items" "forward_responses room' items = forward_strings SIGNAL_RESPONSE stream"
            "length items \<le> room' \<longrightarrow> list_all snd stream" using Cons.IH by blast
          then show ?thesis using Inr v Suc sig by (intro exI [of _ "(x, True) # stream"]) simp
        qed
      next
        case False
        obtain stream where st: "map fst stream = items" "forward_responses room items = forward_strings SIGNAL_RESPONSE stream"
          "length items \<le> room \<longrightarrow> list_all snd stream" using Cons.IH by blast
        consider "map_of es SIGNAL_RESPONSE = None" | dp where "map_of es SIGNAL_RESPONSE = Some dp" "dp_value dp = None"
          | dp where "map_of es SIGNAL_RESPONSE = Some dp" "dp_value dp = Some None"
          | dp v where "map_of es SIGNAL_RESPONSE = Some dp" "dp_value dp = Some (Some v)" "\<nexists>s. v = TString s"
          using False by (metis not_None_eq)
        then have "forward_responses room (x # items) = forward_responses room items \<and>
          forward_strings SIGNAL_RESPONSE ((x, True) # stream) = forward_strings SIGNAL_RESPONSE stream"
        proof cases
          case (4 dp v)
          then show ?thesis by (cases v) (simp_all add: Inr sig)
        qed (simp_all add: Inr sig)
        then show ?thesis using st by (intro exI [of _ "(x, True) # stream"]) simp
      qed
    qed
  qed simp
qed

text \<open>
  The messages on the response subject are among the answers that DATA_BROKER has accepted; they are
  all of them when the gateway's subscription misses nothing and its parser reads them back.
\<close>

lemma answers_relayed:
  assumes "responses items = forward_responses room stream" and "delivers SIGNAL_RESPONSE t stream"
  shows "subseq (outbox_on (subject (gc_vin cfg) ''command_responses'') (gw_trace (gateway_tasks gw V cfg items [])))
     (texts_on SIGNAL_RESPONSE t)"
proof -
  obtain st where "map fst st = stream" "responses items = forward_strings SIGNAL_RESPONSE st"
    using forward_responses_strings [of stream room] assms(1) by metis
  then have "subseq (responses items) (texts_on SIGNAL_RESPONSE t)"
    using forward_strings_delivered assms(2) by metis
  then show ?thesis
    by (auto simp: gateway_tasks_def responses.fold_log response_out_all intro: subseq_order.trans [OF subseq_filter_left])
qed

lemma all_answers_relayed:
  assumes "responses items = forward_responses (length stream) stream" and "delivers_all SIGNAL_RESPONSE t stream"
    and "\<forall>s \<in> set (texts_on SIGNAL_RESPONSE t). is_ok (gj_str_value gw s)"
  shows "outbox_on (subject (gc_vin cfg) ''command_responses'') (gw_trace (gateway_tasks gw V cfg items [])) =
     texts_on SIGNAL_RESPONSE t"
proof -
  obtain st where "map fst st = stream" "responses items = forward_strings SIGNAL_RESPONSE st" "list_all snd st"
    using forward_responses_strings [of stream "length stream"] assms(1) by auto
  then have "responses items = texts_on SIGNAL_RESPONSE t"
    using forward_strings_delivered_all assms(2) by metis
  then show ?thesis using assms(3) by (simp add: gateway_tasks_def responses.fold_log response_out_all)
qed

section \<open>From the cloud and back\<close>

text \<open>
  What relates the parsers of the two services, all of them serde_json: both read a text as the same
  JSON value; and a text that the gateway's parser of \<open>CommandPayload\<close> takes and whose action is the
  string \<open>lock\<close> or \<open>unlock\<close> is either read as a \<open>LockCommand\<close> with the same id or refused for its data.
\<close>

definition same_json :: "gateway_codec \<Rightarrow> lock_codec \<Rightarrow> bool" where
  "same_json gw cd \<longleftrightarrow> (\<forall>s. valid_utf8 s \<longrightarrow> gj_slice_value gw s = lk_de_value cd s)"

definition parsers_agree :: "gateway_codec \<Rightarrow> lock_codec \<Rightarrow> bool" where
  "parsers_agree gw cd \<longleftrightarrow>
     (\<forall>s obj i a. valid_utf8 s \<and> gj_slice_value gw s = Inr (JObj obj) \<and> is_ok (gj_slice_payload gw s) \<and>
        map_of obj ''command_id'' = Some (JStr i) \<and> map_of obj ''action'' = Some (JStr a) \<and> a \<in> {''lock'', ''unlock''} \<longrightarrow>
        (case lk_de_cmd cd s of Inl e \<Rightarrow> se_category e = CatData | Inr cmd \<Rightarrow> lc_command_id cmd = i))"

text \<open>The id that the cloud has given to a command.\<close>

definition message_id :: "gateway_codec \<Rightarrow> nats_message \<Rightarrow> string" where
  "message_id gw msg =
     (case gj_slice_value gw (nm_payload msg) of
        Inl e \<Rightarrow> []
      | Inr v \<Rightarrow> (case Option.bind (json_get v ''command_id'') as_str of None \<Rightarrow> [] | Some s \<Rightarrow> s))"

lemma forwarded_is_answered:
  assumes "same_json gw cd" and "parsers_agree gw cd" and "forwardable gw token m"
  shows "answer_id cd (nm_payload m) = Some (message_id gw m)"
proof -
  obtain v where v: "gj_slice_value gw (nm_payload m) = Inr v" "command_object v" "valid_utf8 (nm_payload m)"
    "is_ok (gj_slice_payload gw (nm_payload m))"
    using assms(3) by (auto simp: forwardable_def)
  then obtain obj i a where obj: "v = JObj obj" "map_of obj ''command_id'' = Some (JStr i)" "i \<noteq> []"
    "map_of obj ''action'' = Some (JStr a)" "a \<in> {''lock'', ''unlock''}"
    by (cases v) auto
  have l: "lk_de_value cd (nm_payload m) = Inr (JObj obj)"
    using assms(1) v obj(1) by (auto simp: same_json_def)
  have id: "message_id gw m = i" using v(1) obj by (simp add: message_id_def)
  have "case lk_de_cmd cd (nm_payload m) of Inl e \<Rightarrow> se_category e = CatData | Inr cmd \<Rightarrow> lc_command_id cmd = i"
    using assms(2) v obj unfolding parsers_agree_def by blast
  then show ?thesis
    using l obj by (auto simp: id answer_id_def parse_command_def extract_command_id_def is_syntax_def is_eof_def split: sum.splits)
qed

lemma answered_messages:
  assumes "same_json gw cd" and "parsers_agree gw cd" and "\<forall>m \<in> set ms. forwardable gw token m"
  shows "List.map_filter (answer_id cd) (map nm_payload ms) = map (message_id gw) ms"
  using assms(3)
  by (induction ms) (simp_all add: forwarded_is_answered [OF assms(1,2), where token = token] List.map_filter_simps)

text \<open>
  C6: What the cloud is told about its commands. The locking service gets its commands from one
  subscription, the gateway the responses from another, each of which carries values that DATA_BROKER
  has accepted from the other service, in order but possibly with gaps; and the parsers of the two
  services agree. Then, over every interleaving of the gateway's tasks and whatever DATA_BROKER and the
  clock do, the messages that the gateway hands to NATS on the response subject are responses to
  commands with the right token and a valid payload: in the order of these commands, at most one for
  each, with the id that the cloud gave it. If moreover DATA_BROKER takes all writes, neither
  subscription misses anything or fails, the locking service is running at the end, and the gateway's
  parser reads the texts that the locking service prints, there is exactly one for every such command:
  none that the gateway lets through is dropped in silence by the locking service.
\<close>
theorem cloud_commands_are_answered:
  assumes "same_json gw cd" and "parsers_agree gw cd" and "list_all headers_ok (command_msgs items)"
    and "T = gw_trace (gateway_tasks gw V cfg items [])" and "run cd W polls [] = (res, l', t')"
    and "payloads polls = forward_strings SIGNAL_COMMAND commands" and "delivers SIGNAL_COMMAND T (map fst commands)"
    and "responses items = forward_responses room answers" and "delivers SIGNAL_RESPONSE t' answers"
    and "ms = filter (forwardable gw (gc_bearer_token cfg)) (command_msgs items)"
    and "published = outbox_on (subject (gc_vin cfg) ''command_responses'') T"
  shows "\<exists>answered. subseq answered ms \<and> list_all2 (\<lambda>m s. answer_to (lk_ser cd) (message_id gw m) s) answered published \<and>
     (all_taken T \<and> all_taken t' \<and> delivers_all SIGNAL_COMMAND T (map fst commands) \<and> list_all snd commands \<and>
      delivers_all SIGNAL_RESPONSE t' answers \<and> room = length answers \<and> res = Serving \<and>
      responses_read_back (lk_ser cd) (gj_str_value gw) \<longrightarrow> answered = ms)"
proof -
  obtain ids rs where r: "attempted_strings t' = map (Pair SIGNAL_RESPONSE) rs"
    "subseq ids (answered_ids cd polls)" "list_all2 (answer_to (lk_ser cd)) ids rs"
    "res = Serving \<longrightarrow> ids = answered_ids cd polls"
    using run_answers [OF assms(5)] by blast
  obtain qs where q: "payloads polls = map nm_payload qs" "subseq qs ms"
    using subseq_of_map commands_received [OF assms(3,4,7)] assms(6,10) by metis
  have fwd: "\<forall>m \<in> set qs. forwardable gw (gc_bearer_token cfg) m"
    using subseq_set [OF q(2)] assms(10) by auto
  have ids: "answered_ids cd polls = map (message_id gw) qs"
    by (simp add: answered_ids_def q(1) answered_messages [OF assms(1,2) fwd])
  have "subseq published rs"
    using subseq_order.trans [OF answers_relayed [OF assms(8,9), of cfg gw V] answers_accepted(1) [OF r(1)]] assms(4,11) by simp
  then obtain is1 where "subseq is1 ids" "list_all2 (answer_to (lk_ser cd)) is1 published"
    using list_all2_subseq [OF r(3)] by blast
  moreover from this r(2) ids obtain ws where "subseq ws qs" "is1 = map (message_id gw) ws"
    using subseq_of_map subseq_order.trans by metis
  ultimately have some: "\<exists>ws. subseq ws ms \<and> list_all2 (\<lambda>m s. answer_to (lk_ser cd) (message_id gw m) s) ws published"
    using subseq_order.trans [OF _ q(2)] by (auto simp: list_all2_map1)
  show ?thesis
  proof (cases "all_taken T \<and> all_taken t' \<and> delivers_all SIGNAL_COMMAND T (map fst commands) \<and> list_all snd commands \<and>
      delivers_all SIGNAL_RESPONSE t' answers \<and> room = length answers \<and> res = Serving \<and>
      responses_read_back (lk_ser cd) (gj_str_value gw)")
    case True
    have "map nm_payload qs = map nm_payload ms"
      using all_commands_received [OF assms(3,4)] True q(1) assms(6,10) by simp
    then have "length qs = length ms" by (metis length_map)
    then have qs: "qs = ms" using q(2) by (simp add: subseq_same_length)
    have t: "texts_on SIGNAL_RESPONSE t' = rs" using answers_accepted(2) [OF r(1)] True by simp
    have "is_ok (gj_str_value gw s)" if "s \<in> set rs" for s
      using r(3) that read_back True by (fastforce simp: list_all2_conv_all_nth in_set_conv_nth answer_to_def)
    then have "published = rs"
      using all_answers_relayed [of items answers t' gw cfg V] True assms(4,8,11) t by simp
    then have "list_all2 (\<lambda>m s. answer_to (lk_ser cd) (message_id gw m) s) ms published"
      using r(3,4) ids True qs by (simp add: list_all2_map1)
    then show ?thesis by blast
  next
    case False
    then show ?thesis using some by blast
  qed
qed

section \<open>A run\<close>

text \<open>A broker that delivers everything that it has accepted.\<close>

definition delivered :: "string \<Rightarrow> trace \<Rightarrow> (string + entries) list" where
  "delivered sig t = map (\<lambda>v. Inr [(sig, plain_datapoint v)]) (values_on sig t)"

lemma delivered_all: "delivers_all sig t (delivered sig t)"
proof -
  have "concat (map (item_values sig) (map (\<lambda>v. Inr [(sig, plain_datapoint v)]) vs)) = vs" for vs
    by (induction vs) simp_all
  then show ?thesis by (simp add: delivers_all_def carried_def delivered_def list_all_iff)
qed

lemma delivered_some: "delivers sig t (delivered sig t)"
  using delivered_all [of sig t] by (simp add: delivers_def delivers_all_def)

lemma turn_taken:
  "all_taken (gw_trace g) \<Longrightarrow> all_taken (gw_trace (gw_turn gw calm_world cfg item g))"
proof (cases item)
  case (TelemetryItem sig)
  assume t: "all_taken (gw_trace g)"
  have "all_taken (snd (telemetry_turn gw calm_world (gc_vin cfg) sig st (gw_trace g)))" for st
    using t by (simp add: telemetry_turn_trace all_taken_def split: option.split prod.split)
  then have "all_taken u" if "telemetry_turn gw calm_world (gc_vin cfg) sig st (gw_trace g) = (r, u)" for st r u
    using that by (metis snd_conv)
  then show ?thesis using TelemetryItem t by (auto split: option.split prod.split)
qed (auto simp: command_turn_def write_command_def response_turn_def publish_response_def calm_world_def io_simps
    Let_def all_taken_def split: sum.split)

text \<open>A world of two services whose only text is a command to lock the door.\<close>

definition answering_codec :: lock_codec where
  "answering_codec = locking_codec\<lparr>lk_ser := simple_ser\<rparr>"

definition reading_codec :: gateway_codec where
  "reading_codec = demo_codec\<lparr>gj_str_value := simple_de\<rparr>"

lemma one_command_served:
  "\<exists>t'. run answering_codec calm_world [payload_poll ''cmd''] [] = (Serving, True, t') \<and> all_taken t'"
  by (simp add: run_def calm_connect [unfolded calm_world_def] payload_poll_def subscribe_def handle_command_payload_def
    process_command_def process_lock_def check_safety_def grpc_client_def grpc_set_bool_def grpc_set_string_def
    grpc_get_float_def grpc_get_bool_def io_simps Let_def calm_world_def answering_codec_def locking_codec_def
    parse_command_def validate_command_def lock_cmd_def success_response_def all_taken_def)

lemma cloud_commands_are_answered_witness:
  "\<exists>items s. command_msgs items = [demo_message ''bad'', demo_message ''tok''] \<and>
     outbox_on (subject ''VIN1'' ''command_responses'')
       (gw_trace (gateway_tasks reading_codec calm_world demo_config items [])) = [s] \<and> answer_to simple_ser ''1'' s"
proof -
  obtain t' where r: "run answering_codec calm_world [payload_poll ''cmd''] [] = (Serving, True, t')" and t': "all_taken t'"
    using one_command_served by blast
  define answers where "answers = delivered SIGNAL_RESPONSE t'"
  define items where "items = [CommandMsg (demo_message ''bad''), CommandMsg (demo_message ''tok'')] @
    map ResponseItem (forward_responses (length answers) answers)"
  define T where "T = gw_trace (gateway_tasks reading_codec calm_world demo_config items [])"
  define commands where "commands = map (\<lambda>i. (i, True)) (delivered SIGNAL_COMMAND T)"
  have c: "map fst commands = delivered SIGNAL_COMMAND T" "list_all snd commands"
    by (simp_all add: commands_def comp_def list_all_iff)
  have "command_msgs (map ResponseItem xs) = []" "responses (map ResponseItem xs) = xs" for xs by (induction xs) simp_all
  then have ms: "command_msgs items = [demo_message ''bad'', demo_message ''tok'']"
    and rs: "responses items = forward_responses (length answers) answers" by (simp_all add: items_def)
  have h: "list_all headers_ok (command_msgs items)" by (simp add: ms headers_ok_def demo_message_def)
  have "valid_utf8 ''cmd''" by (simp add: valid_utf8.simps utf8_step_def byte_at_def)
  then have f: "filter (forwardable reading_codec (gc_bearer_token demo_config)) (command_msgs items) = [demo_message ''tok'']"
    by (simp add: ms demo_message_def forwardable_def authentic_def reading_codec_def demo_codec_def demo_config_def)
  have "all_taken (gw_trace (fold (gw_turn reading_codec calm_world demo_config) is g))" if "all_taken (gw_trace g)" for "is" g
    using that by (induction "is" arbitrary: g) (simp_all add: turn_taken)
  then have T: "all_taken T" by (simp add: T_def gateway_tasks_def all_taken_def)
  have p: "payloads [payload_poll ''cmd''] = forward_strings SIGNAL_COMMAND commands"
    using all_commands_received [OF h T_def _ c(2) T] f by (simp add: c delivered_all payload_poll_def demo_message_def)
  have sj: "same_json reading_codec answering_codec" "parsers_agree reading_codec answering_codec"
    by (auto simp: same_json_def parsers_agree_def reading_codec_def answering_codec_def locking_codec_def demo_codec_def)
  have rb: "responses_read_back (lk_ser answering_codec) (gj_str_value reading_codec)"
    using simple_codec_reads_back by (simp add: answering_codec_def reading_codec_def)
  have "list_all2 (\<lambda>m s. answer_to (lk_ser answering_codec) (message_id reading_codec m) s) [demo_message ''tok'']
     (outbox_on (subject (gc_vin demo_config) ''command_responses'') T)"
    using cloud_commands_are_answered [OF sj h T_def r p _ rs _ refl refl] T t' c rb
    by (auto simp: f answers_def delivered_all delivered_some)
  moreover have "message_id reading_codec (demo_message ''tok'') = ''1''"
    by (simp add: message_id_def reading_codec_def demo_codec_def demo_message_def)
  ultimately show ?thesis using ms
    by (intro exI [of _ items]) (auto simp: list_all2_Cons1 demo_config_def answering_codec_def T_def)
qed

end
