(* ===== verification/Lock_Tests.thy ===== *)
theory Lock_Tests
  imports Lock_Service Json_Codec
begin

text \<open>
  The tests of rhivos/locking-service: src/proptest_cases.rs and the unit tests in the sources. A
  test is the boolean of its assertions, an \<open>unwrap\<close> of nothing being a failed one; the generated
  inputs of a property test are its parameters. The property tests hold for all inputs, not only for
  those in the range of the generators. \<open>clk\<close> reads the system clock. Tests of what \<open>serde_json\<close>
  makes of a text are left out.
\<close>

definition f32_50 :: f32 where "f32_50 = F32 1112014848"
definition f32_100 :: f32 where "f32_100 = F32 1120403456"

definition make_cmd :: "action \<Rightarrow> string \<Rightarrow> lock_command" where
  "make_cmd a command_id =
     \<lparr>lc_command_id = command_id, lc_action = a, lc_doors = [''driver''], lc_source = None,
      lc_vin = None, lc_timestamp = None\<rparr>"

definition make_lock_cmd :: lock_command where "make_lock_cmd = make_cmd Lock ''test-cmd-1''"
definition make_unlock_cmd :: lock_command where "make_unlock_cmd = make_cmd Unlock ''test-cmd-2''"

section \<open>Property tests\<close>

definition proptest_command_validation_completeness :: "(string \<Rightarrow> serde_error + lock_command) \<Rightarrow> string \<Rightarrow> bool" where
  "proptest_command_validation_completeness de_cmd input =
     (case parse_command de_cmd input of
        Inr cmd \<Rightarrow>
          (case validate_command cmd of
             Inr _ \<Rightarrow> lc_command_id cmd \<noteq> [] \<and> (lc_action cmd = Lock \<or> lc_action cmd = Unlock) \<and>
               ''driver'' \<in> set (lc_doors cmd)
           | Inl _ \<Rightarrow> True)
      | Inl _ \<Rightarrow> True)"

definition proptest_safety_gate_lock :: "f32 \<Rightarrow> bool \<Rightarrow> bool" where
  "proptest_safety_gate_lock speed door_open =
     (let mock = with_door_open (Some door_open) (with_speed (Some speed) mock_new);
          result = fst (check_safety mock_client mock)
      in if f32_ge speed f32_one then result = VehicleMoving
         else if door_open then result = DoorOpen else result = Safe)"

type_synonym test_clock = "mock_broker \<Rightarrow> 64 word option"
type_synonym printer = "json \<Rightarrow> string"
type_synonym parser = "string \<Rightarrow> serde_error + json"

definition proptest_unlock_always_succeeds :: "printer \<Rightarrow> parser \<Rightarrow> test_clock \<Rightarrow> f32 \<Rightarrow> bool \<Rightarrow> bool" where
  "proptest_unlock_always_succeeds ser de clk speed door_open =
     (let mock = with_locked (Some True) (with_door_open (Some door_open) (with_speed (Some speed) mock_new))
      in case process_command ser clk mock_client (make_cmd Unlock ''prop-unlock'') True mock of
           (Some response, _, _) \<Rightarrow> parsed de response (\<lambda>v. as_str (field v ''status'') = Some ''success'')
         | (None, _, _) \<Rightarrow> False)"

definition proptest_state_response_consistency :: "printer \<Rightarrow> parser \<Rightarrow> test_clock \<Rightarrow> bool \<Rightarrow> bool" where
  "proptest_state_response_consistency ser de clk action_is_lock =
     (let mock = with_door_open (Some False) (with_speed (Some f32_zero) mock_new);
          a = (if action_is_lock then Lock else Unlock)
      in case process_command ser clk mock_client (make_cmd a ''prop-consistency'') False mock of
           (Some response, lock_state, _) \<Rightarrow>
             parsed de response (\<lambda>v. as_str (field v ''status'') = Some ''success'') \<and>
             (if action_is_lock then lock_state else \<not> lock_state)
         | (None, _, _) \<Rightarrow> False)"

text \<open>\<open>n\<close> rounds of the loop; \<open>None\<close> when an assertion in it failed.\<close>

fun idempotent_rounds :: "printer \<Rightarrow> parser \<Rightarrow> test_clock \<Rightarrow> action \<Rightarrow> nat \<Rightarrow> bool \<Rightarrow> mock_broker \<Rightarrow> mock_broker option" where
  "idempotent_rounds ser de clk a 0 lock_state mock = Some mock"
| "idempotent_rounds ser de clk a (Suc n) lock_state mock =
     (case process_command ser clk mock_client (make_cmd a ''prop-idempotent'') lock_state mock of
        (Some response, lock_state', mock') \<Rightarrow>
          if parsed de response (\<lambda>v. as_str (field v ''status'') = Some ''success'')
          then idempotent_rounds ser de clk a n lock_state' mock' else None
      | (None, _, _) \<Rightarrow> None)"

definition proptest_idempotent_operations :: "printer \<Rightarrow> parser \<Rightarrow> test_clock \<Rightarrow> bool \<Rightarrow> nat \<Rightarrow> bool" where
  "proptest_idempotent_operations ser de clk action_is_lock n =
     (let mock = with_door_open (Some False) (with_speed (Some f32_zero) mock_new);
          a = (if action_is_lock then Lock else Unlock)
      in case idempotent_rounds ser de clk a n False mock of
           Some mock' \<Rightarrow> length (mb_set_bool_calls mock') \<le> 1
         | None \<Rightarrow> False)"

definition proptest_response_completeness :: "printer \<Rightarrow> parser \<Rightarrow> test_clock \<Rightarrow> bool \<Rightarrow> f32 \<Rightarrow> bool \<Rightarrow> bool" where
  "proptest_response_completeness ser de clk action_is_lock speed door_open =
     (let mock = with_door_open (Some door_open) (with_speed (Some speed) mock_new);
          a = (if action_is_lock then Lock else Unlock)
      in case process_command ser clk mock_client (make_cmd a ''prop-completeness'') False mock of
           (Some response, _, mock') \<Rightarrow>
             parsed de response (\<lambda>v.
               as_str (field v ''command_id'') = Some ''prop-completeness'' \<and>
               (case as_str (field v ''status'') of
                  Some status \<Rightarrow> status = ''success'' \<or> status = ''failed'' | None \<Rightarrow> False) \<and>
               (case as_i64 (field v ''timestamp'') of Some ts \<Rightarrow> 0 < ts | None \<Rightarrow> False)) \<and>
             length (mb_set_string_calls mock') = 1
         | (None, _, _) \<Rightarrow> False)"

section \<open>What a command does to the mock\<close>

lemma success_ok: "running_clock clk \<Longrightarrow> \<exists>s. success_response ser (clk w) cid = Some (ser (response_json
     \<lparr>cr_command_id = cid, cr_status = ''success'', cr_reason = None, cr_timestamp = s\<rparr>)) \<and> 0 < sint s"
  by (rule running_clockE [of clk w]) (auto simp: success_response_def)

lemma failure_ok: "running_clock clk \<Longrightarrow> \<exists>s. failure_response ser (clk w) cid why = Some (ser (response_json
     \<lparr>cr_command_id = cid, cr_status = ''failed'', cr_reason = Some why, cr_timestamp = s\<rparr>)) \<and> 0 < sint s"
  by (rule running_clockE [of clk w]) (auto simp: failure_response_def)

definition mock_verdict :: "mock_broker \<Rightarrow> safety_result" where
  "mock_verdict m =
     (if f32_ge (unwrap_or f32_zero (mb_speed m)) f32_one then VehicleMoving
      else if unwrap_or False (mb_door_open m) then DoorOpen else Safe)"

lemma mock_verdict_writes [simp]:
  "mock_verdict (m\<lparr>mb_set_bool_calls := b\<rparr>) = mock_verdict m"
  "mock_verdict (m\<lparr>mb_set_string_calls := s\<rparr>) = mock_verdict m"
  "mock_verdict (m\<lparr>mb_fail_next_set_string := f\<rparr>) = mock_verdict m"
  by (simp_all add: mock_verdict_def)

lemma check_safety_mock: "check_safety mock_client m = (mock_verdict m, m)"
  by (simp add: check_safety_def mock_verdict_def client_simps)

lemma mock_ops:
  "set_bool mock_client sig v m = (Inr (), m\<lparr>mb_set_bool_calls := mb_set_bool_calls m @ [(sig, v)]\<rparr>)"
  "set_string mock_client = mock_set_string"
  by (simp_all add: client_simps fun_eq_iff)

text \<open>The exact effect of a command on the mock, with a clock that runs and responses that are written.\<close>

lemma process_mock:
  assumes "running_clock clk"
  shows "\<exists>s. 0 < sint s \<and>
     (case lock_spec (lc_action cmd) (mock_verdict m) l of
        (l', refusal) \<Rightarrow>
          let r = ser (response_json \<lparr>cr_command_id = lc_command_id cmd,
                cr_status = (if refusal = None then ''success'' else ''failed''),
                cr_reason = refusal, cr_timestamp = s\<rparr>);
              m1 = m\<lparr>mb_set_bool_calls := mb_set_bool_calls m @ (if l' = l then [] else [(SIGNAL_IS_LOCKED, l')])\<rparr>
          in process_command ser clk mock_client cmd l m = (Some r, l', snd (mock_set_string SIGNAL_RESPONSE r m1)))"
  using success_ok [OF assms, of ser m "lc_command_id cmd"]
    success_ok [OF assms, of ser "m\<lparr>mb_set_bool_calls := mb_set_bool_calls m @ [(SIGNAL_IS_LOCKED, True)]\<rparr>" "lc_command_id cmd"]
    success_ok [OF assms, of ser "m\<lparr>mb_set_bool_calls := mb_set_bool_calls m @ [(SIGNAL_IS_LOCKED, False)]\<rparr>" "lc_command_id cmd"]
    failure_ok [OF assms, of ser m "lc_command_id cmd" "''vehicle_moving''"]
    failure_ok [OF assms, of ser m "lc_command_id cmd" "''door_open''"]
  by (cases "lc_action cmd"; cases "mock_verdict m"; cases l)
    (auto simp: process_command_def process_lock_def process_unlock_def check_safety_mock
      mock_ops Let_def split: prod.splits)

lemmas mock_setup = with_speed_def with_door_open_def with_locked_def fail_next_set_string_def mock_new_def
  mock_verdict_def

lemma zero_is_slow [simp]: "\<not> f32_ge f32_zero f32_one"
  by (rule zero_below_one)

section \<open>The property tests hold\<close>

lemma validation_completeness: "proptest_command_validation_completeness de_cmd input"
  by (auto simp: proptest_command_validation_completeness_def validate_command_def
      split: sum.splits option.splits if_splits intro: action.exhaust)

lemma safety_gate_lock: "proptest_safety_gate_lock speed door_open"
  by (simp add: proptest_safety_gate_lock_def check_safety_mock mock_setup Let_def)

text \<open>What the tests take for granted: a codec that reads responses back and a clock after 1970.\<close>

definition test_setting :: "printer \<Rightarrow> parser \<Rightarrow> test_clock \<Rightarrow> bool" where
  "test_setting ser de clk \<longleftrightarrow> responses_read_back ser de \<and> running_clock clk"

text \<open>
  A command on a mock whose response is written: the new state, the calls, and what the response
  reads back as.
\<close>

lemma process_mockE:
  assumes "test_setting ser de clk"
  obtains response m' s where
    "process_command ser clk mock_client cmd l m = (Some response, fst (lock_spec (lc_action cmd) (mock_verdict m) l), m')"
    and "mb_set_bool_calls m' = mb_set_bool_calls m @
       (let l' = fst (lock_spec (lc_action cmd) (mock_verdict m) l) in if l' = l then [] else [(SIGNAL_IS_LOCKED, l')])"
    and "mb_set_string_calls m' = mb_set_string_calls m @
       (if mb_fail_next_set_string m then [] else [(SIGNAL_RESPONSE, response)])"
    and "mock_verdict m' = mock_verdict m"
    and "0 < sint s"
    and "\<And>check. parsed de response check \<longleftrightarrow> check (response_json
       (let refusal = snd (lock_spec (lc_action cmd) (mock_verdict m) l) in
        \<lparr>cr_command_id = lc_command_id cmd, cr_status = (if refusal = None then ''success'' else ''failed''),
         cr_reason = refusal, cr_timestamp = s\<rparr>))"
proof -
  have rd: "responses_read_back ser de" and runs: "running_clock clk"
    using assms by (simp_all add: test_setting_def)
  obtain l' refusal where o: "lock_spec (lc_action cmd) (mock_verdict m) l = (l', refusal)" by fastforce
  obtain s where s: "0 < sint s" and p: "process_command ser clk mock_client cmd l m =
      (let r = ser (response_json \<lparr>cr_command_id = lc_command_id cmd,
                cr_status = (if refusal = None then ''success'' else ''failed''),
                cr_reason = refusal, cr_timestamp = s\<rparr>);
           m1 = m\<lparr>mb_set_bool_calls := mb_set_bool_calls m @ (if l' = l then [] else [(SIGNAL_IS_LOCKED, l')])\<rparr>
       in (Some r, l', snd (mock_set_string SIGNAL_RESPONSE r m1)))"
    using process_mock [OF runs, where cmd = cmd and m = m and l = l and ser = ser] o by (auto simp: Let_def)
  define msg where "msg = \<lparr>cr_command_id = lc_command_id cmd,
    cr_status = (if refusal = None then ''success'' else ''failed''), cr_reason = refusal, cr_timestamp = s\<rparr>"
  define m1 where "m1 = m\<lparr>mb_set_bool_calls := mb_set_bool_calls m @ (if l' = l then [] else [(SIGNAL_IS_LOCKED, l')])\<rparr>"
  show ?thesis
  proof (rule that [where s = s])
    show "process_command ser clk mock_client cmd l m =
        (Some (ser (response_json msg)), fst (lock_spec (lc_action cmd) (mock_verdict m) l),
         snd (mock_set_string SIGNAL_RESPONSE (ser (response_json msg)) m1))"
      by (simp add: p o msg_def m1_def Let_def)
  qed (use s rd in \<open>simp_all add: o msg_def m1_def mock_set_string_def Let_def\<close>)
qed

definition driving_mock :: "f32 \<Rightarrow> bool \<Rightarrow> mock_broker" where
  "driving_mock speed door_open = with_door_open (Some door_open) (with_speed (Some speed) mock_new)"

lemma mock_verdicts [simp]:
  "mock_verdict (with_locked x m) = mock_verdict m"
  "mock_verdict (fail_next_set_string m) = mock_verdict m"
  "mock_verdict (driving_mock speed door_open) =
     (if f32_ge speed f32_one then VehicleMoving else if door_open then DoorOpen else Safe)"
  by (simp_all add: mock_setup driving_mock_def)

lemma mock_calls [simp]:
  "mb_set_bool_calls (with_locked x m) = mb_set_bool_calls m"
  "mb_set_bool_calls (fail_next_set_string m) = mb_set_bool_calls m"
  "mb_set_bool_calls (driving_mock speed door_open) = []"
  "mb_set_string_calls (driving_mock speed door_open) = []"
  "\<not> mb_fail_next_set_string (driving_mock speed door_open)"
  by (simp_all add: mock_setup driving_mock_def)

lemma unlock_always_succeeds:
  assumes "test_setting ser de clk"
  shows "proptest_unlock_always_succeeds ser de clk speed door_open"
  unfolding proptest_unlock_always_succeeds_def Let_def driving_mock_def [symmetric]
  by (rule process_mockE [OF assms, where cmd = "make_cmd Unlock ''prop-unlock''" and l = True
        and m = "with_locked (Some True) (driving_mock speed door_open)"])
    (simp add: make_cmd_def)

lemma state_response_consistency:
  assumes "test_setting ser de clk"
  shows "proptest_state_response_consistency ser de clk action_is_lock"
  unfolding proptest_state_response_consistency_def Let_def driving_mock_def [symmetric]
  by (rule process_mockE [OF assms, where l = False and m = "driving_mock f32_zero False"
        and cmd = "make_cmd (if action_is_lock then Lock else Unlock) ''prop-consistency''"])
    (simp add: make_cmd_def split: if_splits)

lemma idempotent_rounds_calls:
  assumes "test_setting ser de clk" and "mock_verdict m = Safe"
  shows "\<exists>m'. idempotent_rounds ser de clk a n l m = Some m' \<and>
     length (mb_set_bool_calls m') \<le> length (mb_set_bool_calls m) + (if l = (a = Lock) then 0 else 1)"
  using assms(2)
proof (induction n arbitrary: l m)
  case (Suc n)
  obtain response m1 s where p: "process_command ser clk mock_client (make_cmd a ''prop-idempotent'') l m =
      (Some response, a = Lock, m1)"
    and b: "mb_set_bool_calls m1 = mb_set_bool_calls m @ (if (a = Lock) = l then [] else [(SIGNAL_IS_LOCKED, a = Lock)])"
    and v: "mock_verdict m1 = Safe"
    and c: "\<And>check. parsed de response check \<longleftrightarrow> check (response_json
       \<lparr>cr_command_id = ''prop-idempotent'', cr_status = ''success'', cr_reason = None, cr_timestamp = s\<rparr>)"
    by (rule process_mockE [OF assms(1), where cmd = "make_cmd a ''prop-idempotent''" and l = l and m = m])
      (cases a; simp add: make_cmd_def Suc.prems Let_def)
  from Suc.IH [OF v, of "a = Lock"] show ?case by (auto simp: p b c)
qed simp

lemma idempotent_operations:
  assumes "test_setting ser de clk"
  shows "proptest_idempotent_operations ser de clk action_is_lock n"
  using idempotent_rounds_calls [OF assms, where m = "driving_mock f32_zero False" and l = False
      and a = "if action_is_lock then Lock else Unlock" and n = n]
  by (auto simp: proptest_idempotent_operations_def Let_def driving_mock_def [symmetric] split: if_splits)

lemma response_completeness:
  assumes "test_setting ser de clk"
  shows "proptest_response_completeness ser de clk action_is_lock speed door_open"
  unfolding proptest_response_completeness_def Let_def driving_mock_def [symmetric]
  by (rule process_mockE [OF assms, where l = False and m = "driving_mock speed door_open"
        and cmd = "make_cmd (if action_is_lock then Lock else Unlock) ''prop-completeness''"])
    (simp add: make_cmd_def Let_def)

section \<open>Unit tests\<close>

definition succeeds :: "parser \<Rightarrow> string \<Rightarrow> bool" where
  "succeeds de response = parsed de response (\<lambda>v. field v ''status'' = JStr ''success'')"

definition test_lock_sets_state_true :: "printer \<Rightarrow> parser \<Rightarrow> test_clock \<Rightarrow> bool" where
  "test_lock_sets_state_true ser de clk =
     (let mock = with_door_open (Some False) (with_speed (Some f32_zero) mock_new)
      in case process_command ser clk mock_client make_lock_cmd False mock of
           (Some response, lock_state, mock') \<Rightarrow>
             lock_state \<and> succeeds de response \<and>
             list_ex (\<lambda>(sig, val). sig = ''Vehicle.Cabin.Door.Row1.DriverSide.IsLocked'' \<and> val) (mb_set_bool_calls mock')
         | (None, _, _) \<Rightarrow> False)"

definition test_unlock_sets_state_false :: "printer \<Rightarrow> parser \<Rightarrow> test_clock \<Rightarrow> bool" where
  "test_unlock_sets_state_false ser de clk =
     (let mock = with_locked (Some True) (with_door_open (Some False) (with_speed (Some f32_zero) mock_new))
      in case process_command ser clk mock_client make_unlock_cmd True mock of
           (Some response, lock_state, mock') \<Rightarrow>
             \<not> lock_state \<and> succeeds de response \<and>
             list_ex (\<lambda>(sig, val). sig = ''Vehicle.Cabin.Door.Row1.DriverSide.IsLocked'' \<and> \<not> val) (mb_set_bool_calls mock')
         | (None, _, _) \<Rightarrow> False)"

definition test_unlock_bypasses_safety :: "printer \<Rightarrow> parser \<Rightarrow> test_clock \<Rightarrow> bool" where
  "test_unlock_bypasses_safety ser de clk =
     (let mock = with_locked (Some True) (with_door_open (Some True) (with_speed (Some f32_100) mock_new))
      in case process_command ser clk mock_client make_unlock_cmd True mock of
           (Some response, _, _) \<Rightarrow> succeeds de response
         | (None, _, _) \<Rightarrow> False)"

definition test_lock_idempotent :: "printer \<Rightarrow> parser \<Rightarrow> test_clock \<Rightarrow> bool" where
  "test_lock_idempotent ser de clk =
     (let mock = with_locked (Some True) (with_door_open (Some False) (with_speed (Some f32_zero) mock_new))
      in case process_command ser clk mock_client make_lock_cmd True mock of
           (Some response, _, mock') \<Rightarrow> succeeds de response \<and> mb_set_bool_calls mock' = []
         | (None, _, _) \<Rightarrow> False)"

definition test_unlock_idempotent :: "printer \<Rightarrow> parser \<Rightarrow> test_clock \<Rightarrow> bool" where
  "test_unlock_idempotent ser de clk =
     (let mock = with_door_open (Some False) (with_speed (Some f32_zero) mock_new)
      in case process_command ser clk mock_client make_unlock_cmd False mock of
           (Some response, _, mock') \<Rightarrow> succeeds de response \<and> mb_set_bool_calls mock' = []
         | (None, _, _) \<Rightarrow> False)"

definition test_response_publish_failure :: "printer \<Rightarrow> parser \<Rightarrow> test_clock \<Rightarrow> bool" where
  "test_response_publish_failure ser de clk =
     (let mock = fail_next_set_string (with_door_open (Some False) (with_speed (Some f32_zero) mock_new))
      in case process_command ser clk mock_client make_lock_cmd False mock of
           (Some _, lock_state, mock1) \<Rightarrow>
             (case process_command ser clk mock_client make_unlock_cmd lock_state mock1 of
                (Some response2, _, _) \<Rightarrow> succeeds de response2
              | (None, _, _) \<Rightarrow> False)
         | (None, _, _) \<Rightarrow> False)"

definition safety_test :: "f32 option \<Rightarrow> bool option \<Rightarrow> safety_result \<Rightarrow> bool" where
  "safety_test speed door_open expected =
     (let mock = with_door_open door_open (with_speed speed mock_new)
      in fst (check_safety mock_client mock) = expected)"

definition test_lock_rejected_vehicle_moving :: bool where
  "test_lock_rejected_vehicle_moving = safety_test (Some f32_50) (Some False) VehicleMoving"
definition test_lock_rejected_door_open :: bool where
  "test_lock_rejected_door_open = safety_test (Some f32_zero) (Some True) DoorOpen"
definition test_lock_allowed_safe :: bool where
  "test_lock_allowed_safe = safety_test (Some f32_zero) (Some False) Safe"
definition test_speed_unset_treated_zero :: bool where
  "test_speed_unset_treated_zero = safety_test None (Some False) Safe"
definition test_door_unset_treated_closed :: bool where
  "test_door_unset_treated_closed = safety_test (Some f32_zero) None Safe"

text \<open>The argument is the reading of the clock, \<open>before\<close> and \<open>after\<close> those around it.\<close>

definition test_success_response_format :: "printer \<Rightarrow> parser \<Rightarrow> 64 word option \<Rightarrow> bool" where
  "test_success_response_format ser de now =
     (case success_response ser now ''abc-123'' of
        Some json \<Rightarrow> parsed de json (\<lambda>v.
          field v ''command_id'' = JStr ''abc-123'' \<and> field v ''status'' = JStr ''success'' \<and>
          (case as_i64 (field v ''timestamp'') of Some ts \<Rightarrow> 0 < ts | None \<Rightarrow> False) \<and>
          (json_get v ''reason'' = None \<or> field v ''reason'' = JNull))
      | None \<Rightarrow> False)"

definition test_failure_response_format :: "printer \<Rightarrow> parser \<Rightarrow> 64 word option \<Rightarrow> bool" where
  "test_failure_response_format ser de now =
     (case failure_response ser now ''abc-123'' ''vehicle_moving'' of
        Some json \<Rightarrow> parsed de json (\<lambda>v.
          field v ''command_id'' = JStr ''abc-123'' \<and> field v ''status'' = JStr ''failed'' \<and>
          field v ''reason'' = JStr ''vehicle_moving'' \<and>
          (case as_i64 (field v ''timestamp'') of Some ts \<Rightarrow> 0 < ts | None \<Rightarrow> False))
      | None \<Rightarrow> False)"

definition test_response_timestamp :: "printer \<Rightarrow> parser \<Rightarrow> 64 word \<Rightarrow> 64 word option \<Rightarrow> 64 word \<Rightarrow> bool" where
  "test_response_timestamp ser de before now after =
     (case success_response ser now ''x'' of
        Some json \<Rightarrow> parsed de json (\<lambda>v.
          case as_i64 (field v ''timestamp'') of
            Some ts \<Rightarrow> sint before \<le> ts \<and> ts \<le> sint after | None \<Rightarrow> False)
      | None \<Rightarrow> False)"

definition set_var :: "string \<Rightarrow> string option \<Rightarrow> world \<Rightarrow> world" where
  "set_var name val W = W\<lparr>w_env := (w_env W)(name := val)\<rparr>"

definition test_databroker_addr_default :: "world \<Rightarrow> bool" where
  "test_databroker_addr_default W =
     (get_databroker_addr (set_var ''DATABROKER_ADDR'' None W) = ''http://localhost:55556'')"

definition test_databroker_addr_env :: "world \<Rightarrow> bool" where
  "test_databroker_addr_env W =
     (get_databroker_addr (set_var ''DATABROKER_ADDR'' (Some ''http://10.0.0.5:55556'') W) = ''http://10.0.0.5:55556'')"

lemma fast [simp]: "f32_ge f32_50 f32_one" "f32_ge f32_100 f32_one"
  by (simp_all add: f32_ge_def f32_50_def f32_100_def f32_one_def f32_is_nan_def f32_key_def)

lemma safety_test_verdict:
  "safety_test speed door_open expected \<longleftrightarrow>
     mock_verdict (with_door_open door_open (with_speed speed mock_new)) = expected"
  by (simp add: safety_test_def check_safety_mock)

lemma safety_tests:
  "test_lock_rejected_vehicle_moving" "test_lock_rejected_door_open" "test_lock_allowed_safe"
  "test_speed_unset_treated_zero" "test_door_unset_treated_closed"
  by (simp_all add: safety_test_verdict mock_setup test_lock_rejected_vehicle_moving_def
      test_lock_rejected_door_open_def test_lock_allowed_safe_def test_speed_unset_treated_zero_def
      test_door_unset_treated_closed_def)

lemma response_tests:
  assumes "responses_read_back ser de" and "0 < sint s" and "sint before \<le> sint s" "sint s \<le> sint after"
  shows "test_success_response_format ser de (Some s)" "test_failure_response_format ser de (Some s)"
    "test_response_timestamp ser de before (Some s) after"
  using assms
  by (simp_all add: test_success_response_format_def test_failure_response_format_def
      test_response_timestamp_def success_response_def failure_response_def)

lemma databroker_addr_tests: "test_databroker_addr_default W" "test_databroker_addr_env W"
  by (simp_all add: test_databroker_addr_default_def test_databroker_addr_env_def set_var_def
      get_databroker_addr_def DEFAULT_DATABROKER_ADDR_def)

lemmas lock_test_defs = make_lock_cmd_def make_unlock_cmd_def make_cmd_def SIGNAL_IS_LOCKED_def

lemma process_tests:
  assumes "test_setting ser de clk"
  shows "test_lock_sets_state_true ser de clk" and "test_unlock_sets_state_false ser de clk"
    and "test_unlock_bypasses_safety ser de clk" and "test_lock_idempotent ser de clk"
    and "test_unlock_idempotent ser de clk"
proof -
  note step = process_mockE [OF assms] and defs = lock_test_defs succeeds_def Let_def
  show "test_lock_sets_state_true ser de clk"
    unfolding test_lock_sets_state_true_def Let_def driving_mock_def [symmetric]
    by (rule step [where cmd = make_lock_cmd and l = False and m = "driving_mock f32_zero False"])
      (simp add: defs)
  show "test_unlock_sets_state_false ser de clk"
    unfolding test_unlock_sets_state_false_def Let_def driving_mock_def [symmetric]
    by (rule step [where cmd = make_unlock_cmd and l = True
          and m = "with_locked (Some True) (driving_mock f32_zero False)"]) (simp add: defs)
  show "test_unlock_bypasses_safety ser de clk"
    unfolding test_unlock_bypasses_safety_def Let_def driving_mock_def [symmetric]
    by (rule step [where cmd = make_unlock_cmd and l = True
          and m = "with_locked (Some True) (driving_mock f32_100 True)"]) (simp add: defs)
  show "test_lock_idempotent ser de clk"
    unfolding test_lock_idempotent_def Let_def driving_mock_def [symmetric]
    by (rule step [where cmd = make_lock_cmd and l = True
          and m = "with_locked (Some True) (driving_mock f32_zero False)"]) (simp add: defs)
  show "test_unlock_idempotent ser de clk"
    unfolding test_unlock_idempotent_def Let_def driving_mock_def [symmetric]
    by (rule step [where cmd = make_unlock_cmd and l = False and m = "driving_mock f32_zero False"])
      (simp add: defs)
qed

lemma response_publish_failure_test:
  assumes "test_setting ser de clk"
  shows "test_response_publish_failure ser de clk"
  unfolding test_response_publish_failure_def Let_def driving_mock_def [symmetric]
proof (rule process_mockE [OF assms, where cmd = make_lock_cmd and l = False
      and m = "fail_next_set_string (driving_mock f32_zero False)"], goal_cases)
  case (1 response m1 s)
  show ?case
    by (rule process_mockE [OF assms, where cmd = make_unlock_cmd and l = True and m = m1])
      (use 1 in \<open>simp add: lock_test_defs succeeds_def\<close>)
qed

lemma constant_clock: "test_setting simple_ser simple_de (\<lambda>_. Some 1)"
  by (simp add: test_setting_def simple_codec_reads_back running_clock_def)

text \<open>
  C24: The six property tests of the locking service hold for every generated input, in range or
  not: any text, any speed and door, any action, any number of repetitions. Assumed is that the
  clock is after 1970 and that JSON is read back as it was printed.
\<close>

theorem lock_property_tests_hold:
  assumes "responses_read_back ser de" and "running_clock clk"
  shows "proptest_command_validation_completeness de_cmd input \<and>
     proptest_safety_gate_lock speed door_open \<and>
     proptest_unlock_always_succeeds ser de clk speed door_open \<and>
     proptest_state_response_consistency ser de clk action_is_lock \<and>
     proptest_idempotent_operations ser de clk action_is_lock n \<and>
     proptest_response_completeness ser de clk action_is_lock speed door_open"
  using assms unlock_always_succeeds state_response_consistency idempotent_operations response_completeness
  by (simp add: test_setting_def validation_completeness safety_gate_lock)

lemma lock_property_tests_hold_witness:
  "proptest_idempotent_operations simple_ser simple_de (\<lambda>_. Some 1) True 5 \<and>
   proptest_unlock_always_succeeds simple_ser simple_de (\<lambda>_. Some 1) f32_100 True"
  using lock_property_tests_hold [of simple_ser simple_de "\<lambda>_. Some 1"] constant_clock
  by (simp add: test_setting_def)

end
