(* ===== verification/Parking_Tests.thy ===== *)
theory Parking_Tests
  imports Parking_Properties
begin

text \<open>
  The tests of rhivos/parking-operator-adaptor: src/proptest_cases.rs and the unit tests of
  session.rs, event_loop.rs, config.rs and operator.rs. A test is the boolean of its assertions; a
  panic of the code under test is a failed one. The property tests are proved for all inputs. \<open>clk\<close>
  reads the system clock. The test mocks are the pair of clients of Parking_Clients.thy as one
  record. \<open>(x - y).abs() < f64::EPSILON\<close> is modelled as the equality of the two values, which the
  code, which copies the amounts, satisfies.
\<close>

definition f64_2_5 :: f64 where "f64_2_5 = F64 4612811918334230528"
definition f64_5 :: f64 where "f64_5 = F64 4617315517961601024"

definition sample_rate :: rate where
  "sample_rate = \<lparr>rt_rate_type = ''per_hour'', rt_amount = f64_2_5, rt_currency = ''EUR''\<rparr>"

definition flat_rate :: rate where
  "flat_rate = \<lparr>rt_rate_type = ''flat_fee'', rt_amount = f64_5, rt_currency = ''EUR''\<rparr>"

lemma amounts [simp]: "f64_eq f64_2_5 f64_2_5" "f64_eq f64_5 f64_5"
  by (simp_all add: f64_eq_def f64_is_nan_def f64_2_5_def f64_5_def)

type_synonym test_clk = "mock_parking \<Rightarrow> 64 word option"

definition test_adaptor :: "test_clk \<Rightarrow> string \<Rightarrow> mock_parking adaptor" where
  "test_adaptor clk vehicle_id = (mock_adaptor vehicle_id [])\<lparr>pa_clock := clk\<rparr>"

definition start_calls :: "mock_parking \<Rightarrow> (string \<times> string) list" where "start_calls m = mk_start_calls m"
definition start_call_count :: "mock_parking \<Rightarrow> nat" where "start_call_count m = length (mk_start_calls m)"
definition stop_calls :: "mock_parking \<Rightarrow> string list" where "stop_calls m = mk_stop_calls m"
definition stop_call_count :: "mock_parking \<Rightarrow> nat" where "stop_call_count m = length (mk_stop_calls m)"
definition last_set_bool :: "mock_parking \<Rightarrow> (string \<times> bool) option" where
  "last_set_bool m = (if mk_set_bool_calls m = [] then None else Some (last (mk_set_bool_calls m)))"

text \<open>One event on new mocks.\<close>

definition lock_event :: "test_clk \<Rightarrow> bool \<Rightarrow> session \<Rightarrow> mock_parking \<Rightarrow> session option \<times> mock_parking" where
  "lock_event clk is_locked session m = process_lock_event (test_adaptor clk ''VIN'') ''zone'' is_locked session m"

definition starting :: "string \<Rightarrow> mock_parking" where
  "starting session_id = on_start_success session_id ''per_hour'' f64_2_5 ''EUR'' mock_parking_new"

definition stopping :: "string \<Rightarrow> mock_parking" where
  "stopping session_id = on_stop_success session_id 3600 f64_2_5 ''EUR'' mock_parking_new"

definition running_session :: session where
  "running_session = session_start ''sess-1'' ''zone-a'' 1700000000 sample_rate session_new"

section \<open>Property tests\<close>

fun apply_ops :: "bool list \<Rightarrow> session \<Rightarrow> session" where
  "apply_ops [] session = session"
| "apply_ops (is_start # ops) session =
     apply_ops ops
       (if is_start then session_start ''s1'' ''zone-a'' 1700000000 sample_rate session
        else snd (session_stop session))"

definition proptest_session_state_consistency :: "bool list \<Rightarrow> bool" where
  "proptest_session_state_consistency ops =
     (let session = apply_ops ops session_new;
          last_successful = (if ops = [] then None else Some (last ops))
      in case last_successful of Some True \<Rightarrow> is_active session | _ \<Rightarrow> \<not> is_active session)"

text \<open>The loops of the second test: the mock is configured in the first round only.\<close>

fun lock_rounds :: "test_clk \<Rightarrow> bool \<Rightarrow> nat list \<Rightarrow> session \<Rightarrow> session option" where
  "lock_rounds clk is_locked [] session = Some session"
| "lock_rounds clk is_locked (i # is) session =
     (let m = (if i = 0 then if is_locked then starting ''sess-1'' else stopping ''sess-1'' else mock_parking_new)
      in Option.bind (fst (lock_event clk is_locked session m)) (lock_rounds clk is_locked is))"

definition proptest_idempotent_lock_events :: "test_clk \<Rightarrow> nat \<Rightarrow> nat \<Rightarrow> bool" where
  "proptest_idempotent_lock_events clk n m =
     (case lock_rounds clk True [0..<n] session_new of
        None \<Rightarrow> False
      | Some s1 \<Rightarrow> is_active s1 \<and>
          (case lock_rounds clk False [0..<m] s1 of None \<Rightarrow> False | Some s2 \<Rightarrow> \<not> is_active s2))"

definition proptest_override_non_persistence :: "test_clk \<Rightarrow> bool \<Rightarrow> bool" where
  "proptest_override_non_persistence clk do_manual_start =
     (let A = test_adaptor clk ''VIN'';
          op = starting ''sess-m'';
          started = (if do_manual_start
                     then map_option snd (fst (process_manual_start A ''zone'' session_new op))
                     else fst (process_lock_event A ''zone'' True session_new op))
      in case Option.bind started (\<lambda>s. map_option snd (fst (process_manual_stop A s (stopping ''sess-m'')))) of
           None \<Rightarrow> False
         | Some s1 \<Rightarrow> \<not> is_active s1 \<and>
             (case fst (lock_event clk True s1 (starting ''sess-auto'')) of
                None \<Rightarrow> False
              | Some s2 \<Rightarrow> is_active s2 \<and>
                  (case fst (lock_event clk False s2 (stopping ''sess-auto'')) of
                     None \<Rightarrow> False | Some s3 \<Rightarrow> \<not> is_active s3)))"

fun failing_rounds :: "test_clk \<Rightarrow> nat \<Rightarrow> session \<Rightarrow> session option" where
  "failing_rounds clk 0 session = Some session"
| "failing_rounds clk (Suc n) session =
     Option.bind (fst (lock_event clk True session mock_parking_new)) (failing_rounds clk n)"

definition proptest_retry_exhaustion_safety :: "test_clk \<Rightarrow> nat \<Rightarrow> bool" where
  "proptest_retry_exhaustion_safety clk n_attempts =
     (case failing_rounds clk n_attempts session_new of None \<Rightarrow> False | Some s \<Rightarrow> \<not> is_active s)"

fun signal_rounds :: "test_clk \<Rightarrow> bool list \<Rightarrow> session \<Rightarrow> bool" where
  "signal_rounds clk [] session = True"
| "signal_rounds clk (is_lock # ops) session =
     (if is_lock \<and> \<not> is_active session then
        (case lock_event clk True session (starting ''sess-1'') of
           (None, m) \<Rightarrow> False
         | (Some s, m) \<Rightarrow> last_set_bool m = Some (''Vehicle.Parking.SessionActive'', True) \<and> signal_rounds clk ops s)
      else if \<not> is_lock \<and> is_active session then
        (case lock_event clk False session (stopping ''sess-1'') of
           (None, m) \<Rightarrow> False
         | (Some s, m) \<Rightarrow> last_set_bool m = Some (''Vehicle.Parking.SessionActive'', False) \<and> signal_rounds clk ops s)
      else signal_rounds clk ops session)"

definition proptest_session_active_consistency :: "test_clk \<Rightarrow> bool list \<Rightarrow> bool" where
  "proptest_session_active_consistency clk ops = signal_rounds clk ops session_new"

text \<open>The generator draws numbers below 4; another one makes the code panic.\<close>

definition event_round :: "test_clk \<Rightarrow> nat \<Rightarrow> session \<Rightarrow> session option" where
  "event_round clk event_type session =
     (let A = test_adaptor clk ''VIN'';
          m = mock_parking_new;
          starting_m = (if \<not> is_active session then starting ''sess-1'' else m);
          stopping_m = (if is_active session then stopping ''sess-1'' else m)
      in if event_type = 0 then fst (process_lock_event A ''zone'' True session starting_m)
         else if event_type = 1 then fst (process_lock_event A ''zone'' False session stopping_m)
         else if event_type = 2 then map_option snd (fst (process_manual_start A ''zone'' session starting_m))
         else if event_type = 3 then map_option snd (fst (process_manual_stop A session stopping_m))
         else None)"

fun event_rounds :: "test_clk \<Rightarrow> nat list \<Rightarrow> session \<Rightarrow> session option" where
  "event_rounds clk [] session = Some session"
| "event_rounds clk (e # es) session = Option.bind (event_round clk e session) (event_rounds clk es)"

definition proptest_sequential_event_processing :: "test_clk \<Rightarrow> nat list \<Rightarrow> bool" where
  "proptest_sequential_event_processing clk events =
     (case event_rounds clk events session_new of
        None \<Rightarrow> False
      | Some s \<Rightarrow> if is_active s then session_status s \<noteq> None else session_status s = None)"

section \<open>They hold\<close>

lemmas mock_defs = starting_def stopping_def on_start_success_def on_stop_success_def on_start_return_def
  on_stop_return_def mock_parking_new_def

lemma starting_call:
  "mock_start_session v z (starting i) =
     (Some (Inr \<lparr>sr_session_id = i, sr_status = ''active'',
        sr_rate = \<lparr>rp_rate_type = ''per_hour'', rp_amount = f64_2_5, rp_currency = ''EUR''\<rparr>\<rparr>),
      (starting i)\<lparr>mk_start_calls := [(v, z)], mk_start_response := None, mk_confirmed := [Started i]\<rparr>)"
  by (simp add: mock_start_session_def mock_defs Let_def)

lemma stopping_call:
  "mock_stop_session j (stopping i) =
     (Some (Inr \<lparr>pr_session_id = i, pr_status = ''completed'', pr_duration_seconds = 3600,
        pr_total_amount = f64_2_5, pr_currency = ''EUR''\<rparr>),
      (stopping i)\<lparr>mk_stop_calls := [j], mk_stop_response := None, mk_confirmed := [Ended j]\<rparr>)"
  by (simp add: mock_stop_session_def mock_defs Let_def)

lemma unconfigured_call:
  "mock_start_session v z mock_parking_new =
     (Some (Inl (RequestFailed ''no mock response configured'')), mock_parking_new\<lparr>mk_start_calls := [(v, z)]\<rparr>)"
  by (simp add: mock_start_session_def mock_defs Let_def)

lemma mock_fields [simp]:
  "mk_fail_set_bool (starting i) = False" "mk_fail_set_bool (stopping i) = False"
  "mk_set_bool_calls (starting i) = []" "mk_set_bool_calls (stopping i) = []"
  by (simp_all add: mock_defs)

lemma test_adaptor_simps [simp]:
  "op_start_session (pa_operator (test_adaptor clk v)) = mock_start_session"
  "op_stop_session (pa_operator (test_adaptor clk v)) = mock_stop_session"
  "bo_set_bool (pa_broker (test_adaptor clk v)) = mock_parking_set_bool"
  "pa_vehicle_id (test_adaptor clk v) = v"
  by (simp_all add: test_adaptor_def mock_adaptor_def)

lemmas event_defs = process_lock_event_def process_manual_start_def process_manual_stop_def lock_event_def
  session_start_def session_stop_def session_status_def starting_call stopping_call unconfigured_call
  mock_parking_set_bool_def session_new_def last_set_bool_def SIGNAL_SESSION_ACTIVE_def Let_def

lemma session_state_consistency: "proptest_session_state_consistency ops"
proof -
  have "is_active (apply_ops ops s) = (if ops = [] then is_active s else last ops)" for s
    by (induction ops arbitrary: s) (auto simp: session_start_def session_stop_def)
  then show ?thesis
    by (auto simp: proptest_session_state_consistency_def session_new_def split: option.split bool.split)
qed

lemma repeated_locks:
  "0 \<notin> set is \<Longrightarrow> is_active s = b \<Longrightarrow> \<exists>s'. lock_rounds clk b is s = Some s' \<and> is_active s' = b"
  by (induction "is" arbitrary: s) (auto simp: event_defs)

lemma first_lock: "\<exists>s'. fst (lock_event clk True None (starting i)) = Some s' \<and> is_active s'"
  by (auto simp: event_defs)

lemma first_unlock: "is_active s \<Longrightarrow> fst (lock_event clk False s (stopping i)) = Some None"
  by (cases s) (auto simp: event_defs)

lemma rounds_from:
  assumes "0 < n" and "fst (lock_event clk b s (if b then starting ''sess-1'' else stopping ''sess-1'')) = Some s1"
    and "is_active s1 = b"
  shows "\<exists>s'. lock_rounds clk b [0..<n] s = Some s' \<and> is_active s' = b"
proof -
  have "[0..<n] = 0 # [1..<n]" using assms(1) by (simp add: upt_conv_Cons)
  then show ?thesis using repeated_locks [of "[1..<n]" s1 b clk] assms(2,3) by (auto simp: Let_def)
qed

lemma idempotent_lock_events:
  assumes "0 < n" and "0 < m"
  shows "proptest_idempotent_lock_events clk n m"
proof -
  obtain s1 where "lock_rounds clk True [0..<n] None = Some s1" "is_active s1"
    using first_lock rounds_from [OF assms(1), of clk True None] by (metis (full_types))
  then show ?thesis
    using rounds_from [OF assms(2), of clk False s1 None] first_unlock [of s1]
    by (auto simp: proptest_idempotent_lock_events_def session_new_def)
qed

lemma override_non_persistence: "proptest_override_non_persistence clk do_manual_start"
  by (cases do_manual_start) (simp_all add: proptest_override_non_persistence_def event_defs)

lemma retry_exhaustion_safety: "proptest_retry_exhaustion_safety clk n"
proof -
  have "failing_rounds clk n None = Some None" by (induction n) (simp_all add: event_defs)
  then show ?thesis by (simp add: proptest_retry_exhaustion_safety_def session_new_def)
qed

lemma session_active_consistency: "proptest_session_active_consistency clk ops"
proof -
  have "signal_rounds clk ops s" for s
  proof (induction ops arbitrary: s)
    case (Cons b ops)
    then show ?case by (cases s) (auto simp: event_defs)
  qed simp
  then show ?thesis by (simp add: proptest_session_active_consistency_def)
qed

lemma event_round_valid:
  "e < 4 \<Longrightarrow> valid_session s \<Longrightarrow> \<exists>s'. event_round clk e s = Some s' \<and> valid_session s'"
  by (cases s) (auto simp: event_round_def event_defs)

lemma sequential_event_processing:
  assumes "\<forall>e \<in> set events. e < 4"
  shows "proptest_sequential_event_processing clk events"
proof -
  have "\<exists>s'. event_rounds clk events s = Some s' \<and> valid_session s'" if "valid_session s" for s
    using assms that
  proof (induction events arbitrary: s)
    case (Cons e es)
    then show ?case using event_round_valid [of e s clk] by auto
  qed simp
  from this [of None] obtain s' where "event_rounds clk events None = Some s'" "valid_session s'" by auto
  then show ?thesis
    by (cases s') (auto simp: proptest_sequential_event_processing_def session_new_def session_status_def)
qed

text \<open>
  C25: The six property tests of the parking adaptor hold for every generated input, in range or
  not as far as they make sense: any sequence of starts and stops, any positive numbers of repeated
  locks and unlocks, any overrides, failures and sequences of the four events, at any time.
\<close>
theorem parking_property_tests_hold:
  assumes "0 < n" and "0 < m" and "\<forall>e \<in> set events. e < 4"
  shows "proptest_session_state_consistency ops \<and> proptest_idempotent_lock_events clk n m \<and>
     proptest_override_non_persistence clk do_manual_start \<and> proptest_retry_exhaustion_safety clk n_attempts \<and>
     proptest_session_active_consistency clk ops \<and> proptest_sequential_event_processing clk events"
  using session_state_consistency idempotent_lock_events [OF assms(1,2)] override_non_persistence
    retry_exhaustion_safety session_active_consistency sequential_event_processing [OF assms(3)]
  by simp

lemma parking_property_tests_hold_witness:
  "proptest_idempotent_lock_events (\<lambda>_. None) 3 2 \<and> proptest_sequential_event_processing (\<lambda>_. Some 5) [2, 0, 3, 1]"
  using parking_property_tests_hold [of 3 2 "[2, 0, 3, 1]"] by simp

section \<open>Unit tests: session.rs\<close>

definition test_session_start_stop_fields :: bool where
  "test_session_start_stop_fields =
     (let s0 = session_new;
          s1 = session_start ''s1'' ''zone-a'' 1700000000 sample_rate s0;
          (stopped_id, s2) = session_stop s1
      in \<not> is_active s0 \<and>
         (case session_status s1 of
            None \<Rightarrow> False
          | Some state \<Rightarrow> ss_session_id state = ''s1'' \<and> ss_zone_id state = ''zone-a'' \<and>
              ss_start_time state = 1700000000 \<and> rt_rate_type (ss_rate state) = ''per_hour'' \<and> ss_active state) \<and>
         stopped_id = Some ''s1'' \<and> \<not> is_active s2 \<and> session_status s2 = None)"

definition test_get_status_active :: bool where
  "test_get_status_active =
     (let session = session_start ''sess-1'' ''zone-a'' 1700000000 sample_rate session_new
      in is_active session \<and>
         (case session_status session of
            None \<Rightarrow> False
          | Some state \<Rightarrow> ss_session_id state = ''sess-1'' \<and> ss_zone_id state = ''zone-a'' \<and>
              ss_start_time state = 1700000000 \<and> rt_rate_type (ss_rate state) = ''per_hour''))"

definition test_get_status_inactive :: bool where
  "test_get_status_inactive = (\<not> is_active session_new \<and> session_status session_new = None)"

definition test_get_rate_active :: bool where
  "test_get_rate_active =
     (let session = session_start ''sess-1'' ''zone-a'' 1700000000 flat_rate session_new
      in case session_rate session of
           None \<Rightarrow> False
         | Some r \<Rightarrow> rt_rate_type r = ''flat_fee'' \<and> f64_eq (rt_amount r) f64_5 \<and> rt_currency r = ''EUR'')"

definition test_get_rate_inactive :: bool where
  "test_get_rate_inactive = (session_rate session_new = None)"

definition test_stop_no_active_session :: bool where
  "test_stop_no_active_session = (fst (session_stop session_new) = None)"

lemma session_tests:
  test_session_start_stop_fields test_get_status_active test_get_status_inactive test_get_rate_active
  test_get_rate_inactive test_stop_no_active_session
  by (simp_all add: test_session_start_stop_fields_def test_get_status_active_def test_get_status_inactive_def
      test_get_rate_active_def test_get_rate_inactive_def test_stop_no_active_session_def sample_rate_def
      flat_rate_def session_new_def session_start_def session_stop_def session_status_def session_rate_def)

section \<open>Unit tests: event_loop.rs\<close>

text \<open>What a test sees of an event: the session afterwards and the mocks; it fails when the code panics.\<close>

definition afterwards :: "session option \<times> mock_parking \<Rightarrow> (session \<Rightarrow> mock_parking \<Rightarrow> bool) \<Rightarrow> bool" where
  "afterwards r check = (case r of (None, m) \<Rightarrow> False | (Some s, m) \<Rightarrow> check s m)"

definition test_lock_event_starts_session :: "test_clk \<Rightarrow> bool" where
  "test_lock_event_starts_session clk =
     afterwards (process_lock_event (test_adaptor clk ''DEMO-VIN-001'') ''zone-demo-1'' True session_new (starting ''sess-1''))
       (\<lambda>session m. is_active session \<and> length (start_calls m) = 1 \<and>
          fst (start_calls m ! 0) = ''DEMO-VIN-001'' \<and> snd (start_calls m ! 0) = ''zone-demo-1'' \<and>
          last_set_bool m = Some (SIGNAL_SESSION_ACTIVE, True))"

definition test_unlock_event_stops_session :: "test_clk \<Rightarrow> bool" where
  "test_unlock_event_stops_session clk =
     afterwards (lock_event clk False running_session (stopping ''sess-1''))
       (\<lambda>session m. \<not> is_active session \<and> length (stop_calls m) = 1 \<and> stop_calls m ! 0 = ''sess-1'' \<and>
          last_set_bool m = Some (SIGNAL_SESSION_ACTIVE, False))"

definition test_session_active_set_true :: "test_clk \<Rightarrow> bool" where
  "test_session_active_set_true clk =
     afterwards (lock_event clk True session_new (starting ''sess-1''))
       (\<lambda>session m. list_ex (\<lambda>(s, v). s = SIGNAL_SESSION_ACTIVE \<and> v) (mk_set_bool_calls m))"

definition test_session_active_set_false :: "test_clk \<Rightarrow> bool" where
  "test_session_active_set_false clk =
     afterwards (lock_event clk False running_session (stopping ''sess-1''))
       (\<lambda>session m. list_ex (\<lambda>(s, v). s = SIGNAL_SESSION_ACTIVE \<and> \<not> v) (mk_set_bool_calls m))"

definition test_manual_start_session :: "test_clk \<Rightarrow> bool" where
  "test_manual_start_session clk =
     (case fst (process_manual_start (test_adaptor clk ''VIN'') ''zone-a'' session_new (starting ''sess-1'')) of
        Some (Inr resp, session) \<Rightarrow>
          sr_session_id resp = ''sess-1'' \<and> rp_rate_type (sr_rate resp) = ''per_hour'' \<and>
          f64_eq (rp_amount (sr_rate resp)) f64_2_5 \<and> rp_currency (sr_rate resp) = ''EUR'' \<and> is_active session
      | _ \<Rightarrow> False)"

definition test_manual_stop_session :: "test_clk \<Rightarrow> bool" where
  "test_manual_stop_session clk =
     (case fst (process_manual_stop (test_adaptor clk ''VIN'') running_session (stopping ''sess-1'')) of
        Some (Inr resp, session) \<Rightarrow>
          pr_session_id resp = ''sess-1'' \<and> pr_duration_seconds resp = 3600 \<and>
          f64_eq (pr_total_amount resp) f64_2_5 \<and> \<not> is_active session
      | _ \<Rightarrow> False)"

definition test_manual_start_override :: "test_clk \<Rightarrow> bool" where
  "test_manual_start_override clk =
     (case fst (process_manual_start (test_adaptor clk ''VIN'') ''zone-manual'' session_new (starting ''sess-1'')) of
        Some (Inr resp, session) \<Rightarrow> sr_session_id resp \<noteq> [] \<and> is_active session
      | _ \<Rightarrow> False)"

definition test_manual_stop_override :: "test_clk \<Rightarrow> bool" where
  "test_manual_stop_override clk =
     (case fst (process_manual_stop (test_adaptor clk ''VIN'') running_session (stopping ''sess-1'')) of
        Some (Inr resp, session) \<Rightarrow> pr_session_id resp = ''sess-1'' \<and> \<not> is_active session
      | _ \<Rightarrow> False)"

definition test_start_session_already_active :: "test_clk \<Rightarrow> bool" where
  "test_start_session_already_active clk =
     (case fst (process_manual_start (test_adaptor clk ''VIN'') ''zone-b'' running_session mock_parking_new) of
        Some (Inl (AlreadyExists i), session) \<Rightarrow> i = ''sess-1''
      | _ \<Rightarrow> False)"

definition test_stop_session_no_active :: "test_clk \<Rightarrow> bool" where
  "test_stop_session_no_active clk =
     (case fst (process_manual_stop (test_adaptor clk ''VIN'') session_new mock_parking_new) of
        Some (Inl FailedPrecondition, session) \<Rightarrow> True
      | _ \<Rightarrow> False)"

definition test_lock_event_noop_when_active :: "test_clk \<Rightarrow> bool" where
  "test_lock_event_noop_when_active clk =
     afterwards (lock_event clk True running_session mock_parking_new)
       (\<lambda>session m. start_call_count m = 0 \<and> is_active session \<and>
          map_option ss_session_id (session_status session) = Some ''sess-1'')"

definition test_unlock_event_noop_when_inactive :: "test_clk \<Rightarrow> bool" where
  "test_unlock_event_noop_when_inactive clk =
     afterwards (lock_event clk False session_new mock_parking_new)
       (\<lambda>session m. stop_call_count m = 0 \<and> \<not> is_active session)"

definition test_session_active_publish_failure :: "test_clk \<Rightarrow> bool" where
  "test_session_active_publish_failure clk =
     afterwards (lock_event clk True session_new (fail_set_bool (starting ''sess-1'')))
       (\<lambda>s1 m1. is_active s1 \<and>
          afterwards (lock_event clk False s1 (stopping ''sess-1'')) (\<lambda>s2 m2. \<not> is_active s2))"

definition test_override_resumes_autonomous :: "test_clk \<Rightarrow> bool" where
  "test_override_resumes_autonomous clk =
     (let A = test_adaptor clk ''VIN''
      in case fst (process_manual_start A ''zone-a'' session_new (starting ''sess-1'')) of
           None \<Rightarrow> False
         | Some (r1, s1) \<Rightarrow> is_active s1 \<and>
             (case fst (process_manual_stop A s1 (stopping ''sess-1'')) of
                None \<Rightarrow> False
              | Some (r2, s2) \<Rightarrow> \<not> is_active s2 \<and>
                  afterwards (lock_event clk True s2 (starting ''sess-2''))
                    (\<lambda>s3 m. is_active s3 \<and> start_call_count m = 1)))"

definition test_concurrent_lock_and_stop_serialized :: "test_clk \<Rightarrow> bool" where
  "test_concurrent_lock_and_stop_serialized clk =
     afterwards (lock_event clk True running_session mock_parking_new)
       (\<lambda>s1 m1. is_active s1 \<and>
          (case fst (process_manual_stop (test_adaptor clk ''VIN'') s1 (stopping ''sess-1'')) of
             Some (Inr _, s2) \<Rightarrow> \<not> is_active s2
           | _ \<Rightarrow> False))"

lemmas test_tools = event_defs afterwards_def running_session_def start_calls_def start_call_count_def
  stop_calls_def stop_call_count_def fail_set_bool_def

lemma event_loop_tests:
  "test_lock_event_starts_session clk" "test_unlock_event_stops_session clk" "test_session_active_set_true clk"
  "test_session_active_set_false clk" "test_manual_start_session clk" "test_manual_stop_session clk"
  "test_manual_start_override clk" "test_manual_stop_override clk" "test_start_session_already_active clk"
  "test_stop_session_no_active clk" "test_lock_event_noop_when_active clk" "test_unlock_event_noop_when_inactive clk"
  "test_override_resumes_autonomous clk" "test_concurrent_lock_and_stop_serialized clk"
  by (simp_all add: test_tools test_lock_event_starts_session_def test_unlock_event_stops_session_def
      test_session_active_set_true_def test_session_active_set_false_def test_manual_start_session_def
      test_manual_stop_session_def test_manual_start_override_def test_manual_stop_override_def
      test_start_session_already_active_def test_stop_session_no_active_def test_lock_event_noop_when_active_def
      test_unlock_event_noop_when_inactive_def test_override_resumes_autonomous_def
      test_concurrent_lock_and_stop_serialized_def) (simp_all add: mock_parking_new_def)

lemma publish_failure_test: "test_session_active_publish_failure clk"
  by (simp add: test_session_active_publish_failure_def test_tools mock_start_session_def mock_defs)
    (simp add: mock_stop_session_def mock_parking_set_bool_def session_stop_def)

section \<open>Unit tests: config.rs\<close>

definition set_env :: "string \<Rightarrow> string option \<Rightarrow> world \<Rightarrow> world" where
  "set_env name val W = W\<lparr>w_env := (w_env W)(name := val)\<rparr>"

definition clear_config_env :: "world \<Rightarrow> world" where
  "clear_config_env W =
     fold (\<lambda>name. set_env name None)
       [''PARKING_OPERATOR_URL'', ''DATA_BROKER_ADDR'', ''GRPC_PORT'', ''VEHICLE_ID'', ''ZONE_ID''] W"

definition test_config_defaults :: "world \<Rightarrow> bool" where
  "test_config_defaults W =
     (case load_config_pa (clear_config_env W) of
        Inl e \<Rightarrow> False
      | Inr config \<Rightarrow>
          pc_parking_operator_url config = ''http://localhost:8080'' \<and>
          pc_data_broker_addr config = ''http://localhost:55556'' \<and> pc_grpc_port config = 50053 \<and>
          pc_vehicle_id config = ''DEMO-VIN-001'' \<and> pc_zone_id config = ''zone-demo-1'')"

definition test_config_custom_values :: "world \<Rightarrow> bool" where
  "test_config_custom_values W =
     (let W' = fold (\<lambda>(name, val). set_env name (Some val))
          [(''PARKING_OPERATOR_URL'', ''http://op.example.com:9090''),
           (''DATA_BROKER_ADDR'', ''http://10.0.0.5:55556''), (''GRPC_PORT'', ''50099''),
           (''VEHICLE_ID'', ''VIN-CUSTOM-123''), (''ZONE_ID'', ''zone-custom-1'')] W
      in case load_config_pa W' of
           Inl e \<Rightarrow> False
         | Inr config \<Rightarrow>
             pc_parking_operator_url config = ''http://op.example.com:9090'' \<and>
             pc_data_broker_addr config = ''http://10.0.0.5:55556'' \<and> pc_grpc_port config = 50099 \<and>
             pc_vehicle_id config = ''VIN-CUSTOM-123'' \<and> pc_zone_id config = ''zone-custom-1'')"

definition test_grpc_port_default :: "world \<Rightarrow> bool" where
  "test_grpc_port_default W =
     (case load_config_pa (clear_config_env W) of Inl e \<Rightarrow> False | Inr config \<Rightarrow> pc_grpc_port config = 50053)"

definition test_grpc_port_custom :: "world \<Rightarrow> bool" where
  "test_grpc_port_custom W =
     (case load_config_pa (set_env ''GRPC_PORT'' (Some ''50099'') (clear_config_env W)) of
        Inl e \<Rightarrow> False | Inr config \<Rightarrow> pc_grpc_port config = 50099)"

definition test_config_invalid_grpc_port :: "world \<Rightarrow> bool" where
  "test_config_invalid_grpc_port W =
     (case load_config_pa (set_env ''GRPC_PORT'' (Some ''abc'') (clear_config_env W)) of
        Inl (InvalidGrpcPort _) \<Rightarrow> True | _ \<Rightarrow> False)"

lemma parsed_ports: "parse_unsigned 16 ''50099'' = Inr 50099" "\<exists>e. parse_unsigned 16 ''abc'' = Inl e"
  by (simp_all add: parse_unsigned_def digit_val_def of_char_def)

lemma cleared_env:
  "w_env (clear_config_env W) ''PARKING_OPERATOR_URL'' = None" "w_env (clear_config_env W) ''DATA_BROKER_ADDR'' = None"
  "w_env (clear_config_env W) ''GRPC_PORT'' = None" "w_env (clear_config_env W) ''VEHICLE_ID'' = None"
  "w_env (clear_config_env W) ''ZONE_ID'' = None"
  by (simp_all add: clear_config_env_def set_env_def)

lemma config_default_tests: "test_config_defaults W" "test_grpc_port_default W"
  by (simp_all add: test_config_defaults_def test_grpc_port_default_def load_config_pa_def cleared_env)

lemma config_custom_tests: "test_config_custom_values W" "test_grpc_port_custom W"
  by (simp_all add: test_config_custom_values_def test_grpc_port_custom_def load_config_pa_def set_env_def
      parsed_ports(1))

lemma config_invalid_test: "test_config_invalid_grpc_port W"
proof -
  obtain e where "parse_unsigned 16 ''abc'' = Inl e" using parsed_ports(2) by blast
  then show ?thesis by (simp add: test_config_invalid_grpc_port_def load_config_pa_def set_env_def)
qed

section \<open>Unit tests: operator.rs\<close>

text \<open>
  The mock server answers the requests on a path whose body has the expected keys, the \<open>n\<close>-th of
  them with the \<open>n\<close>-th response and further ones with the last; anything else is not found. \<open>text\<close>
  is the JSON text of the mounted body.
\<close>

definition ok_response :: "string \<Rightarrow> http_response" where
  "ok_response body = \<lparr>hr_success = True, hr_status_text = ''200 OK'', hr_body = Inr body\<rparr>"

definition error_response :: "string \<Rightarrow> http_response" where
  "error_response status = \<lparr>hr_success = False, hr_status_text = status, hr_body = Inr []\<rparr>"

definition mock_server :: "string \<Rightarrow> string list \<Rightarrow> http_response list \<Rightarrow> world \<Rightarrow> world" where
  "mock_server path expected rs W =
     W\<lparr>w_post := (\<lambda>t url body.
        if url = path \<and> list_all (\<lambda>k. json_get body k \<noteq> None) expected
        then Inr (rs ! min (post_attempts t) (length rs - 1)) else Inr (error_response ''404 Not Found''))\<rparr>"

definition server_error :: http_response where
  "server_error = error_response ''500 Internal Server Error''"

definition start_json :: start_response where
  "start_json = \<lparr>sr_session_id = ''s1'', sr_status = ''active'',
     sr_rate = \<lparr>rp_rate_type = ''per_hour'', rp_amount = f64_2_5, rp_currency = ''EUR''\<rparr>\<rparr>"

definition stop_json :: stop_response where
  "stop_json = \<lparr>pr_session_id = ''sess-1'', pr_status = ''completed'', pr_duration_seconds = 3600,
     pr_total_amount = f64_2_5, pr_currency = ''EUR''\<rparr>"

definition test_start_session_request :: "operator_client \<Rightarrow> string \<Rightarrow> world \<Rightarrow> bool" where
  "test_start_session_request oc body W =
     (let W' = mock_server (oc_base_url oc @ ''/parking/start'') [''vehicle_id'', ''zone_id'', ''timestamp''] [ok_response body] W
      in case oc_start_session oc W' ''DEMO-VIN-001'' ''zone-a'' [] of
           (Some (Inr resp), t) \<Rightarrow>
             sr_session_id resp = ''s1'' \<and> rp_rate_type (sr_rate resp) = ''per_hour'' \<and>
             f64_eq (rp_amount (sr_rate resp)) f64_2_5 \<and> rp_currency (sr_rate resp) = ''EUR'' \<and> post_attempts t = 1
         | _ \<Rightarrow> False)"

definition test_stop_session_request :: "operator_client \<Rightarrow> string \<Rightarrow> world \<Rightarrow> bool" where
  "test_stop_session_request oc body W =
     (let W' = mock_server (oc_base_url oc @ ''/parking/stop'') [''session_id'', ''timestamp''] [ok_response body] W
      in case oc_stop_session oc W' ''sess-1'' [] of
           (Some (Inr resp), t) \<Rightarrow>
             pr_session_id resp = ''sess-1'' \<and> pr_duration_seconds resp = 3600 \<and>
             f64_eq (pr_total_amount resp) f64_2_5 \<and> pr_currency resp = ''EUR'' \<and> post_attempts t = 1
         | _ \<Rightarrow> False)"

definition test_start_response_parsing :: "operator_client \<Rightarrow> string \<Rightarrow> world \<Rightarrow> bool" where
  "test_start_response_parsing oc body W =
     (let W' = mock_server (oc_base_url oc @ ''/parking/start'') [] [ok_response body] W
      in case oc_start_session oc W' ''VIN'' ''zone'' [] of
           (Some (Inr resp), t) \<Rightarrow>
             sr_session_id resp = ''s1'' \<and> sr_status resp = ''active'' \<and>
             rp_rate_type (sr_rate resp) = ''per_hour'' \<and> f64_eq (rp_amount (sr_rate resp)) f64_2_5
         | _ \<Rightarrow> False)"

text \<open>Two tests of the same calls: 500 twice, then 200.\<close>

definition test_retry_on_failure :: "operator_client \<Rightarrow> string \<Rightarrow> world \<Rightarrow> bool" where
  "test_retry_on_failure oc body W =
     (let W' = mock_server (oc_base_url oc @ ''/parking/start'') [] [server_error, server_error, ok_response body] W
      in case oc_start_session oc W' ''VIN'' ''zone'' [] of
           (Some r, t) \<Rightarrow> is_ok r \<and> post_attempts t = 3 | _ \<Rightarrow> False)"

definition test_retry_on_non_200 :: "operator_client \<Rightarrow> string \<Rightarrow> world \<Rightarrow> bool" where
  "test_retry_on_non_200 oc body W =
     (let W' = mock_server (oc_base_url oc @ ''/parking/start'') [] [server_error, server_error, ok_response body] W
      in case oc_start_session oc W' ''VIN'' ''zone'' [] of
           (Some r, t) \<Rightarrow> is_ok r \<and> post_attempts t = 3 | _ \<Rightarrow> False)"

definition test_retry_exhausted :: "operator_client \<Rightarrow> world \<Rightarrow> bool" where
  "test_retry_exhausted oc W =
     (let W' = mock_server (oc_base_url oc @ ''/parking/start'') [] [server_error] W
      in case oc_start_session oc W' ''VIN'' ''zone'' [] of
           (Some r, t) \<Rightarrow> \<not> is_ok r \<and> post_attempts t = 4 | _ \<Rightarrow> False)"

lemmas operator_call_defs = oc_start_session_def oc_stop_session_def post_with_retry_def post_attempt_def
  MAX_RETRIES_def RETRY_DELAYS_MS_def mock_server_def server_error_def error_response_def ok_response_def
  response_json_as_def io_simps start_request_json_def stop_request_json_def

lemma operator_tests:
  assumes "w_clock W [] \<noteq> None" and "oc_de_start oc body = Inr start_json" and "oc_de_stop oc body' = Inr stop_json"
  shows "test_start_session_request oc body W" "test_stop_session_request oc body' W"
    "test_start_response_parsing oc body W" "test_retry_on_failure oc body W" "test_retry_on_non_200 oc body W"
    "test_retry_exhausted oc W"
  using assms
  by (auto simp: test_start_session_request_def test_stop_session_request_def test_start_response_parsing_def
      test_retry_on_failure_def test_retry_on_non_200_def test_retry_exhausted_def operator_call_defs
      start_json_def stop_json_def Let_def upt_rec numeral_eq_Suc)

end
