(* ===== verification/Update_Types.thy ===== *)
theory Update_Types
  imports Update_Safety
begin

text \<open>
  What is well-typed about the entries of the adapter store, under every interleaving, and which
  podman calls a removal and an offload cycle make whatever the other tasks do meanwhile.
\<close>

section \<open>Well-typed entries\<close>

text \<open>
  The optional fields belong to states: a stopped adapter has the time at which it was stopped, from
  which its offloading is computed, and a failed one has a message. An entry carries a
  non-empty image and checksum, and the id is derived from the image.
\<close>

definition typed_entry :: "adapter_entry \<Rightarrow> bool" where
  "typed_entry e =
     (ae_adapter_id e = derive_adapter_id (ae_image_ref e) \<and> ae_image_ref e \<noteq> [] \<and> ae_checksum_sha256 e \<noteq> [] \<and>
      (ae_state e = Stopped \<longrightarrow> ae_stopped_at e \<noteq> None) \<and> (ae_state e = Error \<longrightarrow> ae_error_message e \<noteq> None))"

text \<open>A task keeps the entries well-typed: whatever it is answered.\<close>

primrec typed_task :: "task \<Rightarrow> bool" where
  "typed_task (Return r) = True"
| "typed_task (Uuid k) = (\<forall>u. typed_task (k u))"
| "typed_task (Get_Running k) = (\<forall>x. typed_task (k x))"
| "typed_task (Get_Adapter i k) = (\<forall>x. typed_task (k x))"
| "typed_task (Candidates timeout k) = (\<forall>x. typed_task (k x))"
| "typed_task (Create e k) = (typed_entry e \<and> typed_task k)"
| "typed_task (Transition i st msg k) = ((st = Error \<longrightarrow> msg \<noteq> None) \<and> typed_task k)"
| "typed_task (Erase i k) = typed_task k"
| "typed_task (Pull img k) = (\<forall>r. typed_task (k r))"
| "typed_task (Inspect_Digest img k) = (\<forall>r. typed_task (k r))"
| "typed_task (Run_Container i img k) = (\<forall>r. typed_task (k r))"
| "typed_task (Stop i k) = (\<forall>r. typed_task (k r))"
| "typed_task (Rm i k) = (\<forall>r. typed_task (k r))"
| "typed_task (Rmi img k) = (\<forall>r. typed_task (k r))"
| "typed_task (Wait i k) = (\<forall>r. typed_task (k r))"
| "typed_task (Spawn p k) = (typed_task p \<and> typed_task k)"

lemma typed_monitor [simp]: "typed_task (monitor_container i)"
  by (auto simp: monitor_container_def split: sum.split)

lemma typed_install_task [simp]: "typed_task (install_task i img cs)"
  by (auto simp: install_task_def split: sum.split)

lemma typed_install: "typed_task (install_adapter img cs)"
  by (auto simp: install_adapter_def install_rest_def new_entry_def typed_entry_def Let_def
      split: option.split sum.split)

lemma typed_remove: "typed_task (remove_adapter i)"
  by (auto simp: remove_adapter_def remove_rest_def remove_failed_def split: option.split sum.split)

lemma typed_offload_each [simp]: "typed_task (offload_each cs)"
  by (induction cs) (auto split: sum.split)

lemma typed_offload: "typed_task (run_offload_cycle timeout)"
  by (simp add: run_offload_cycle_def)

definition typed_store :: "state_manager \<Rightarrow> bool" where
  "typed_store sm = (wf_sm sm \<and> (\<forall>i e. sm_lookup sm i = Some e \<longrightarrow> typed_entry e))"

lemma typed_move_entry: "typed_entry e \<Longrightarrow> st = Error \<longrightarrow> msg \<noteq> None \<Longrightarrow> typed_entry (move_entry st msg now e)"
  by (auto simp: typed_entry_def move_entry_def Let_def)

lemma typed_act:
  assumes "act a p sm = Some (q, new, calls, sm')" and "typed_task p" and "typed_store sm"
  shows "typed_task q \<and> (\<forall>p' \<in> set new. typed_task p') \<and> typed_store sm'"
proof -
  have "typed_task q" "\<forall>p' \<in> set new. typed_task p'" using assms(1,2) by (cases p; auto)+
  moreover have "typed_store sm'"
  proof (cases p)
    case (Create e k)
    then show ?thesis using assms by (auto simp: typed_store_def store_simps split: if_splits)
  next
    case (Transition i st msg k)
    then have "sm' = sm_move i st msg (an_now a) (an_secs a) sm" using assms(1) by (simp add: sm_move_def)
    then show ?thesis
      using assms Transition by (auto simp: typed_store_def store_simps goto_def typed_move_entry split: if_splits)
  next
    case (Erase i k)
    then have "sm' = sm_erase i sm" using assms(1) by (simp add: sm_erase_def)
    then show ?thesis using assms by (auto simp: typed_store_def store_simps split: if_splits)
  qed (use assms in auto)
  ultimately show ?thesis by simp
qed

definition typed_system :: "update_system \<Rightarrow> bool" where
  "typed_system s =
     (typed_store (us_sm s) \<and> (\<forall>p \<in> set (us_tasks s). typed_task p) \<and>
      (\<forall>p. us_timer s = Some p \<longrightarrow> typed_task p))"

lemma typed_step:
  assumes "sys_step timeout s t" and "typed_system s"
  shows "typed_system t"
  using assms(1)
proof cases
  case (turn xs p ys a q new calls sm')
  then show ?thesis using typed_act [OF turn(3)] assms(2) by (auto simp: typed_system_def)
next
  case (timer_turn p a q new calls sm')
  then show ?thesis using typed_act [OF timer_turn(3)] assms(2) by (auto simp: typed_system_def)
next
  case (rehash al)
  then have "map_of al = sm_lookup (us_sm s)"
    using assms(2) by (intro map_of_rehash) (auto simp: typed_system_def typed_store_def wf_sm_def)
  then show ?thesis using rehash assms(2) by (auto simp: typed_system_def typed_store_def wf_sm_def)
qed (use assms(2) in \<open>auto simp: typed_system_def typed_install typed_remove typed_offload\<close>)

interpretation update_types: safe_system "\<lambda>s. s = us_init" "sys_step timeout" typed_system
  by unfold_locales
    (auto simp: typed_step, simp add: typed_system_def us_init_def sm_new_def typed_store_def wf_sm_def)

text \<open>
  C11: Under every interleaving, every entry of the store is well-typed: it is stored under the id
  derived from its non-empty image, it has a non-empty checksum, a time of stopping when it is
  STOPPED, so that it will be offloaded, and an error message when it is in ERROR.
\<close>
theorem entries_well_typed:
  assumes "reachable timeout s" and "sm_lookup (us_sm s) i = Some e"
  shows "typed_entry e \<and> i = derive_adapter_id (ae_image_ref e)"
proof -
  have "typed_system s" using assms(1) unfolding reachable_def by (rule update_types.reachable_inv [OF refl])
  then show ?thesis using assms(2) by (auto simp: typed_system_def typed_store_def wf_sm_alt typed_entry_def)
qed

lemma entries_well_typed_witness:
  "\<exists>s e. reachable 5 s \<and> sm_lookup (us_sm s) ''a-1'' = Some e \<and> typed_entry e"
proof -
  have "map_option (\<lambda>s. sm_lookup (us_sm s) ''a-1'' \<noteq> None) (follow 5 one_install us_init) = Some True"
    by code_simp
  then obtain s e where s: "reachable 5 s" "sm_lookup (us_sm s) ''a-1'' = Some e"
    using follow_reachable by fastforce
  from entries_well_typed [OF s] s show ?thesis by blast
qed

section \<open>Removal and offloading among other tasks\<close>

text \<open>
  \<open>performs p T q\<close>: the task can go on from \<open>p\<close> to \<open>q\<close> with the podman calls \<open>T\<close>. At every action it
  meets another store, since any other task may have acted in between.
\<close>

inductive performs :: "task \<Rightarrow> call list \<Rightarrow> task \<Rightarrow> bool" where
  stay: "performs p [] p"
| action: "act a p sm = Some (q, new, calls, sm') \<Longrightarrow> performs q T r \<Longrightarrow> performs p (calls @ T) r"

inductive_cases performs_cases: "performs p T q"

lemma performs_Return [simp]: "performs (Return x) T (Return r) \<longleftrightarrow> T = [] \<and> x = r"
  by (auto elim: performs_cases intro: performs.stay)














end
