(* ===== verification/Update_Tests.thy ===== *)
theory Update_Tests
  imports Update_Types "HOL-Library.Multiset"
begin

text \<open>
  The tests of rhivos/update-service: src/proptest_cases.rs and the unit tests of adapter.rs,
  state.rs, install.rs, monitor.rs and offload.rs. A test is the boolean of its assertions. Where a
  test sleeps for the background task of an installation, the task has run to its end
  (\<open>install_all\<close>); the monitor that it spawned waits, as the mock makes it. The host has the mock
  executor, a fixed job id and fixed readings of the clocks; all three are arbitrary.
\<close>

definition set_pull_result :: "podman_error + unit \<Rightarrow> mock_podman \<Rightarrow> mock_podman" where
  "set_pull_result r m = m\<lparr>mp_pull_result := Some r\<rparr>"
definition set_inspect_result :: "podman_error + string \<Rightarrow> mock_podman \<Rightarrow> mock_podman" where
  "set_inspect_result r m = m\<lparr>mp_inspect_result := Some r\<rparr>"
definition set_run_result :: "podman_error + unit \<Rightarrow> mock_podman \<Rightarrow> mock_podman" where
  "set_run_result r m = m\<lparr>mp_run_result := Some r\<rparr>"
definition set_stop_result :: "podman_error + unit \<Rightarrow> mock_podman \<Rightarrow> mock_podman" where
  "set_stop_result r m = m\<lparr>mp_stop_result := Some r\<rparr>"
definition set_rm_result :: "podman_error + unit \<Rightarrow> mock_podman \<Rightarrow> mock_podman" where
  "set_rm_result r m = m\<lparr>mp_rm_result := Some r\<rparr>"
definition set_rmi_result :: "podman_error + unit \<Rightarrow> mock_podman \<Rightarrow> mock_podman" where
  "set_rmi_result r m = m\<lparr>mp_rmi_result := Some r\<rparr>"
definition set_wait_result :: "podman_error + int \<Rightarrow> mock_podman \<Rightarrow> mock_podman" where
  "set_wait_result r m = m\<lparr>mp_wait_result := Some r\<rparr>"
definition set_wait_immediate :: "bool \<Rightarrow> mock_podman \<Rightarrow> mock_podman" where
  "set_wait_immediate b m = m\<lparr>mp_wait_immediate := b\<rparr>"

lemmas mock_setters = set_pull_result_def set_inspect_result_def set_run_result_def set_stop_result_def
  set_rm_result_def set_rmi_result_def set_wait_result_def set_wait_immediate_def set_stop_result_for_def
  mock_podman_new_def

definition test_host :: "string \<Rightarrow> nat \<Rightarrow> 64 word option \<Rightarrow> mock_podman host" where
  "test_host job now secs =
     \<lparr>ho_podman = mock_executor, ho_uuid = (\<lambda>m. (job, m)), ho_instant = (\<lambda>_. now), ho_secs = (\<lambda>_. secs)\<rparr>"

lemma test_host_simps [simp]:
  "ho_podman (test_host job now secs) = mock_executor" "ho_uuid (test_host job now secs) m = (job, m)"
  "ho_instant (test_host job now secs) m = now" "ho_secs (test_host job now secs) m = secs"
  by (simp_all add: test_host_def)

definition contains :: "string \<Rightarrow> string \<Rightarrow> bool" where
  "contains s part = (\<exists>n \<le> length s. take (length part) (drop n s) = part)"

lemma contains_self [simp]: "contains s s"
  by (auto simp: contains_def intro: exI [of _ 0])

text \<open>An installation with its background task, on a new store: the mock and the store afterwards.\<close>

definition installed ::
    "mock_podman host \<Rightarrow> string \<Rightarrow> string \<Rightarrow> mock_podman \<Rightarrow> state_manager \<Rightarrow> (mock_podman \<times> state_manager) option" where
  "installed H img cs m sm =
     (case install_all H img cs m sm of
        (Installed (Inr _), ps, m', sm') \<Rightarrow> Some (m', sm')
      | _ \<Rightarrow> None)"

definition IMAGE_REF :: string where
  "IMAGE_REF = ''us-docker.pkg.dev/sdv-demo/adapters/parkhaus-munich:v1.0.0''"
definition CHECKSUM :: string where "CHECKSUM = ''sha256:abc123''"
definition ADAPTER_ID :: string where "ADAPTER_ID = ''parkhaus-munich-v1.0.0''"

definition install_mock :: mock_podman where
  "install_mock = set_run_result (Inr ()) (set_inspect_result (Inr CHECKSUM) (set_pull_result (Inr ()) mock_podman_new))"

definition test_install_response_immediate :: "(string \<Rightarrow> bool) \<Rightarrow> mock_podman host \<Rightarrow> bool" where
  "test_install_response_immediate is_uuid H =
     (case fst (exec H (install_adapter IMAGE_REF CHECKSUM) install_mock sm_new) of
        Installed (Inr (job_id, adapter_id, st)) \<Rightarrow> is_uuid job_id \<and> adapter_id = ADAPTER_ID \<and> st = Downloading
      | _ \<Rightarrow> False)"

definition test_install_calls_podman_pull :: "mock_podman host \<Rightarrow> bool" where
  "test_install_calls_podman_pull H =
     (case installed H IMAGE_REF CHECKSUM install_mock sm_new of
        None \<Rightarrow> False | Some (m, sm) \<Rightarrow> mp_pull_calls m = [IMAGE_REF])"

definition test_install_verifies_checksum :: "mock_podman host \<Rightarrow> bool" where
  "test_install_verifies_checksum H =
     (case installed H IMAGE_REF CHECKSUM install_mock sm_new of
        None \<Rightarrow> False
      | Some (m, sm) \<Rightarrow> length (mp_inspect_calls m) = 1 \<and>
          (case get_adapter ADAPTER_ID sm of
             None \<Rightarrow> False | Some adapter \<Rightarrow> ae_state adapter = Installing \<or> ae_state adapter = Running))"

definition test_install_runs_with_network_host :: "mock_podman host \<Rightarrow> bool" where
  "test_install_runs_with_network_host H =
     (case installed H IMAGE_REF CHECKSUM install_mock sm_new of
        None \<Rightarrow> False | Some (m, sm) \<Rightarrow> mp_run_calls m = [(ADAPTER_ID, IMAGE_REF)])"

text \<open>The state in which the store has an adapter.\<close>

definition in_state :: "state_manager \<Rightarrow> string \<Rightarrow> adapter_state \<Rightarrow> bool" where
  "in_state sm i st = (case get_adapter i sm of None \<Rightarrow> False | Some adapter \<Rightarrow> ae_state adapter = st)"

definition message_contains :: "state_manager \<Rightarrow> string \<Rightarrow> string \<Rightarrow> bool" where
  "message_contains sm i part =
     (case get_adapter i sm of None \<Rightarrow> False
      | Some adapter \<Rightarrow> contains (unwrap_or [] (ae_error_message adapter)) part)"

definition test_install_reaches_running :: "mock_podman host \<Rightarrow> bool" where
  "test_install_reaches_running H =
     (case installed H IMAGE_REF CHECKSUM install_mock sm_new of
        None \<Rightarrow> False | Some (m, sm) \<Rightarrow> in_state sm ADAPTER_ID Running)"

definition test_install_empty_image_ref :: "mock_podman host \<Rightarrow> bool" where
  "test_install_empty_image_ref H =
     (case fst (exec H (install_adapter [] CHECKSUM) mock_podman_new sm_new) of
        Installed (Inl (InvalidArgument msg)) \<Rightarrow> contains msg ''image_ref is required''
      | _ \<Rightarrow> False)"

definition test_install_empty_checksum :: "mock_podman host \<Rightarrow> bool" where
  "test_install_empty_checksum H =
     (case fst (exec H (install_adapter IMAGE_REF []) mock_podman_new sm_new) of
        Installed (Inl (InvalidArgument msg)) \<Rightarrow> contains msg ''checksum_sha256 is required''
      | _ \<Rightarrow> False)"

definition test_pull_failure_error_state :: "mock_podman host \<Rightarrow> bool" where
  "test_pull_failure_error_state H =
     (let m0 = set_pull_result (Inl (PodmanError ''connection refused'')) mock_podman_new
      in case installed H ''bad-registry.com/img:v1'' ''sha256:abc'' m0 sm_new of
           None \<Rightarrow> False
         | Some (m, sm) \<Rightarrow> in_state sm ''img-v1'' Error \<and> message_contains sm ''img-v1'' ''connection refused'')"

definition test_checksum_mismatch_error :: "mock_podman host \<Rightarrow> bool" where
  "test_checksum_mismatch_error H =
     (let m0 = set_rmi_result (Inr ()) (set_inspect_result (Inr ''sha256:different'') (set_pull_result (Inr ()) mock_podman_new));
          image_ref = ''example.com/img:v1''
      in case installed H image_ref ''sha256:expected'' m0 sm_new of
           None \<Rightarrow> False
         | Some (m, sm) \<Rightarrow> in_state sm ''img-v1'' Error \<and> message_contains sm ''img-v1'' ''checksum_mismatch'' \<and>
             image_ref \<in> set (mp_rmi_calls m))"

definition test_run_failure_error_state :: "mock_podman host \<Rightarrow> bool" where
  "test_run_failure_error_state H =
     (let m0 = set_run_result (Inl (PodmanError ''container create failed''))
            (set_inspect_result (Inr ''sha256:abc'') (set_pull_result (Inr ()) mock_podman_new))
      in case installed H ''example.com/img:v1'' ''sha256:abc'' m0 sm_new of
           None \<Rightarrow> False | Some (m, sm) \<Rightarrow> in_state sm ''img-v1'' Error)"

definition test_single_adapter_stops_running :: "mock_podman host \<Rightarrow> bool" where
  "test_single_adapter_stops_running H =
     (let m0 = set_stop_result (Inr ()) (set_run_result (Inr ())
            (set_inspect_result (Inr ''sha256:aaa'') (set_pull_result (Inr ()) mock_podman_new)))
      in case installed H ''example.com/adapter-a:v1'' ''sha256:aaa'' m0 sm_new of
           None \<Rightarrow> False
         | Some (m1, sm1) \<Rightarrow> in_state sm1 ''adapter-a-v1'' Running \<and>
             (case installed H ''example.com/adapter-b:v1'' ''sha256:bbb''
                    (set_inspect_result (Inr ''sha256:bbb'') m1) sm1 of
                None \<Rightarrow> False
              | Some (m2, sm2) \<Rightarrow> ''adapter-a-v1'' \<in> set (mp_stop_calls m2) \<and>
                  in_state sm2 ''adapter-a-v1'' Stopped \<and> in_state sm2 ''adapter-b-v1'' Running))"

definition test_stop_failure_install_proceeds :: "mock_podman host \<Rightarrow> bool" where
  "test_stop_failure_install_proceeds H =
     (let m0 = set_run_result (Inr ()) (set_inspect_result (Inr ''sha256:aaa'') (set_pull_result (Inr ()) mock_podman_new))
      in case installed H ''example.com/adapter-a:v1'' ''sha256:aaa'' m0 sm_new of
           None \<Rightarrow> False
         | Some (m1, sm1) \<Rightarrow>
             (case installed H ''example.com/adapter-b:v1'' ''sha256:bbb''
                    (set_inspect_result (Inr ''sha256:bbb'')
                      (set_stop_result_for ''adapter-a-v1'' (Inl (PodmanError ''timeout'')) m1)) sm1 of
                None \<Rightarrow> False
              | Some (m2, sm2) \<Rightarrow> in_state sm2 ''adapter-a-v1'' Error \<and> in_state sm2 ''adapter-b-v1'' Running))"

definition entry_of :: "string \<Rightarrow> string \<Rightarrow> string \<Rightarrow> adapter_state \<Rightarrow> string \<Rightarrow> nat option \<Rightarrow> adapter_entry" where
  "entry_of i img cs st job stopped_at =
     \<lparr>ae_adapter_id = i, ae_image_ref = img, ae_checksum_sha256 = cs, ae_state = st, ae_job_id = job,
      ae_stopped_at = stopped_at, ae_error_message = None\<rparr>"

definition test_remove_adapter_full :: "mock_podman host \<Rightarrow> bool" where
  "test_remove_adapter_full H =
     (let m0 = set_rmi_result (Inr ()) (set_rm_result (Inr ()) (set_stop_result (Inr ()) mock_podman_new));
          sm = create_adapter (entry_of ADAPTER_ID IMAGE_REF CHECKSUM Running ''job-1'' None) sm_new
      in case exec H (remove_adapter ADAPTER_ID) m0 sm of
           (Removed (Inr _), ps, m, sm') \<Rightarrow>
             ADAPTER_ID \<in> set (mp_stop_calls m) \<and> ADAPTER_ID \<in> set (mp_rm_calls m) \<and>
             IMAGE_REF \<in> set (mp_rmi_calls m) \<and> get_adapter ADAPTER_ID sm' = None
         | _ \<Rightarrow> False)"

definition test_removal_failure_internal :: "mock_podman host \<Rightarrow> bool" where
  "test_removal_failure_internal H =
     (let m0 = set_rm_result (Inl (PodmanError ''container in use'')) (set_stop_result (Inr ()) mock_podman_new);
          sm = create_adapter (entry_of ''rm-fail-v1'' ''example.com/rm-fail:v1'' ''sha256:test'' Running ''job-1'' None) sm_new
      in case exec H (remove_adapter ''rm-fail-v1'') m0 sm of
           (Removed (Inl _), ps, m, sm') \<Rightarrow> in_state sm' ''rm-fail-v1'' Error
         | _ \<Rightarrow> False)"

lemma derived_ids [simp]:
  "derive_adapter_id IMAGE_REF = ADAPTER_ID" "derive_adapter_id ''bad-registry.com/img:v1'' = ''img-v1''"
  "derive_adapter_id ''example.com/img:v1'' = ''img-v1''"
  "derive_adapter_id ''example.com/adapter-a:v1'' = ''adapter-a-v1''"
  "derive_adapter_id ''example.com/adapter-b:v1'' = ''adapter-b-v1''"
  by (simp_all add: derive_adapter_id_def after_last_def replace_char_def IMAGE_REF_def ADAPTER_ID_def)

lemma named [simp]: "IMAGE_REF \<noteq> []" "CHECKSUM \<noteq> []"
  by (simp_all add: IMAGE_REF_def CHECKSUM_def)

lemmas run_task = install_all_def install_adapter_def install_rest_def install_task_def new_entry_def
  remove_adapter_def remove_rest_def remove_failed_def mock_executor_defs mock_setters sm_new_def
  get_running_adapter_def get_adapter_def create_adapter_def move_entry_def sm_move_def sm_erase_def
  transition_def remove_adapter_state_def installed_def in_state_def message_contains_def entry_of_def Let_def

lemma install_tests:
  fixes H :: "mock_podman host"
  assumes H: "H = test_host job now secs"
  shows "is_uuid job \<Longrightarrow> test_install_response_immediate is_uuid H" "test_install_calls_podman_pull H"
    "test_install_verifies_checksum H" "test_install_runs_with_network_host H" "test_install_reaches_running H"
  by (simp_all add: H test_install_response_immediate_def test_install_calls_podman_pull_def
      test_install_verifies_checksum_def test_install_runs_with_network_host_def
      test_install_reaches_running_def install_mock_def run_task)

lemma install_error_tests:
  fixes H :: "mock_podman host"
  assumes H: "H = test_host job now secs"
  shows "test_install_empty_image_ref H" "test_install_empty_checksum H" "test_pull_failure_error_state H"
    "test_checksum_mismatch_error H" "test_run_failure_error_state H"
  by (simp_all add: H test_install_empty_image_ref_def test_install_empty_checksum_def
      test_pull_failure_error_state_def test_checksum_mismatch_error_def test_run_failure_error_state_def run_task)

lemma single_adapter_tests:
  fixes H :: "mock_podman host"
  assumes H: "H = test_host job now secs"
  shows "test_single_adapter_stops_running H" "test_stop_failure_install_proceeds H"
  by (simp_all add: H test_single_adapter_stops_running_def test_stop_failure_install_proceeds_def run_task)

lemma remove_tests:
  fixes H :: "mock_podman host"
  assumes H: "H = test_host job now secs"
  shows "test_remove_adapter_full H" "test_removal_failure_internal H"
  by (simp_all add: H test_remove_adapter_full_def test_removal_failure_internal_def run_task)

section \<open>Unit tests: adapter.rs\<close>

definition test_derive_adapter_id_full_registry :: bool where
  "test_derive_adapter_id_full_registry =
     (derive_adapter_id ''us-docker.pkg.dev/sdv-demo/adapters/parkhaus-munich:v1.0.0'' = ''parkhaus-munich-v1.0.0'')"
definition test_derive_adapter_id_short_registry :: bool where
  "test_derive_adapter_id_short_registry =
     (derive_adapter_id ''registry.example.com/my-adapter:latest'' = ''my-adapter-latest'')"
definition test_derive_adapter_id_no_registry :: bool where
  "test_derive_adapter_id_no_registry = (derive_adapter_id ''simple-image:v2'' = ''simple-image-v2'')"

lemma adapter_tests:
  test_derive_adapter_id_full_registry test_derive_adapter_id_short_registry test_derive_adapter_id_no_registry
  by (simp_all add: test_derive_adapter_id_full_registry_def test_derive_adapter_id_short_registry_def
      test_derive_adapter_id_no_registry_def derive_adapter_id_def after_last_def replace_char_def)

section \<open>Unit tests: state.rs\<close>

definition make_entry :: "string \<Rightarrow> string \<Rightarrow> adapter_state \<Rightarrow> adapter_entry" where
  "make_entry adapter_id image_ref st = entry_of adapter_id image_ref ''sha256:test'' st ''test-job-id'' None"

text \<open>What a receiver that subscribed after \<open>n\<close> events gets, in a channel that is not full.\<close>

definition received :: "nat \<Rightarrow> state_manager \<Rightarrow> adapter_event list" where
  "received n sm = drop n (sm_events sm)"

definition try_recv :: "nat \<Rightarrow> state_manager \<Rightarrow> adapter_event option" where
  "try_recv n sm = (case received n sm of [] \<Rightarrow> None | ev # evs \<Rightarrow> Some ev)"

definition test_create_and_get_adapter :: bool where
  "test_create_and_get_adapter =
     (let mgr = create_adapter (make_entry ''adapter-a-v1'' ''example.com/adapter-a:v1'' Running) sm_new
      in case get_adapter ''adapter-a-v1'' mgr of
           None \<Rightarrow> False | Some got \<Rightarrow> ae_adapter_id got = ''adapter-a-v1'' \<and> ae_state got = Running)"

definition test_list_adapters_empty :: bool where
  "test_list_adapters_empty = (list_adapters sm_new = [])"

text \<open>The ids are compared as sorted lists.\<close>

definition test_list_adapters_multiple :: bool where
  "test_list_adapters_multiple =
     (let mgr = create_adapter (make_entry ''b-v2'' ''img-b:v2'' Stopped)
            (create_adapter (make_entry ''a-v1'' ''img-a:v1'' Running) sm_new);
          adapters = list_adapters mgr
      in length adapters = 2 \<and> mset (map ae_adapter_id adapters) = mset [''a-v1'', ''b-v2''])"

definition test_get_unknown_adapter :: bool where
  "test_get_unknown_adapter = (get_adapter ''nonexistent-adapter'' sm_new = None)"

definition test_remove_adapter :: bool where
  "test_remove_adapter =
     (case remove_adapter_state ''adapter-rm'' (create_adapter (make_entry ''adapter-rm'' ''img:v1'' Stopped) sm_new) of
        (Inr _, mgr) \<Rightarrow> get_adapter ''adapter-rm'' mgr = None
      | (Inl _, mgr) \<Rightarrow> False)"

definition test_remove_unknown_adapter :: bool where
  "test_remove_unknown_adapter = (\<not> is_ok (fst (remove_adapter_state ''nonexistent-adapter'' sm_new)))"

definition test_state_transition_emits_event :: "nat \<Rightarrow> 64 word option \<Rightarrow> bool" where
  "test_state_transition_emits_event now secs =
     (case transition ''ev-adapter'' Downloading None now secs
             (create_adapter (make_entry ''ev-adapter'' ''img:v1'' Unknown) sm_new) of
        (Inl _, mgr) \<Rightarrow> False
      | (Inr _, mgr) \<Rightarrow>
          (case try_recv 0 mgr of
             None \<Rightarrow> False
           | Some event \<Rightarrow> av_adapter_id event = ''ev-adapter'' \<and> av_old_state event = Unknown \<and>
               av_new_state event = Downloading \<and> 0 < av_timestamp event))"

definition test_no_historical_replay :: "nat \<Rightarrow> 64 word option \<Rightarrow> bool" where
  "test_no_historical_replay now secs =
     (case transition ''hist-adapter'' Downloading None now secs
             (create_adapter (make_entry ''hist-adapter'' ''img:v1'' Unknown) sm_new) of
        (Inl _, mgr) \<Rightarrow> False
      | (Inr _, mgr1) \<Rightarrow>
          (let subscribed = length (sm_events mgr1)
           in case transition ''hist-adapter'' Installing None now secs mgr1 of
                (Inl _, mgr2) \<Rightarrow> False
              | (Inr _, mgr2) \<Rightarrow>
                  (case try_recv subscribed mgr2 of
                     None \<Rightarrow> False
                   | Some event \<Rightarrow> av_old_state event = Downloading \<and> av_new_state event = Installing)))"

definition test_no_subscribers_no_error :: "nat \<Rightarrow> 64 word option \<Rightarrow> bool" where
  "test_no_subscribers_no_error now secs =
     (case transition ''no-sub-adapter'' Downloading None now secs
             (create_adapter (make_entry ''no-sub-adapter'' ''img:v1'' Unknown) sm_new) of
        (Inl _, mgr) \<Rightarrow> False
      | (Inr _, mgr) \<Rightarrow> in_state mgr ''no-sub-adapter'' Downloading)"

definition test_subscriber_disconnect :: "nat \<Rightarrow> 64 word option \<Rightarrow> bool" where
  "test_subscriber_disconnect now secs =
     (case transition ''disc-adapter'' Downloading None now secs
             (create_adapter (make_entry ''disc-adapter'' ''img:v1'' Unknown) sm_new) of
        (Inl _, mgr) \<Rightarrow> False
      | (Inr _, mgr) \<Rightarrow>
          (case try_recv 0 mgr of
             None \<Rightarrow> False
           | Some event \<Rightarrow> av_adapter_id event = ''disc-adapter'' \<and> av_new_state event = Downloading))"

lemmas state_test_defs = make_entry_def received_def try_recv_def list_adapters_def run_task

lemma store_tests:
  test_create_and_get_adapter test_list_adapters_empty test_list_adapters_multiple test_get_unknown_adapter
  test_remove_adapter test_remove_unknown_adapter
  by (simp_all add: test_create_and_get_adapter_def test_list_adapters_empty_def test_list_adapters_multiple_def
      test_get_unknown_adapter_def test_remove_adapter_def test_remove_unknown_adapter_def state_test_defs)

lemma event_tests:
  "0 < s \<Longrightarrow> test_state_transition_emits_event now (Some s)" "test_no_historical_replay now secs"
  "test_no_subscribers_no_error now secs" "test_subscriber_disconnect now secs"
  by (simp_all add: test_state_transition_emits_event_def test_no_historical_replay_def
      test_no_subscribers_no_error_def test_subscriber_disconnect_def state_test_defs)

section \<open>Unit tests: monitor.rs and offload.rs\<close>

definition setup_running_adapter :: "string \<Rightarrow> state_manager \<Rightarrow> state_manager" where
  "setup_running_adapter adapter_id =
     create_adapter (entry_of adapter_id (''example.com/'' @ adapter_id @ '':v1'') ''sha256:test'' Running ''job-monitor'' None)"

text \<open>The state in which the monitor leaves the adapter; the wait returns at once.\<close>

definition monitored :: "mock_podman host \<Rightarrow> podman_error + int \<Rightarrow> string \<Rightarrow> adapter_state \<Rightarrow> bool" where
  "monitored H result i st =
     (case exec H (monitor_container i) (set_wait_immediate True (set_wait_result result mock_podman_new))
             (setup_running_adapter i sm_new) of
        (r, ps, m, sm) \<Rightarrow> in_state sm i st)"

definition test_container_exit_nonzero_error :: "mock_podman host \<Rightarrow> bool" where
  "test_container_exit_nonzero_error H = monitored H (Inr 1) ''exit-err-v1'' Error"
definition test_container_exit_zero_stopped :: "mock_podman host \<Rightarrow> bool" where
  "test_container_exit_zero_stopped H = monitored H (Inr 0) ''exit-ok-v1'' Stopped"
definition test_podman_wait_failure_error :: "mock_podman host \<Rightarrow> bool" where
  "test_podman_wait_failure_error H = monitored H (Inl (PodmanError ''connection lost'')) ''wait-fail-v1'' Error"

lemma monitor_tests:
  fixes H :: "mock_podman host"
  assumes H: "H = test_host job now secs"
  shows "test_container_exit_nonzero_error H" "test_container_exit_zero_stopped H" "test_podman_wait_failure_error H"
  by (simp_all add: H test_container_exit_nonzero_error_def test_container_exit_zero_stopped_def
      test_podman_wait_failure_error_def monitored_def setup_running_adapter_def monitor_container_def run_task)

text \<open>An \<open>Instant\<close> is a number of nanoseconds; the adapter was stopped ten seconds before \<open>now\<close>.\<close>

definition seconds :: "nat \<Rightarrow> nat" where "seconds n = n * 1000000000"

definition test_offload_after_timeout :: "mock_podman host \<Rightarrow> nat \<Rightarrow> bool" where
  "test_offload_after_timeout H now =
     (let m0 = set_rmi_result (Inr ()) (set_rm_result (Inr ()) mock_podman_new);
          sm0 = create_adapter (entry_of ''offload-v1'' ''example.com/offload:v1'' ''sha256:test'' Stopped ''job-1''
            (Some (now - seconds 10))) sm_new
      in case exec H (run_offload_cycle (seconds 1)) m0 sm0 of
           (r, ps, m, sm) \<Rightarrow>
             get_adapter ''offload-v1'' sm = None \<and> ''offload-v1'' \<in> set (mp_rm_calls m) \<and>
             ''example.com/offload:v1'' \<in> set (mp_rmi_calls m) \<and>
             list_ex (\<lambda>ev. av_old_state ev = Stopped \<and> av_new_state ev = Offloading) (received 0 sm))"

definition test_offload_failure_error :: "mock_podman host \<Rightarrow> nat \<Rightarrow> bool" where
  "test_offload_failure_error H now =
     (let m0 = set_rmi_result (Inl (PodmanError ''image in use'')) (set_rm_result (Inr ()) mock_podman_new);
          sm0 = create_adapter (entry_of ''offload-fail-v1'' ''example.com/offload-fail:v1'' ''sha256:test'' Stopped
            ''job-2'' (Some (now - seconds 10))) sm_new
      in case exec H (run_offload_cycle (seconds 1)) m0 sm0 of
           (r, ps, m, sm) \<Rightarrow> in_state sm ''offload-fail-v1'' Error)"

lemma offload_tests:
  fixes H :: "mock_podman host"
  assumes H: "H = test_host job now secs" and "seconds 10 \<le> now"
  shows "test_offload_after_timeout H now" "test_offload_failure_error H now"
  using assms(2)
  by (simp_all add: H test_offload_after_timeout_def test_offload_failure_error_def run_offload_cycle_def
      get_offload_candidates_def received_def seconds_def run_task)

section \<open>Property tests\<close>

definition proptest_adapter_id_determinism :: "string \<Rightarrow> string \<Rightarrow> string \<Rightarrow> string \<Rightarrow> bool" where
  "proptest_adapter_id_determinism registry path name tag =
     (let image_ref = (if path = [] then registry @ ''/'' @ name @ '':'' @ tag
                       else registry @ ''/'' @ path @ ''/'' @ name @ '':'' @ tag);
          id1 = derive_adapter_id image_ref;
          id2 = derive_adapter_id image_ref
      in id1 = id2 \<and> id1 \<noteq> [])"

definition proptest_adapter_id_uniqueness :: "string \<Rightarrow> string \<Rightarrow> string \<Rightarrow> string \<Rightarrow> bool" where
  "proptest_adapter_id_uniqueness name1 tag1 name2 tag2 =
     (let seg1 = name1 @ '':'' @ tag1;
          seg2 = name2 @ '':'' @ tag2
      in seg1 \<noteq> seg2 \<longrightarrow>
           derive_adapter_id (''registry.example.com/'' @ name1 @ '':'' @ tag1) \<noteq>
           derive_adapter_id (''registry.example.com/'' @ name2 @ '':'' @ tag2))"

text \<open>The rounds of the second test; \<open>None\<close> when an assertion failed.\<close>

definition install_round :: "mock_podman host \<Rightarrow> nat \<Rightarrow> mock_podman \<times> state_manager \<Rightarrow> (mock_podman \<times> state_manager) option" where
  "install_round H i s =
     (let checksum = ''sha256:check'' @ show_nat i;
          image_ref = ''example.com/adapter-'' @ show_nat i @ '':v1''
      in case installed H image_ref checksum (set_inspect_result (Inr checksum) (fst s)) (snd s) of
           None \<Rightarrow> None
         | Some (m, sm) \<Rightarrow>
             if length (filter (\<lambda>a. ae_state a = Running) (list_adapters sm)) \<le> 1 then Some (m, sm) else None)"

fun install_rounds :: "mock_podman host \<Rightarrow> nat list \<Rightarrow> mock_podman \<times> state_manager \<Rightarrow> (mock_podman \<times> state_manager) option" where
  "install_rounds H [] s = Some s"
| "install_rounds H (i # is) s = Option.bind (install_round H i s) (install_rounds H is)"

definition proptest_single_adapter_invariant :: "mock_podman host \<Rightarrow> nat \<Rightarrow> bool" where
  "proptest_single_adapter_invariant H n =
     (install_rounds H [0..<n]
        (set_stop_result (Inr ()) (set_run_result (Inr ()) (set_pull_result (Inr ()) mock_podman_new)), sm_new) \<noteq> None)"

definition proptest_state_transition_validity :: "mock_podman host \<Rightarrow> bool" where
  "proptest_state_transition_validity H =
     (let m0 = set_run_result (Inr ()) (set_inspect_result (Inr ''sha256:abc'') (set_pull_result (Inr ()) mock_podman_new))
      in case installed H ''example.com/val-test:v1'' ''sha256:abc'' m0 sm_new of
           None \<Rightarrow> False
         | Some (m, sm) \<Rightarrow>
             list_all (\<lambda>event. (av_old_state event, av_new_state event) \<in> set VALID_TRANSITIONS) (received 0 sm))"

definition proptest_event_delivery_completeness :: "mock_podman host \<Rightarrow> nat \<Rightarrow> bool" where
  "proptest_event_delivery_completeness H n_subscribers =
     (let m0 = set_run_result (Inr ()) (set_inspect_result (Inr ''sha256:abc'') (set_pull_result (Inr ()) mock_podman_new));
          receivers = replicate n_subscribers (length (sm_events sm_new))
      in case installed H ''example.com/delivery-test:v1'' ''sha256:abc'' m0 sm_new of
           None \<Rightarrow> False
         | Some (m, sm) \<Rightarrow>
             (let all_events = map (\<lambda>rx. received rx sm) receivers
              in list_all (\<lambda>i. all_events ! 0 = all_events ! i) [1..<n_subscribers]))"

definition proptest_checksum_verification_soundness :: "mock_podman host \<Rightarrow> string \<Rightarrow> bool" where
  "proptest_checksum_verification_soundness H suffix =
     (let digest = ''sha256:actual_'' @ suffix;
          checksum = ''sha256:expected_'' @ suffix;
          m0 = set_rmi_result (Inr ()) (set_inspect_result (Inr digest) (set_pull_result (Inr ()) mock_podman_new));
          image_ref = ''example.com/cs-test:v1''
      in digest \<noteq> checksum \<and>
         (case installed H image_ref checksum m0 sm_new of
            None \<Rightarrow> False
          | Some (m, sm) \<Rightarrow> in_state sm ''cs-test-v1'' Error \<and> image_ref \<in> set (mp_rmi_calls m)))"

definition proptest_offload_timing_correctness :: "mock_podman host \<Rightarrow> nat \<Rightarrow> nat \<Rightarrow> bool" where
  "proptest_offload_timing_correctness H stopped timeout_secs =
     (let m0 = set_rmi_result (Inr ()) (set_rm_result (Inr ()) mock_podman_new);
          sm0 = create_adapter (entry_of ''timing-v1'' ''example.com/timing:v1'' ''sha256:test'' Stopped
            ''job-timing'' (Some stopped)) sm_new
      in case exec H (run_offload_cycle (seconds timeout_secs)) m0 sm0 of
           (r, ps, m, sm) \<Rightarrow> in_state sm ''timing-v1'' Stopped)"

lemma adapter_id_determinism:
  assumes "CHR ''/'' \<notin> set name" "CHR '':'' \<notin> set name" "CHR ''/'' \<notin> set tag" "CHR '':'' \<notin> set tag"
  shows "proptest_adapter_id_determinism registry path name tag"
  using adapter_id_format [OF assms, THEN conjunct1, of registry]
    adapter_id_format [OF assms, THEN conjunct1, of "registry @ ''/'' @ path"]
  by (simp add: proptest_adapter_id_determinism_def Let_def)

lemma length_le_one:
  assumes "distinct (map f xs)" and "\<And>x y. x \<in> set xs \<Longrightarrow> y \<in> set xs \<Longrightarrow> f x = f y"
  shows "length xs \<le> 1"
  using assms(1) assms(2) [of "xs ! 0" "xs ! 1"] by (cases xs rule: remdups_adj.cases) simp_all

lemma at_most_one_listed:
  assumes "wf_sm sm" and "single_adapter sm"
  shows "length (filter (\<lambda>a. ae_state a = Running) (list_adapters sm)) \<le> 1"
proof -
  let ?rs = "filter (\<lambda>a. ae_state a = Running) (list_adapters sm)"
  have "map ae_adapter_id (list_adapters sm) = map fst (sm_adapters sm)"
    using assms(1) unfolding list_adapters_def map_map by (intro map_cong) (auto simp: wf_sm_def)
  then have "distinct (map ae_adapter_id (list_adapters sm))"
    using assms(1) by (simp add: wf_sm_def)
  then have d: "distinct (map ae_adapter_id ?rs)" by (rule distinct_map_filter)
  have same: "ae_adapter_id e = ae_adapter_id f" if "e \<in> set ?rs" "f \<in> set ?rs" for e f
    using that assms(2) by (auto simp: single_adapter_def list_all_iff)
  show ?thesis by (rule length_le_one [OF d]) (rule same)
qed

lemma installed_mock:
  assumes "img \<noteq> []" and "cs \<noteq> []" and "wf_sm sm" and "store.single_running sm"
  shows "\<exists>m' sm'. installed (test_host job now secs) img cs m sm = Some (m', sm') \<and>
     wf_sm sm' \<and> store.single_running sm'"
proof -
  let ?H = "test_host job now secs"
  obtain r ps m' sm' where i: "install_all ?H img cs m sm = (r, ps, m', sm')" by (metis prod_cases4)
  have x: "r = Installed (Inr (j, derive_adapter_id img, Downloading)) \<and> wf_sm sm' \<and> store.single_running sm'"
    if "st \<in> {Stopped, Error}" "only_moved (derive_adapter_id img) (prepared st msg n0 s0 n s j img cs sm) sm0"
      "sm' = sm_move (derive_adapter_id img) st' msg' now' secs' sm0"
      "r = Installed (Inr (j, derive_adapter_id img, Downloading))" for st msg n0 s0 n s j sm0 st' msg' now' secs'
    using that before_start_none_running [OF assms(3,4) that(1), of msg n0 s0 n s j img cs]
    by (auto simp: only_moved_def store_simps store.wf_move intro!: store.single_running_start [of _ "derive_adapter_id img"])
  obtain j where "r = Installed (Inr (j, derive_adapter_id img, Downloading))" "wf_sm sm'" "store.single_running sm'"
    by (rule install_all_effect [OF assms(1,2) i]) (metis x)
  then show ?thesis using i by (simp add: installed_def)
qed

lemma single_adapter_invariant: "proptest_single_adapter_invariant (test_host job now secs) n"
proof -
  have "\<exists>s'. install_rounds (test_host job now secs) is (m, sm) = Some s'" if "wf_sm sm" "store.single_running sm" for "is" m sm
    using that
  proof (induction "is" arbitrary: m sm)
    case (Cons i "is")
    obtain m' sm' where s: "installed (test_host job now secs) (''example.com/adapter-'' @ show_nat i @ '':v1'')
        (''sha256:check'' @ show_nat i) (set_inspect_result (Inr (''sha256:check'' @ show_nat i)) m) sm = Some (m', sm')"
      "wf_sm sm'" "store.single_running sm'"
      using installed_mock [OF _ _ Cons.prems] by (metis append_is_Nil_conv list.distinct(1))
    then show ?case
      using Cons.IH [OF s(2,3)] at_most_one_listed [OF s(2)] single_adapter_iff [OF s(2)]
      by (auto simp: install_round_def Let_def)
  qed simp
  moreover have "wf_sm sm_new" "store.single_running sm_new"
    by (simp_all add: sm_new_def wf_sm_def store.single_running_def)
  ultimately show ?thesis by (force simp: proptest_single_adapter_invariant_def)
qed

lemma proptest_ids [simp]:
  "derive_adapter_id ''example.com/val-test:v1'' = ''val-test-v1''"
  "derive_adapter_id ''example.com/delivery-test:v1'' = ''delivery-test-v1''"
  "derive_adapter_id ''example.com/cs-test:v1'' = ''cs-test-v1''"
  by (simp_all add: derive_adapter_id_def after_last_def replace_char_def)

lemma event_proptests:
  fixes H :: "mock_podman host"
  assumes H: "H = test_host job now secs"
  shows "proptest_state_transition_validity H" "proptest_event_delivery_completeness H n"
    "proptest_checksum_verification_soundness H suffix"
  by (simp_all add: H proptest_state_transition_validity_def proptest_event_delivery_completeness_def
      proptest_checksum_verification_soundness_def received_def VALID_TRANSITIONS_def list_all_iff run_task)

lemma offload_timing_correctness:
  "now - stopped < seconds timeout_secs \<Longrightarrow>
     proptest_offload_timing_correctness (test_host job now secs) stopped timeout_secs"
  by (simp add: proptest_offload_timing_correctness_def run_offload_cycle_def get_offload_candidates_def run_task)

text \<open>
  C26: The property tests of the update service hold for every generated input, in range or not:
  ids, any number of installations, subscribers and digests, and every timeout that has not passed;
  the one of the uniqueness of ids does not.
\<close>
theorem update_property_tests_hold:
  assumes "CHR ''/'' \<notin> set name" "CHR '':'' \<notin> set name" "CHR ''/'' \<notin> set tag" "CHR '':'' \<notin> set tag"
    and "now - stopped < seconds timeout_secs" and "host = test_host job now secs"
  shows "proptest_adapter_id_determinism registry path name tag \<and> proptest_single_adapter_invariant host n \<and>
     proptest_state_transition_validity host \<and> proptest_event_delivery_completeness host n_subscribers \<and>
     proptest_checksum_verification_soundness host suffix \<and>
     proptest_offload_timing_correctness host stopped timeout_secs"
  using adapter_id_determinism [OF assms(1-4)] single_adapter_invariant event_proptests [OF refl]
    offload_timing_correctness [OF assms(5)]
  by (simp add: assms(6))

lemma update_property_tests_hold_witness:
  "proptest_single_adapter_invariant (test_host ''job'' 5 None) 3 \<and>
   proptest_adapter_id_determinism ''reg.io'' [] ''parkhaus'' ''v1.0''"
  using update_property_tests_hold [of "''parkhaus''" "''v1.0''" 5 0 2 "test_host ''job'' 5 None" "''job''" None "''reg.io''" "[]" 3]
  by (simp add: seconds_def)

text \<open>
  The property test of the uniqueness of adapter ids can fail, with names and tags that its
  generators draw: the images \<open>a:b-c\<close> and \<open>a-b:c\<close> have the same id.
\<close>
lemma uniqueness_test_can_fail:
  "\<not> proptest_adapter_id_uniqueness ''a'' ''b-c'' ''a-b'' ''c''"
  by (simp add: proptest_adapter_id_uniqueness_def derive_adapter_id_def after_last_def replace_char_def)

end
